(* ===== verification/Prelude.thy ===== *)
theory Prelude
  imports Main "HOL-Library.Char_ord" "HOL-Library.List_Lexorder" "HOL-Library.Product_Lexorder"
begin

section \<open>Prelude: Python values, exceptions and tables of rows\<close>

text \<open>
  What every component shares: the type abbreviations, the exceptions of the service layer
  as one datatype, the text operations the source applies to \<open>str\<close>, and the operations on
  a table of rows (a list of records with a key) with their laws. The collections
  \<open>table_simps\<close> and \<open>ok_intros\<close> gather the facts the component proofs run on.
\<close>

named_theorems table_simps \<open>how get, set and append act on a table of rows\<close>
named_theorems ok_intros \<open>the writes that keep the database well formed\<close>

type_synonym uuid = nat
type_synonym time = int
type_synonym str = string

subsection \<open>Exceptions\<close>

text \<open>
  One constructor per exception class that leaves a function of the program. The string is the
  message the source passes; the flag of \<open>ConnectorError\<close> is its \<open>retryable\<close> attribute.
\<close>

datatype exn =
    ValueErr str
  | TypeErr str
  | KeyErr str
  | AttributeErr str
  | ValidationErr
  | IntegrityErr
  | DataErr
  | OverflowErr
  | DecodingErr str
  | MultipleResultsFound
  | InvestigationNotFoundError str
  | InvalidEvidenceReferenceError str
  | ApprovalError str
  | RemediationError str
  | RemediationSecurityError str
  | CollectionNotFoundError str
  | OrchestrationError str
  | ConnectorError str str bool

text \<open>
  An operation that reads and changes a state and may raise: the state is returned in both
  outcomes, because a Python exception does not undo the writes before it.
\<close>

type_synonym ('s, 'a) op = "'s \<Rightarrow> (exn + 'a) \<times> 's"

text \<open>\<open>bind m k\<close>: go on with \<open>k\<close> on the result of \<open>m\<close>; an exception of \<open>m\<close> leaves the function.\<close>

definition bind :: "(exn + 'a) \<times> 's \<Rightarrow> ('a \<Rightarrow> 's \<Rightarrow> (exn + 'b) \<times> 's) \<Rightarrow> (exn + 'b) \<times> 's" where
  "bind m k = (case m of (Inl e, s) \<Rightarrow> (Inl e, s) | (Inr x, s) \<Rightarrow> k x s)"

lemma bind_simps [simp]:
  "bind (Inl e, s) k = (Inl e, s)"
  "bind (Inr x, s) k = k x s"
  by (simp_all add: bind_def)

lemma bind_Inr:
  "bind m k = (Inr y, s') \<longleftrightarrow> (\<exists>x s. m = (Inr x, s) \<and> k x s = (Inr y, s'))"
  by (cases m; cases "fst m") (auto simp: bind_def)

lemma bind_Inl:
  "bind m k = (Inl e, s') \<longleftrightarrow> m = (Inl e, s') \<or> (\<exists>x s. m = (Inr x, s) \<and> k x s = (Inl e, s'))"
  by (cases m; cases "fst m") (auto simp: bind_def)

lemma bind_keeps:
  assumes "P (snd m)" "\<And>x s. m = (Inr x, s) \<Longrightarrow> P s \<Longrightarrow> P (snd (k x s))"
  shows "P (snd (bind m k))"
  using assms by (cases m; cases "fst m") (auto simp: bind_def)

subsection \<open>Text\<close>

definition lower_char :: "char \<Rightarrow> char" where
  "lower_char c = (if CHR ''A'' \<le> c \<and> c \<le> CHR ''Z'' then char_of (of_char c + (32::nat)) else c)"

definition lower :: "str \<Rightarrow> str" where
  "lower s = map lower_char s"

definition is_space :: "char \<Rightarrow> bool" where
  "is_space c \<longleftrightarrow> c \<in> {CHR '' '', CHR 0x09, CHR 0x0A, CHR 0x0B, CHR 0x0C, CHR 0x0D,
     CHR 0x1C, CHR 0x1D, CHR 0x1E, CHR 0x1F}"

definition strip_by :: "(char \<Rightarrow> bool) \<Rightarrow> str \<Rightarrow> str" where
  "strip_by p s = rev (dropWhile p (rev (dropWhile p s)))"

definition strip :: "str \<Rightarrow> str" where
  "strip = strip_by is_space"

fun starts_with :: "str \<Rightarrow> str \<Rightarrow> bool" where
  "starts_with [] s = True"
| "starts_with (x # xs) [] = False"
| "starts_with (x # xs) (y # ys) = (x = y \<and> starts_with xs ys)"

fun contains :: "str \<Rightarrow> str \<Rightarrow> bool" where
  "contains p [] = starts_with p []"
| "contains p (c # s) = (starts_with p (c # s) \<or> contains p s)"

fun join :: "str \<Rightarrow> str list \<Rightarrow> str" where
  "join sep [] = []"
| "join sep [x] = x"
| "join sep (x # y # zs) = x @ sep @ join sep (y # zs)"

definition replace_char :: "char \<Rightarrow> str \<Rightarrow> str \<Rightarrow> str" where
  "replace_char a b s = concat (map (\<lambda>c. if c = a then b else [c]) s)"

fun digits_of :: "nat \<Rightarrow> str" where
  "digits_of n = (if n < 10 then [char_of (48 + n)] else digits_of (n div 10) @ [char_of (48 + n mod 10)])"

declare digits_of.simps [simp del]

definition str_int :: "int \<Rightarrow> str" where
  "str_int i = (if i < 0 then CHR ''-'' # digits_of (nat (- i)) else digits_of (nat i))"

definition str_nat :: "nat \<Rightarrow> str" where
  "str_nat n = digits_of n"

lemma starts_with_append [simp]: "starts_with p (p @ s)"
  by (induction p) auto

lemma contains_self: "contains p (p @ s)"
  by (cases "p @ s") (auto simp: contains.simps, (metis contains.simps starts_with_append append_Nil2)+)

lemma replace_char_length: "length (replace_char a [b] s) = length s"
  by (induction s) (auto simp: replace_char_def)

subsection \<open>Tables of rows\<close>

lemma find_SomeD: "List.find P xs = Some x \<Longrightarrow> x \<in> set xs \<and> P x"
  by (auto simp: find_Some_iff)

text \<open>
  A table is the list of its rows in insertion order; \<open>key\<close> projects a row's primary key.
  \<open>row_get\<close> is \<open>session.get\<close>, \<open>row_set\<close> is assigning attributes of the row object that
  \<open>session.get\<close> returned (the session writes the changed columns back under its key).
\<close>

definition row_get :: "('r \<Rightarrow> uuid) \<Rightarrow> uuid \<Rightarrow> 'r list \<Rightarrow> 'r option" where
  "row_get key k t = List.find (\<lambda>r. key r = k) t"

definition row_set :: "('r \<Rightarrow> uuid) \<Rightarrow> 'r \<Rightarrow> 'r list \<Rightarrow> 'r list" where
  "row_set key r t = map (\<lambda>q. if key q = key r then r else q) t"

definition keys :: "('r \<Rightarrow> 'k) \<Rightarrow> 'r list \<Rightarrow> 'k set" where
  "keys key t = key ` set t"

lemma row_get_Nil [table_simps]: "row_get key k [] = None"
  by (simp add: row_get_def)

lemma row_get_Cons [table_simps]:
  "row_get key k (r # t) = (if key r = k then Some r else row_get key k t)"
  by (simp add: row_get_def)

lemma row_get_append [table_simps]:
  "row_get key k (t @ u) = (case row_get key k t of Some r \<Rightarrow> Some r | None \<Rightarrow> row_get key k u)"
  by (induction t) (auto simp: table_simps)

lemma row_get_None_iff [table_simps]: "row_get key k t = None \<longleftrightarrow> k \<notin> keys key t"
  by (auto simp: row_get_def keys_def find_None_iff)

lemma row_get_SomeD: "row_get key k t = Some r \<Longrightarrow> r \<in> set t \<and> key r = k"
  by (auto simp: row_get_def find_Some_iff)

lemma row_get_in_keys: "row_get key k t = Some r \<Longrightarrow> k \<in> keys key t"
  using row_get_SomeD by (fastforce simp: keys_def)

lemma row_get_unique:
  "distinct (map key t) \<Longrightarrow> r \<in> set t \<Longrightarrow> row_get key (key r) t = Some r"
  by (induction t) (auto simp: table_simps)

lemma in_keysI: "r \<in> set t \<Longrightarrow> key r \<in> keys key t"
  by (simp add: keys_def)

lemma not_in_keysD: "k \<notin> keys key t \<Longrightarrow> r \<in> set t \<Longrightarrow> key r \<noteq> k"
  by (auto simp: keys_def)

lemma keys_Nil [table_simps]: "keys key [] = {}"
  by (simp add: keys_def)

lemma keys_append [table_simps]: "keys key (t @ u) = keys key t \<union> keys key u"
  by (auto simp: keys_def)

lemma keys_Cons [table_simps]: "keys key (r # t) = insert (key r) (keys key t)"
  by (auto simp: keys_def)

lemma map_row_set: "map key (row_set key r t) = map key t"
  by (induction t) (auto simp: row_set_def)

lemma keys_row_set [table_simps]: "keys key (row_set key r t) = keys key t"
  using map_row_set [of key r t] by (metis keys_def set_map)

lemma distinct_row_set [table_simps]:
  "distinct (map key (row_set key r t)) = distinct (map key t)"
  by (simp add: map_row_set)

lemma length_row_set [table_simps]: "length (row_set key r t) = length t"
  by (simp add: row_set_def)

lemma row_get_row_set [table_simps]:
  "row_get key k (row_set key r t) =
     (if k = key r \<and> k \<in> keys key t then Some r else row_get key k t)"
  by (induction t) (auto simp: table_simps row_set_def)

lemma set_row_set:
  "q \<in> set (row_set key r t) \<longleftrightarrow> (q \<in> set t \<and> key q \<noteq> key r) \<or> (q = r \<and> key r \<in> keys key t)"
  by (induction t) (auto simp: row_set_def keys_def)

lemma set_row_set_subset: "set (row_set key r t) \<subseteq> insert r (set t)"
  by (auto simp: set_row_set)

text \<open>
  A projection that the update leaves alone is the same before and after it, so a foreign key
  over a pair of columns survives every update of the other columns.
\<close>

lemma keys_row_set_same:
  assumes "distinct (map key t)" "row_get key (key r) t = Some q" "proj q = proj r"
  shows "keys proj (row_set key r t) = keys proj t"
proof -
  have "q \<in> set t" "key q = key r" using assms(2) by (auto dest: row_get_SomeD)
  have uq: "s = q" if "s \<in> set t" "key s = key r" for s
    using row_get_unique [OF assms(1) that(1)] that(2) assms(2) by simp
  show ?thesis
  proof
    show "keys proj (row_set key r t) \<subseteq> keys proj t"
      using \<open>q \<in> set t\<close> assms(3) by (auto simp: keys_def set_row_set) (metis imageI)
    show "keys proj t \<subseteq> keys proj (row_set key r t)"
    proof
      fix k assume "k \<in> keys proj t"
      then obtain s where s: "s \<in> set t" "k = proj s" by (auto simp: keys_def)
      show "k \<in> keys proj (row_set key r t)"
      proof (cases "key s = key r")
        case True
        then have "k = proj r" using uq s assms(3) by simp
        moreover have "key r \<in> keys key t" using True s by (metis keys_def imageI)
        then have "r \<in> set (row_set key r t)" by (simp add: set_row_set)
        ultimately show ?thesis by (auto simp: keys_def)
      next
        case False
        then show ?thesis using s by (auto simp: keys_def set_row_set)
      qed
    qed
  qed
qed

lemma row_set_self:
  assumes "distinct (map key t)" "r \<in> set t" shows "row_set key r t = t"
proof -
  have "q = r" if "q \<in> set t" "key q = key r" for q
    using row_get_unique [OF assms(1) that(1)] row_get_unique [OF assms] that(2)
    by (metis option.inject)
  then have "map (\<lambda>q. if key q = key r then r else q) t = map (\<lambda>q. q) t"
    by (intro map_cong) (simp_all, metis)
  then show ?thesis by (simp add: row_set_def)
qed

text \<open>A join whose only matching row is known.\<close>

lemma concat_map_single:
  assumes "x \<in> set xs" "distinct xs" "\<And>y. y \<in> set xs \<Longrightarrow> y \<noteq> x \<Longrightarrow> f y = []"
  shows "concat (map f xs) = f x"
  using assms
proof (induction xs)
  case (Cons z zs)
  show ?case
  proof (cases "z = x")
    case True
    then have "\<forall>y \<in> set zs. f y = []" using Cons.prems by auto
    then show ?thesis using True by simp
  next
    case False
    then show ?thesis using Cons by simp
  qed
qed simp

lemma same_key: "distinct (map key t) \<Longrightarrow> q \<in> set t \<Longrightarrow> r \<in> set t \<Longrightarrow> key q = key r \<Longrightarrow> q = r"
  by (metis inj_on_def distinct_map)

subsection \<open>Ordered selections\<close>

text \<open>
  \<open>ORDER BY\<close> is a stable sort by a key. \<open>page\<close> is \<open>LIMIT\<close> and \<open>OFFSET\<close>.
\<close>

definition page :: "nat \<Rightarrow> nat \<Rightarrow> 'a list \<Rightarrow> 'a list" where
  "page limit offset xs = take limit (drop offset xs)"

lemma page_length: "length (page l n xs) \<le> l"
  by (simp add: page_def)

lemma page_subset: "set (page l n xs) \<subseteq> set xs"
  unfolding page_def by (meson set_drop_subset set_take_subset subset_trans)

lemma page_in_order: "page l n xs @ drop (n + l) xs = drop n xs"
  unfolding page_def by (metis add.commute append_take_drop_id drop_drop)

definition first_row :: "'a list \<Rightarrow> 'a option" where
  "first_row xs = (case xs of [] \<Rightarrow> None | x # _ \<Rightarrow> Some x)"

lemma first_row_None [simp]: "first_row xs = None \<longleftrightarrow> xs = []"
  by (cases xs) (auto simp: first_row_def)

lemma first_row_Some_in: "first_row xs = Some x \<Longrightarrow> x \<in> set xs"
  by (cases xs) (auto simp: first_row_def)

lemma first_row_sort_min:
  fixes f :: "'a \<Rightarrow> 'b::linorder"
  assumes "first_row (sort_key f xs) = Some x" and "y \<in> set xs"
  shows "f x \<le> f y"
proof -
  obtain ys where ys: "sort_key f xs = x # ys"
    using assms(1) by (auto simp: first_row_def split: list.splits)
  have "sorted (map f (x # ys))" using sorted_sort_key [of f xs] ys by simp
  moreover have "y \<in> set (x # ys)" using assms(2) ys by (metis set_sort)
  ultimately show ?thesis by auto
qed

end
