(* ===== verification/Py_Float.thy ===== *)
theory Py_Float
  imports Complex_Main Prelude
begin

section \<open>Python floats\<close>

text \<open>
  A finite float is the rational number it denotes. Literals, sums and products are rounded to
  the nearest 53-bit significand, ties to even, as the hardware does; the exponent range is not
  bounded (the scores and confidences of the program lie between 1/8 and a few thousands).
  \<open>fl_mono\<close> says that rounding keeps the order, which is what the threshold and ranking
  theorems need. \<open>pyfloat\<close> adds the infinities and NaN, with Python's comparisons.
\<close>

subsection \<open>Binary exponents\<close>

fun nlog2 :: "nat \<Rightarrow> nat" where
  "nlog2 n = (if n < 2 then 0 else Suc (nlog2 (n div 2)))"

declare nlog2.simps [simp del]

lemma nlog2_bounds: "0 < n \<Longrightarrow> 2 ^ nlog2 n \<le> n \<and> n < 2 ^ Suc (nlog2 n)"
proof (induction n rule: nlog2.induct)
  case (1 n)
  show ?case
  proof (cases "n < 2")
    case True
    then show ?thesis using "1.prems" by (simp add: nlog2.simps [of n])
  next
    case False
    then have "2 ^ nlog2 (n div 2) \<le> n div 2 \<and> n div 2 < 2 ^ Suc (nlog2 (n div 2))"
      using "1.IH" by simp
    then show ?thesis using False by (simp add: nlog2.simps [of n]) linarith
  qed
qed

definition pow2 :: "int \<Rightarrow> rat" where
  "pow2 e = (if 0 \<le> e then 2 ^ nat e else 1 / 2 ^ nat (- e))"

lemma pow2_powi: "pow2 e = 2 powi e"
  by (simp add: pow2_def power_int_def field_simps)

lemma pow2_pos [simp]: "0 < pow2 e"
  by (simp add: pow2_def)

lemma pow2_neg: "pow2 (- int k) = 1 / 2 ^ k"
  by (simp add: pow2_def)

lemma pow2_add: "pow2 (a + b) = pow2 a * pow2 b"
  by (simp add: pow2_powi power_int_add)

lemma pow2_mono: "a \<le> b \<Longrightarrow> pow2 a \<le> pow2 b"
  by (simp add: pow2_powi power_int_increasing)

lemma pow2_le_iff: "pow2 a < pow2 b \<Longrightarrow> a < b"
  using pow2_mono by (meson linorder_not_le)

lemma div_times_le: "0 < (d::int) \<Longrightarrow> n div d * d \<le> n"
  using div_mult_mod_eq [of n d] pos_mod_sign [of d n] by linarith

lemma div_less_times:
  assumes "0 < (d::int)" "n div d < k" shows "n < k * d"
proof -
  have "(n div d + 1) * d \<le> k * d" using assms by (intro mult_right_mono) auto
  moreover have "n < (n div d + 1) * d"
    using div_mult_mod_eq [of n d] pos_mod_bound [OF assms(1), of n]
    by (simp only: distrib_right mult_1_left)
  ultimately show ?thesis by linarith
qed

definition ilog2 :: "rat \<Rightarrow> int" where
  "ilog2 x = (let (n, d) = quotient_of x in
     if d \<le> n then int (nlog2 (nat (n div d)))
     else - int (Suc (nlog2 (nat ((d - 1) div n)))))"

lemma ilog2_bounds:
  assumes "0 < x"
  shows "pow2 (ilog2 x) \<le> x \<and> x < pow2 (ilog2 x + 1)"
proof -
  obtain n d where nd: "quotient_of x = (n, d)" by (cases "quotient_of x")
  have d: "0 < d" using quotient_of_denom_pos [OF nd] .
  have x: "x = of_int n / of_int d" using quotient_of_div [OF nd] .
  have n: "0 < n" using assms d by (simp add: x zero_less_divide_iff)
  show ?thesis
  proof (cases "d \<le> n")
    case True
    let ?k = "nlog2 (nat (n div d))"
    have "0 < n div d" using True d by (simp add: pos_imp_zdiv_pos_iff)
    then have b: "2 ^ ?k \<le> nat (n div d)" "nat (n div d) < 2 ^ Suc ?k"
      using nlog2_bounds [of "nat (n div d)"] by auto
    have "int (2 ^ ?k) \<le> n div d" using b(1) \<open>0 < n div d\<close> by (simp add: le_nat_iff)
    then have "2 ^ ?k * d \<le> n div d * d" using d by (intro mult_right_mono) auto
    then have lo: "2 ^ ?k * d \<le> n" using div_times_le [OF d, of n] by linarith
    have "n div d < int (2 ^ Suc ?k)" using b(2) \<open>0 < n div d\<close> by (simp add: nat_less_iff)
    then have hi: "n < 2 ^ Suc ?k * d" using div_less_times [OF d, of n "2 ^ Suc ?k"] by simp
    have "(of_int (2 ^ ?k * d) :: rat) \<le> of_int n" using lo of_int_le_iff by blast
    moreover have "(of_int n :: rat) < of_int (2 ^ Suc ?k * d)" using hi of_int_less_iff by blast
    moreover have "ilog2 x = int ?k" using True by (simp add: ilog2_def nd)
    ultimately show ?thesis
      using d unfolding \<open>ilog2 x = int ?k\<close> x by (simp add: pow2_def field_simps nat_add_distrib)
  next
    case False
    let ?q = "(d - 1) div n"
    let ?k = "nlog2 (nat ?q)"
    have "0 < ?q" using False n by (simp add: pos_imp_zdiv_pos_iff)
    then have b: "2 ^ ?k \<le> nat ?q" "nat ?q < 2 ^ Suc ?k"
      using nlog2_bounds [of "nat ?q"] by auto
    have "int (2 ^ ?k) \<le> ?q" using b(1) \<open>0 < ?q\<close> by (simp add: le_nat_iff)
    then have "2 ^ ?k * n \<le> ?q * n" using n by (intro mult_right_mono) auto
    then have lo: "n * 2 ^ ?k < d" using div_times_le [OF n, of "d - 1"] by (simp add: mult.commute)
    have "?q < int (2 ^ Suc ?k)" using b(2) \<open>0 < ?q\<close> by (simp add: nat_less_iff)
    then have "d - 1 < 2 ^ Suc ?k * n" using div_less_times [OF n, of "d - 1" "2 ^ Suc ?k"] by simp
    then have hi: "d \<le> n * 2 ^ Suc ?k" by (simp add: mult.commute)
    have h: "(of_int (n * 2 ^ ?k) :: rat) < of_int d" "(of_int d :: rat) \<le> of_int (n * 2 ^ Suc ?k)"
      using lo hi of_int_less_iff of_int_le_iff by blast+
    have e: "pow2 (ilog2 x) = 1 / 2 ^ Suc ?k" "pow2 (ilog2 x + 1) = 1 / 2 ^ ?k"
      using False pow2_neg [of "Suc ?k"] pow2_neg [of ?k] by (simp_all add: ilog2_def nd)
    show ?thesis unfolding e using h d n by (simp add: x field_simps)
  qed
qed

lemma ilog2_mono: "0 < x \<Longrightarrow> x \<le> y \<Longrightarrow> ilog2 x \<le> ilog2 y"
  using ilog2_bounds [of x] ilog2_bounds [of y] pow2_le_iff [of "ilog2 x" "ilog2 y + 1"] by linarith

subsection \<open>Rounding\<close>

definition round_half_even :: "rat \<Rightarrow> int" where
  "round_half_even x = (let r = \<lfloor>x\<rfloor>; f = x - of_int r in
     if f < 1 / 2 then r else if f > 1 / 2 then r + 1 else if even r then r else r + 1)"

lemma round_half_even_of_int [simp]: "round_half_even (of_int i) = i"
  by (simp add: round_half_even_def)

lemma round_half_even_mono:
  assumes "x \<le> y" shows "round_half_even x \<le> round_half_even y"
proof (cases "\<lfloor>x\<rfloor> = \<lfloor>y\<rfloor>")
  case True
  then show ?thesis using assms by (auto simp: round_half_even_def Let_def)
next
  case False
  then have "\<lfloor>x\<rfloor> + 1 \<le> \<lfloor>y\<rfloor>" using floor_mono [OF assms] by linarith
  then show ?thesis by (auto simp: round_half_even_def Let_def)
qed

definition fl_pos :: "rat \<Rightarrow> rat" where
  "fl_pos x = (let u = pow2 (ilog2 x - 52) in of_int (round_half_even (x / u)) * u)"

definition fl :: "rat \<Rightarrow> rat" where
  "fl x = (if x = 0 then 0 else if 0 < x then fl_pos x else - fl_pos (- x))"

lemma pow2_52: "pow2 52 = of_int (2 ^ 52)" "pow2 53 = of_int (2 ^ 53)"
  by (simp_all add: pow2_def)

lemma fl_pos_range:
  assumes "0 < x"
  shows "pow2 (ilog2 x) \<le> fl_pos x \<and> fl_pos x \<le> pow2 (ilog2 x + 1)"
proof -
  let ?e = "ilog2 x" and ?u = "pow2 (ilog2 x - 52)"
  have b: "pow2 ?e \<le> x" "x < pow2 (?e + 1)" using ilog2_bounds [OF assms] by auto
  have p: "pow2 ?e = of_int (2 ^ 52) * ?u" "pow2 (?e + 1) = of_int (2 ^ 53) * ?u"
    using pow2_add [of 52 "?e - 52"] pow2_add [of 53 "?e - 52"] pow2_52 by (simp_all add: add.commute)
  have "of_int (2 ^ 52) \<le> x / ?u" using b(1) p(1) by (simp add: pos_le_divide_eq)
  then have lo: "2 ^ 52 \<le> round_half_even (x / ?u)"
    using round_half_even_mono [of "of_int (2 ^ 52)" "x / ?u"] by (simp only: round_half_even_of_int)
  have "x / ?u \<le> of_int (2 ^ 53)" using b(2) p(2) by (simp add: pos_divide_le_eq)
  then have hi: "round_half_even (x / ?u) \<le> 2 ^ 53"
    using round_half_even_mono [of "x / ?u" "of_int (2 ^ 53)"] by (simp only: round_half_even_of_int)
  have "of_int (2 ^ 52) * ?u \<le> of_int (round_half_even (x / ?u)) * ?u"
    using lo of_int_le_iff [of "2 ^ 52" "round_half_even (x / ?u)", where ?'a = rat]
    by (intro mult_right_mono) (auto simp: less_imp_le)
  moreover have "of_int (round_half_even (x / ?u)) * ?u \<le> of_int (2 ^ 53) * ?u"
    using hi of_int_le_iff [of "round_half_even (x / ?u)" "2 ^ 53", where ?'a = rat]
    by (intro mult_right_mono) (auto simp: less_imp_le)
  ultimately show ?thesis using p by (simp add: fl_pos_def Let_def)
qed

lemma fl_pos_mono:
  assumes "0 < x" "x \<le> y" shows "fl_pos x \<le> fl_pos y"
proof (cases "ilog2 x = ilog2 y")
  case True
  have "x / pow2 (ilog2 y - 52) \<le> y / pow2 (ilog2 y - 52)"
    using assms(2) by (simp add: divide_right_mono less_imp_le)
  then show ?thesis
    unfolding fl_pos_def Let_def True
    by (intro mult_right_mono) (simp_all add: round_half_even_mono less_imp_le)
next
  case False
  then have "ilog2 x + 1 \<le> ilog2 y" using ilog2_mono [OF assms] by linarith
  then have "pow2 (ilog2 x + 1) \<le> pow2 (ilog2 y)" by (rule pow2_mono)
  then show ?thesis using fl_pos_range [of x] fl_pos_range [of y] assms by force
qed

lemma fl_pos_pos: "0 < x \<Longrightarrow> 0 < fl_pos x"
  using fl_pos_range [of x] pow2_pos [of "ilog2 x"] by linarith

lemma fl_mono: "x \<le> y \<Longrightarrow> fl x \<le> fl y"
  using fl_pos_mono [of x y] fl_pos_mono [of "- y" "- x"] fl_pos_pos [of y] fl_pos_pos [of "- x"]
  by (force simp: fl_def)

lemma fl_nonneg: "0 \<le> x \<Longrightarrow> 0 \<le> fl x"
  using fl_mono [of 0 x] by (simp add: fl_def)

lemma fl_pos_iff: "0 < x \<Longrightarrow> 0 < fl x"
  by (simp add: fl_def fl_pos_pos)

lemma fl_0 [simp]: "fl 0 = 0"
  by (simp add: fl_def)

definition fadd :: "rat \<Rightarrow> rat \<Rightarrow> rat" where
  "fadd x y = fl (x + y)"

definition fmul :: "rat \<Rightarrow> rat \<Rightarrow> rat" where
  "fmul x y = fl (x * y)"

lemma fadd_mono: "a \<le> b \<Longrightarrow> c \<le> d \<Longrightarrow> fadd a c \<le> fadd b d"
  by (simp add: fadd_def fl_mono add_mono)

lemma fmul_mono: "0 \<le> a \<Longrightarrow> a \<le> b \<Longrightarrow> 0 \<le> c \<Longrightarrow> c \<le> d \<Longrightarrow> fmul a c \<le> fmul b d"
  by (simp add: fmul_def fl_mono mult_mono)

lemma fadd_nonneg: "0 \<le> a \<Longrightarrow> 0 \<le> b \<Longrightarrow> 0 \<le> fadd a b"
  by (simp add: fadd_def fl_nonneg)

lemma fmul_nonneg: "0 \<le> a \<Longrightarrow> 0 \<le> b \<Longrightarrow> 0 \<le> fmul a b"
  by (simp add: fmul_def fl_nonneg)

subsection \<open>Infinities, NaN and comparison\<close>

datatype pyfloat = Fin rat | PInf | NInf | NaN

fun pf_lt :: "pyfloat \<Rightarrow> pyfloat \<Rightarrow> bool" where
  "pf_lt NaN _ = False"
| "pf_lt _ NaN = False"
| "pf_lt (Fin a) (Fin b) = (a < b)"
| "pf_lt (Fin _) PInf = True"
| "pf_lt (Fin _) NInf = False"
| "pf_lt NInf NInf = False"
| "pf_lt NInf _ = True"
| "pf_lt PInf _ = False"

text \<open>What \<open>Field(ge=0, le=1, allow_inf_nan=False)\<close> accepts.\<close>

fun in_unit :: "pyfloat \<Rightarrow> bool" where
  "in_unit (Fin a) = (0 \<le> a \<and> a \<le> 1)"
| "in_unit _ = False"

end
