(* ===== verification/Json.thy ===== *)
theory Json
  imports Py_Float
begin

section \<open>JSON values and their canonical text\<close>

text \<open>
  JSON values as the program passes them around (\<open>dict[str, Any]\<close>, \<open>JsonValue\<close>), and the text
  \<open>json.dumps(value, sort_keys=True, separators=(",", ":"))\<close> that the action digest is taken of.
  The main result is \<open>dumps_inj\<close>: two values with the same canonical text are the same value up
  to the order of object members. \<open>float.__repr__\<close> is the parameter \<open>frepr\<close>;
  \<open>float_text_ok\<close> states what the argument needs of it (different floats have different
  texts, and no such text is an integer, a keyword or holds JSON punctuation).
\<close>

datatype json =
    JNull
  | JBool bool
  | JInt int
  | JFloat pyfloat
  | JStr str
  | JList "json list"
  | JObj "(str \<times> json) list"

subsection \<open>Reading a value\<close>

text \<open>\<open>dict.get\<close> on the members (a Python dict has each key once).\<close>

definition obj_get :: "(str \<times> json) list \<Rightarrow> str \<Rightarrow> json option" where
  "obj_get kvs k = map_of kvs k"

text \<open>Python truth of a value.\<close>

fun truthy :: "json \<Rightarrow> bool" where
  "truthy JNull = False"
| "truthy (JBool b) = b"
| "truthy (JInt i) = (i \<noteq> 0)"
| "truthy (JFloat f) = (f \<noteq> Fin 0)"
| "truthy (JStr s) = (s \<noteq> [])"
| "truthy (JList xs) = (xs \<noteq> [])"
| "truthy (JObj kvs) = (kvs \<noteq> [])"

subsection \<open>The canonical text\<close>

definition hex_digit :: "nat \<Rightarrow> char" where
  "hex_digit n = (if n < 10 then char_of (48 + n) else char_of (87 + n))"

text \<open>
  \<open>ensure_ascii\<close> escapes the quote, the backslash and everything outside the printable
  ASCII range.
\<close>

definition esc_char :: "char \<Rightarrow> str" where
  "esc_char c =
     (if c = CHR 0x22 then [CHR 0x5C, CHR 0x22]
      else if c = CHR 0x5C then [CHR 0x5C, CHR 0x5C]
      else if c = CHR 0x0A then [CHR 0x5C, CHR ''n'']
      else if c = CHR 0x0D then [CHR 0x5C, CHR ''r'']
      else if c = CHR 0x09 then [CHR 0x5C, CHR ''t'']
      else if c = CHR 0x0C then [CHR 0x5C, CHR ''f'']
      else if c = CHR 0x08 then [CHR 0x5C, CHR ''b'']
      else if of_char c < (32::nat) \<or> of_char c > (126::nat)
        then [CHR 0x5C, CHR ''u'', CHR ''0'', CHR ''0'', hex_digit (of_char c div 16), hex_digit (of_char c mod 16)]
      else [c])"

definition esc :: "str \<Rightarrow> str" where
  "esc s = concat (map esc_char s)"

definition quote :: "str \<Rightarrow> str" where
  "quote s = CHR 0x22 # esc s @ [CHR 0x22]"

fun pr :: "(pyfloat \<Rightarrow> str) \<Rightarrow> json \<Rightarrow> str"
  and pr_items :: "(pyfloat \<Rightarrow> str) \<Rightarrow> json list \<Rightarrow> str"
  and pr_members :: "(pyfloat \<Rightarrow> str) \<Rightarrow> (str \<times> json) list \<Rightarrow> str" where
  "pr fr JNull = ''null''"
| "pr fr (JBool b) = (if b then ''true'' else ''false'')"
| "pr fr (JInt i) = str_int i"
| "pr fr (JFloat f) = fr f"
| "pr fr (JStr s) = quote s"
| "pr fr (JList xs) = CHR ''['' # pr_items fr xs @ '']''"
| "pr fr (JObj kvs) = CHR ''{'' # pr_members fr kvs @ ''}''"
| "pr_items fr [] = []"
| "pr_items fr (x # xs) = pr fr x @ (if xs = [] then [] else CHR '','' # pr_items fr xs)"
| "pr_members fr [] = []"
| "pr_members fr (kv # kvs) = quote (fst kv) @ CHR '':'' # pr fr (snd kv) @
     (if kvs = [] then [] else CHR '','' # pr_members fr kvs)"

text \<open>\<open>sort_keys=True\<close> orders the members of every object by their key.\<close>

fun canon :: "json \<Rightarrow> json" where
  "canon (JList xs) = JList (map canon xs)"
| "canon (JObj kvs) = JObj (sort_key fst (map (\<lambda>kv. (fst kv, canon (snd kv))) kvs))"
| "canon v = v"

definition dumps :: "(pyfloat \<Rightarrow> str) \<Rightarrow> json \<Rightarrow> str" where
  "dumps fr v = pr fr (canon v)"

subsection \<open>Integers: different numbers have different texts\<close>

definition digit_val :: "char \<Rightarrow> nat" where
  "digit_val c = of_char c - 48"

definition undigits :: "str \<Rightarrow> nat" where
  "undigits s = foldl (\<lambda>a c. 10 * a + digit_val c) 0 s"

lemma digit_val_char: "(n::nat) < 10 \<Longrightarrow> digit_val (char_of (48 + n)) = n"
  by (simp add: digit_val_def of_char_of)

lemma undigits_digits [simp]: "undigits (digits_of n) = n"
proof (induction n rule: digits_of.induct)
  case (1 n)
  show ?case
  proof (cases "n < 10")
    case True
    then show ?thesis by (simp add: digits_of.simps [of n] undigits_def digit_val_char)
  next
    case False
    then have "undigits (digits_of (n div 10)) = n div 10" using "1.IH" by simp
    then show ?thesis
      using False by (simp add: digits_of.simps [of n] undigits_def digit_val_char)
  qed
qed

lemma digits_of_inj: "digits_of m = digits_of n \<Longrightarrow> m = n"
  by (metis undigits_digits)

definition digit_chars :: "char set" where
  "digit_chars = {c. CHR ''0'' \<le> c \<and> c \<le> CHR ''9''}"

lemma char_of_digit: "(n::nat) < 10 \<Longrightarrow> char_of (48 + n) \<in> digit_chars"
  by (simp add: digit_chars_def less_eq_char_def of_char_of)

lemma digits_of_digits: "set (digits_of n) \<subseteq> digit_chars"
proof (induction n rule: digits_of.induct)
  case (1 n)
  then show ?case
    by (cases "n < 10") (simp_all add: digits_of.simps [of n] char_of_digit)
qed

lemma digits_of_nonempty: "digits_of n \<noteq> []"
  by (simp add: digits_of.simps)

lemma minus_not_digit: "CHR ''-'' \<notin> digit_chars"
  by (simp add: digit_chars_def less_eq_char_def)

lemma digits_no_minus: "digits_of n \<noteq> CHR ''-'' # s"
  using digits_of_digits [of n] minus_not_digit by (metis list.set_intros(1) subsetD)

lemma str_int_inj: "str_int i = str_int j \<Longrightarrow> i = j"
  by (auto simp: str_int_def digits_no_minus digits_no_minus [symmetric] dest: digits_of_inj
      split: if_splits)

lemma str_int_chars: "set (str_int i) \<subseteq> insert (CHR ''-'') digit_chars"
  using digits_of_digits by (auto simp: str_int_def split: if_splits)

lemma str_int_nonempty: "str_int i \<noteq> []"
  by (simp add: str_int_def digits_of_nonempty)

subsection \<open>Strings: an escaped character is read back\<close>

definition hex_val :: "char \<Rightarrow> nat" where
  "hex_val c = (if of_char c < (58::nat) then of_char c - 48 else of_char c - 87)"

fun unesc1 :: "str \<Rightarrow> (char \<times> str) option" where
  "unesc1 [] = None"
| "unesc1 [c] = Some (c, [])"
| "unesc1 (c # k # s) =
     (if c \<noteq> CHR 0x5C then Some (c, k # s)
      else if k = CHR ''n'' then Some (CHR 0x0A, s)
      else if k = CHR ''r'' then Some (CHR 0x0D, s)
      else if k = CHR ''t'' then Some (CHR 0x09, s)
      else if k = CHR ''f'' then Some (CHR 0x0C, s)
      else if k = CHR ''b'' then Some (CHR 0x08, s)
      else if k = CHR ''u'' then
        (case s of _ # _ # a # b # t \<Rightarrow> Some (char_of (16 * hex_val a + hex_val b), t) | _ \<Rightarrow> None)
      else Some (k, s))"

lemma hex_val_digit: "n < 16 \<Longrightarrow> hex_val (hex_digit n) = n"
  by (auto simp: hex_val_def hex_digit_def of_char_of)

lemma char_hex: "16 * (of_char c div 16) + of_char c mod 16 = (of_char c :: nat)"
  by simp

lemma of_char_div16: "of_char c div (16::nat) < 16"
proof -
  have "of_char c < (256::nat)" by simp
  then show ?thesis by (simp add: div_less_iff_less_mult)
qed

lemma unesc1_plain: "c \<noteq> CHR 0x5C \<Longrightarrow> unesc1 (c # s) = Some (c, s)"
  by (cases s) simp_all

lemma unesc1_esc_char: "unesc1 (esc_char c @ s) = Some (c, s)"
  by (simp add: esc_char_def unesc1_plain hex_val_digit of_char_div16)

lemma esc_char_no_quote: "esc_char c @ s \<noteq> CHR 0x22 # t"
  by (auto simp: esc_char_def)

lemma esc_char_unique: "esc_char c @ s = esc_char d @ t \<Longrightarrow> c = d \<and> s = t"
  by (metis unesc1_esc_char option.inject prod.inject)

lemma esc_Nil [simp]: "esc [] = []"
  by (simp add: esc_def)

lemma esc_Cons [simp]: "esc (c # s) = esc_char c @ esc s"
  by (simp add: esc_def)

lemma esc_unique:
  "esc s @ CHR 0x22 # r = esc t @ CHR 0x22 # u \<Longrightarrow> s = t \<and> r = u"
proof (induction s arbitrary: t)
  case Nil
  then show ?case by (cases t) (auto simp: esc_char_no_quote esc_char_no_quote [symmetric])
next
  case (Cons c s)
  show ?case
  proof (cases t)
    case Nil
    then show ?thesis using Cons.prems esc_char_no_quote by (metis append_Nil append_assoc esc_Cons esc_Nil)
  next
    case (Cons d t')
    then have "esc_char c @ (esc s @ CHR 0x22 # r) = esc_char d @ (esc t' @ CHR 0x22 # u)"
      using Cons.prems by simp
    then have "c = d" "esc s @ CHR 0x22 # r = esc t' @ CHR 0x22 # u"
      using esc_char_unique by blast+
    then show ?thesis using Cons.IH Cons by blast
  qed
qed

lemma quote_unique: "quote s @ r = quote t @ u \<Longrightarrow> s = t \<and> r = u"
  by (auto simp: quote_def dest: esc_unique)

subsection \<open>The text of a value determines the value\<close>

definition puncts :: "char set" where
  "puncts = {CHR '','', CHR '']'', CHR ''}'', CHR 0x22, CHR ''['', CHR ''{''}"

definition closers :: "char set" where
  "closers = {CHR '','', CHR '']'', CHR ''}''}"

definition stops :: "str \<Rightarrow> bool" where
  "stops r \<longleftrightarrow> r = [] \<or> hd r \<in> closers"

definition float_text_ok :: "(pyfloat \<Rightarrow> str) \<Rightarrow> bool" where
  "float_text_ok fr \<longleftrightarrow> inj fr \<and>
     (\<forall>f. fr f \<noteq> [] \<and> set (fr f) \<inter> puncts = {} \<and> fr f \<notin> {''null'', ''true'', ''false''} \<and>
          (\<forall>i. fr f \<noteq> str_int i))"

fun scalar :: "json \<Rightarrow> bool" where
  "scalar (JStr _) = False"
| "scalar (JList _) = False"
| "scalar (JObj _) = False"
| "scalar _ = True"

lemma digit_not_punct: "insert (CHR ''-'') digit_chars \<inter> puncts = {}"
  by (auto simp: digit_chars_def puncts_def less_eq_char_def)

lemma str_int_no_punct: "set (str_int i) \<inter> puncts = {}"
  using str_int_chars digit_not_punct by blast

lemma str_int_not_word: "c \<notin> insert (CHR ''-'') digit_chars \<Longrightarrow> str_int i \<noteq> c # s"
  using str_int_chars [of i] by auto

lemma letters_not_digit:
  "CHR ''n'' \<notin> insert (CHR ''-'') digit_chars" "CHR ''t'' \<notin> insert (CHR ''-'') digit_chars"
  "CHR ''f'' \<notin> insert (CHR ''-'') digit_chars"
  by (simp_all add: digit_chars_def less_eq_char_def)

lemmas str_int_not_kw = letters_not_digit [THEN str_int_not_word]

lemma scalar_token:
  assumes "float_text_ok fr" "scalar v"
  shows "pr fr v \<noteq> [] \<and> set (pr fr v) \<inter> puncts = {}"
  using assms
proof (cases v)
  case (JInt i)
  then show ?thesis by (simp add: str_int_nonempty str_int_no_punct)
qed (simp_all add: float_text_ok_def puncts_def)

lemma scalar_inj:
  assumes "float_text_ok fr" "scalar v" "scalar w" "pr fr v = pr fr w"
  shows "v = w"
  using assms
  by (cases v; cases w)
     (auto simp: float_text_ok_def str_int_not_kw str_int_not_kw [symmetric]
       dest: str_int_inj injD split: if_splits, (metis str_int_not_kw)+)

lemma closers_puncts: "closers \<subseteq> puncts"
  by (auto simp: closers_def puncts_def)

lemma takeWhile_token:
  "set a \<inter> closers = {} \<Longrightarrow> stops r \<Longrightarrow> takeWhile (\<lambda>c. c \<notin> closers) (a @ r) = a"
proof (induction a)
  case Nil
  then show ?case by (cases r) (auto simp: stops_def)
qed auto

lemma token_unique:
  assumes "set a \<inter> puncts = {}" "set b \<inter> puncts = {}" "stops r" "stops s" "a @ r = b @ s"
  shows "a = b \<and> r = s"
proof -
  have "set a \<inter> closers = {}" "set b \<inter> closers = {}"
    using assms(1,2) closers_puncts by blast+
  then have "a = b"
    using assms(3-5) takeWhile_token [of a r] takeWhile_token [of b s] by simp
  then show ?thesis using assms(5) by simp
qed

text \<open>A text starts with a character that neither closes nor separates.\<close>

lemma pr_start:
  assumes "float_text_ok fr"
  obtains c cs where "pr fr v = c # cs" "c \<notin> closers"
proof (cases "scalar v")
  case True
  then show ?thesis
    using scalar_token [OF assms True] closers_puncts that by (cases "pr fr v") auto
next
  case False
  then show ?thesis using that by (cases v) (auto simp: quote_def closers_def)
qed

lemma scalar_vs_other:
  assumes "float_text_ok fr" "scalar v" "\<not> scalar w"
  shows "pr fr v @ r \<noteq> pr fr w @ s"
proof -
  obtain c cs where c: "pr fr v = c # cs" "c \<notin> puncts"
    using scalar_token [OF assms(1,2)] by (cases "pr fr v") auto
  then show ?thesis using assms(3) by (cases w) (auto simp: quote_def puncts_def)
qed

lemma stops_rest: "stops (if b then CHR '']'' # r else CHR '','' # t)" "stops (CHR '']'' # r)"
  "stops (if b then CHR ''}'' # r else CHR '','' # t)" "stops (CHR ''}'' # r)"
  by (auto simp: stops_def closers_def)

text \<open>
  The three mutually recursive statements. A text is read up to a separator or a closing bracket,
  so what follows it (\<open>r\<close> and \<open>s\<close>) is generalised.
\<close>

definition reads :: "(pyfloat \<Rightarrow> str) \<Rightarrow> json \<Rightarrow> bool" where
  "reads fr v \<longleftrightarrow> (\<forall>w r s. stops r \<longrightarrow> stops s \<longrightarrow> pr fr v @ r = pr fr w @ s \<longrightarrow> v = w \<and> r = s)"

definition reads_items :: "(pyfloat \<Rightarrow> str) \<Rightarrow> json list \<Rightarrow> bool" where
  "reads_items fr xs \<longleftrightarrow> (\<forall>ys r s. pr_items fr xs @ CHR '']'' # r = pr_items fr ys @ CHR '']'' # s
     \<longrightarrow> xs = ys \<and> r = s)"

definition reads_members :: "(pyfloat \<Rightarrow> str) \<Rightarrow> (str \<times> json) list \<Rightarrow> bool" where
  "reads_members fr ks \<longleftrightarrow> (\<forall>ls r s. pr_members fr ks @ CHR ''}'' # r = pr_members fr ls @ CHR ''}'' # s
     \<longrightarrow> ks = ls \<and> r = s)"

lemma readsD: "reads fr v \<Longrightarrow> pr fr v @ r = pr fr w @ s \<Longrightarrow> stops r \<Longrightarrow> stops s \<Longrightarrow> v = w \<and> r = s"
  by (simp add: reads_def)

lemma reads_itemsD:
  "reads_items fr xs \<Longrightarrow> pr_items fr xs @ CHR '']'' # r = pr_items fr ys @ CHR '']'' # s \<Longrightarrow> xs = ys \<and> r = s"
  unfolding reads_items_def by blast

lemma reads_membersD:
  "reads_members fr ks \<Longrightarrow> pr_members fr ks @ CHR ''}'' # r = pr_members fr ls @ CHR ''}'' # s \<Longrightarrow> ks = ls \<and> r = s"
  unfolding reads_members_def by blast

lemma reads_scalar:
  assumes "float_text_ok fr" "scalar v"
  shows "reads fr v"
  unfolding reads_def
proof (intro allI impI)
  fix w r s assume h: "stops r" "stops s" "pr fr v @ r = pr fr w @ s"
  have w: "scalar w" using scalar_vs_other [OF assms] h(3) by blast
  then have "pr fr v = pr fr w \<and> r = s"
    using token_unique [OF _ _ h] scalar_token [OF assms] scalar_token [OF assms(1) w] by blast
  then show "v = w \<and> r = s" using scalar_inj [OF assms w] by blast
qed

lemma reads_string:
  assumes "float_text_ok fr" shows "reads fr (JStr t)"
  unfolding reads_def
proof (intro allI impI)
  fix w r s assume h: "pr fr (JStr t) @ r = pr fr w @ s"
  then have "\<not> scalar w" using scalar_vs_other [OF assms, of w "JStr t" s r] by auto
  then show "JStr t = w \<and> r = s"
    using h by (cases w) (auto simp: quote_def dest: esc_unique)
qed

lemma reads_list:
  assumes "float_text_ok fr" "reads_items fr xs" shows "reads fr (JList xs)"
  unfolding reads_def
proof (intro allI impI)
  fix w r s assume h: "pr fr (JList xs) @ r = pr fr w @ s"
  then have "\<not> scalar w" using scalar_vs_other [OF assms(1), of w "JList xs" s r] by auto
  then show "JList xs = w \<and> r = s"
    using h by (cases w) (auto simp: quote_def dest: reads_itemsD [OF assms(2)])
qed

lemma reads_object:
  assumes "float_text_ok fr" "reads_members fr ks" shows "reads fr (JObj ks)"
  unfolding reads_def
proof (intro allI impI)
  fix w r s assume h: "pr fr (JObj ks) @ r = pr fr w @ s"
  then have "\<not> scalar w" using scalar_vs_other [OF assms(1), of w "JObj ks" s r] by auto
  then show "JObj ks = w \<and> r = s"
    using h by (cases w) (auto simp: quote_def dest: reads_membersD [OF assms(2)])
qed

lemma reads_items_Nil:
  assumes "float_text_ok fr" shows "reads_items fr []"
  unfolding reads_items_def
proof (intro allI impI)
  fix ys r s assume h: "pr_items fr [] @ CHR '']'' # r = pr_items fr ys @ CHR '']'' # s"
  show "[] = ys \<and> r = s"
  proof (cases ys)
    case (Cons y ys')
    obtain c cs where "pr fr y = c # cs" "c \<notin> closers" using pr_start [OF assms] .
    then show ?thesis using h Cons by (simp add: closers_def)
  qed (use h in simp)
qed

lemma reads_items_Cons:
  assumes "float_text_ok fr" "reads fr x" "reads_items fr xs"
  shows "reads_items fr (x # xs)"
  unfolding reads_items_def
proof (intro allI impI)
  fix ys r s assume h: "pr_items fr (x # xs) @ CHR '']'' # r = pr_items fr ys @ CHR '']'' # s"
  show "x # xs = ys \<and> r = s"
  proof (cases ys)
    case Nil
    obtain c cs where "pr fr x = c # cs" "c \<notin> closers" using pr_start [OF assms(1)] .
    then show ?thesis using h Nil by (simp add: closers_def)
  next
    case (Cons y ys')
    let ?t = "\<lambda>zs q. if zs = [] then CHR '']'' # q else CHR '','' # pr_items fr zs @ CHR '']'' # q"
    have "pr fr x @ ?t xs r = pr fr y @ ?t ys' s" using h Cons by (auto split: if_splits)
    then have "x = y" "?t xs r = ?t ys' s"
      using readsD [OF assms(2)] stops_rest(1) by blast+
    then show ?thesis
      using Cons by (cases "xs = []"; cases "ys' = []") (auto dest: reads_itemsD [OF assms(3)])
  qed
qed

lemma reads_members_Nil: "reads_members fr []"
  unfolding reads_members_def
proof (intro allI impI)
  fix ls r s assume h: "pr_members fr [] @ CHR ''}'' # r = pr_members fr ls @ CHR ''}'' # s"
  then show "[] = ls \<and> r = s" by (cases ls) (auto simp: quote_def)
qed

lemma reads_members_Cons:
  assumes "reads fr (snd kv)" "reads_members fr ks"
  shows "reads_members fr (kv # ks)"
  unfolding reads_members_def
proof (intro allI impI)
  fix ls r s assume h: "pr_members fr (kv # ks) @ CHR ''}'' # r = pr_members fr ls @ CHR ''}'' # s"
  show "kv # ks = ls \<and> r = s"
  proof (cases ls)
    case Nil
    then show ?thesis using h by (auto simp: quote_def)
  next
    case (Cons l ls')
    let ?t = "\<lambda>zs q. if zs = [] then CHR ''}'' # q else CHR '','' # pr_members fr zs @ CHR ''}'' # q"
    have "quote (fst kv) @ (CHR '':'' # pr fr (snd kv) @ ?t ks r) = quote (fst l) @ (CHR '':'' # pr fr (snd l) @ ?t ls' s)"
      using h Cons by (auto split: if_splits)
    then have "fst kv = fst l" "pr fr (snd kv) @ ?t ks r = pr fr (snd l) @ ?t ls' s"
      using quote_unique by blast+
    moreover from this(2) have "snd kv = snd l" "?t ks r = ?t ls' s"
      using readsD [OF assms(1)] stops_rest(3) by blast+
    moreover from \<open>?t ks r = ?t ls' s\<close> have "ks = ls' \<and> r = s"
      by (cases "ks = []"; cases "ls' = []") (auto dest: reads_membersD [OF assms(2)])
    ultimately show ?thesis using Cons by (simp add: prod_eq_iff)
  qed
qed

lemma reads_all:
  assumes ok: "float_text_ok fr"
  shows "reads fr v"
proof (induction v)
  case (JList xs)
  have "reads_items fr xs"
    using JList by (induction xs) (simp_all add: reads_items_Nil reads_items_Cons ok)
  then show ?case by (rule reads_list [OF ok])
next
  case (JObj ks)
  have "\<forall>kv \<in> set ks. reads fr (snd kv)" using JObj by (auto simp: prod_set_simps)
  then have "reads_members fr ks"
    by (induction ks) (simp_all add: reads_members_Nil reads_members_Cons)
  then show ?case by (rule reads_object [OF ok])
qed (simp_all add: reads_scalar reads_string ok)

lemma pr_inj: "float_text_ok fr \<Longrightarrow> pr fr v = pr fr w \<Longrightarrow> v = w"
  using readsD [OF reads_all, of fr v "[]" w "[]"] by (simp add: stops_def)

lemma dumps_inj: "float_text_ok fr \<Longrightarrow> dumps fr v = dumps fr w \<Longrightarrow> canon v = canon w"
  unfolding dumps_def by (rule pr_inj)

end
