(* ===== verification/Enums.thy ===== *)
theory Enums
  imports Prelude
begin

section \<open>Enumerations\<close>

text \<open>
  The string enums of \<open>apps/api/app/models/enums.py\<close> as datatypes, the text each member has
  (the columns are VARCHAR, the JSON API shows the text) and the reading back of a text
  (\<open>Severity(text)\<close> raises ValueError on an unknown one). Severities are a linear order by
  \<open>SEVERITY_RANK\<close>.
\<close>

datatype incident_status =
    NEW | COLLECTING_EVIDENCE | ANALYZING | NEEDS_APPROVAL | APPROVED | REJECTED
  | EXECUTING | RESOLVED | COMPLETED | FAILED

definition TERMINAL_INCIDENT_STATUSES :: "incident_status list" where
  "TERMINAL_INCIDENT_STATUSES = [RESOLVED, COMPLETED, REJECTED, FAILED]"

datatype severity = LOW | MEDIUM | HIGH | CRITICAL

fun SEVERITY_RANK :: "severity \<Rightarrow> nat" where
  "SEVERITY_RANK LOW = 0"
| "SEVERITY_RANK MEDIUM = 1"
| "SEVERITY_RANK HIGH = 2"
| "SEVERITY_RANK CRITICAL = 3"

datatype deployment_status = Dep_SUCCEEDED | Dep_FAILED | Dep_ROLLED_BACK

datatype event_type =
    INCIDENT_CREATED | ALERT_CORRELATED | SEVERITY_ESCALATED | STATUS_CHANGED
  | DEPLOYMENT_RECORDED | AGENT_RUN_CREATED | EVIDENCE_COLLECTED | APPROVAL_REQUESTED
  | APPROVAL_DECIDED | REMEDIATION_EXECUTED

datatype run_status =
    Run_PENDING | Run_RUNNING | Run_COMPLETED | Run_FAILED | Run_INSUFFICIENT_EVIDENCE

datatype tool_status = Tool_SUCCEEDED | Tool_FAILED

datatype source_type = METRIC | LOG | DEPLOYMENT | RUNBOOK

datatype risk_level = Risk_LOW | Risk_MEDIUM | Risk_HIGH

datatype approval_status = Appr_PENDING | Appr_APPROVED | Appr_REJECTED

subsection \<open>The text of a member\<close>

fun incident_status_value :: "incident_status \<Rightarrow> str" where
  "incident_status_value NEW = ''new''"
| "incident_status_value COLLECTING_EVIDENCE = ''collecting_evidence''"
| "incident_status_value ANALYZING = ''analyzing''"
| "incident_status_value NEEDS_APPROVAL = ''needs_approval''"
| "incident_status_value APPROVED = ''approved''"
| "incident_status_value REJECTED = ''rejected''"
| "incident_status_value EXECUTING = ''executing''"
| "incident_status_value RESOLVED = ''resolved''"
| "incident_status_value COMPLETED = ''completed''"
| "incident_status_value FAILED = ''failed''"

fun severity_value :: "severity \<Rightarrow> str" where
  "severity_value LOW = ''low''"
| "severity_value MEDIUM = ''medium''"
| "severity_value HIGH = ''high''"
| "severity_value CRITICAL = ''critical''"

fun deployment_status_value :: "deployment_status \<Rightarrow> str" where
  "deployment_status_value Dep_SUCCEEDED = ''succeeded''"
| "deployment_status_value Dep_FAILED = ''failed''"
| "deployment_status_value Dep_ROLLED_BACK = ''rolled_back''"

fun source_type_value :: "source_type \<Rightarrow> str" where
  "source_type_value METRIC = ''metric''"
| "source_type_value LOG = ''log''"
| "source_type_value DEPLOYMENT = ''deployment''"
| "source_type_value RUNBOOK = ''runbook''"

fun risk_level_value :: "risk_level \<Rightarrow> str" where
  "risk_level_value Risk_LOW = ''low''"
| "risk_level_value Risk_MEDIUM = ''medium''"
| "risk_level_value Risk_HIGH = ''high''"

fun approval_status_value :: "approval_status \<Rightarrow> str" where
  "approval_status_value Appr_PENDING = ''pending''"
| "approval_status_value Appr_APPROVED = ''approved''"
| "approval_status_value Appr_REJECTED = ''rejected''"

subsection \<open>Reading a member\<close>

definition severity_of :: "str \<Rightarrow> exn + severity" where
  "severity_of s = (case List.find (\<lambda>v. severity_value v = s) [LOW, MEDIUM, HIGH, CRITICAL] of
     Some v \<Rightarrow> Inr v | None \<Rightarrow> Inl (ValueErr s))"

definition risk_level_of :: "str \<Rightarrow> exn + risk_level" where
  "risk_level_of s = (case List.find (\<lambda>v. risk_level_value v = s) [Risk_LOW, Risk_MEDIUM, Risk_HIGH] of
     Some v \<Rightarrow> Inr v | None \<Rightarrow> Inl (ValueErr s))"

lemma severity_of_value [simp]: "severity_of (severity_value v) = Inr v"
  by (cases v) (simp_all add: severity_of_def)

lemma risk_level_of_value [simp]: "risk_level_of (risk_level_value v) = Inr v"
  by (cases v) (simp_all add: risk_level_of_def)

subsection \<open>Severities are ordered by rank\<close>

lemma SEVERITY_RANK_inj: "SEVERITY_RANK a = SEVERITY_RANK b \<Longrightarrow> a = b"
  by (cases a; cases b) simp_all

instantiation severity :: linorder
begin

definition less_eq_severity :: "severity \<Rightarrow> severity \<Rightarrow> bool" where
  "less_eq_severity a b \<longleftrightarrow> SEVERITY_RANK a \<le> SEVERITY_RANK b"

definition less_severity :: "severity \<Rightarrow> severity \<Rightarrow> bool" where
  "less_severity a b \<longleftrightarrow> SEVERITY_RANK a < SEVERITY_RANK b"

instance
  by standard (auto simp: less_eq_severity_def less_severity_def SEVERITY_RANK_inj)

end

end
