(* ===== verification/Schemas.thy ===== *)
theory Schemas
  imports Enums Json
begin

section \<open>Request schemas\<close>

text \<open>
  The Pydantic models that guard the service layer: \<open>apps/api/app/schemas/alert.py\<close>,
  \<open>investigation.py\<close>, \<open>collection.py\<close>, \<open>analysis.py\<close> and \<open>orchestrator.py\<close>. A model is
  a record; its field constraints and validators are a predicate \<open>..._ok\<close>. Building a model
  whose predicate fails raises \<open>ValidationErr\<close>.

  A datetime is naive or aware: \<open>Aware t offset\<close> is the instant \<open>t\<close>, in microseconds since the
  epoch, as a clock that runs \<open>offset\<close> ahead of UTC shows it; \<open>utc\<close> has no offset. A naive one is
  read as UTC. \<open>datetime_min\<close> and \<open>datetime_max\<close> are Python's bounds, the years 1 and 9999: adding a
  timedelta computes on the local reading and raises OverflowError outside of them (\<open>shift\<close>).
\<close>

datatype datetime = Naive time | Aware time time

definition utc :: "time \<Rightarrow> datetime" where
  "utc t = Aware t 0"

fun as_utc :: "datetime \<Rightarrow> time" where
  "as_utc (Naive t) = t"
| "as_utc (Aware t _) = t"

fun local_of :: "datetime \<Rightarrow> time" where
  "local_of (Naive t) = t"
| "local_of (Aware t offset) = t + offset"

fun is_aware :: "datetime \<Rightarrow> bool" where
  "is_aware (Naive _) = False"
| "is_aware (Aware _ _) = True"

lemma utc_simps [simp]: "as_utc (utc t) = t" "is_aware (utc t)" "local_of (utc t) = t"
  by (simp_all add: utc_def)

definition seconds :: "int \<Rightarrow> time" where
  "seconds n = n * 1000000"

definition datetime_min :: time where
  "datetime_min = seconds (- 62135596800)"

definition datetime_max :: time where
  "datetime_max = seconds 253402300800 - 1"

definition in_range :: "time \<Rightarrow> bool" where
  "in_range t \<longleftrightarrow> datetime_min \<le> t \<and> t \<le> datetime_max"

definition shift :: "datetime \<Rightarrow> time \<Rightarrow> exn + time" where
  "shift t d = (if in_range (local_of t + d) then Inr (as_utc t + d) else Inl OverflowErr)"

definition len_between :: "nat \<Rightarrow> nat \<Rightarrow> str \<Rightarrow> bool" where
  "len_between a b s \<longleftrightarrow> a \<le> length s \<and> length s \<le> b"

definition opt_ok :: "('a \<Rightarrow> bool) \<Rightarrow> 'a option \<Rightarrow> bool" where
  "opt_ok p x = (case x of None \<Rightarrow> True | Some v \<Rightarrow> p v)"

subsection \<open>Alerts\<close>

record alert_request =
  ar_service_name :: str
  ar_alert_type :: str
  ar_severity :: severity
  ar_started_at :: datetime
  ar_labels :: "(str \<times> str) list"
  ar_observed_value :: "pyfloat option"
  ar_threshold :: "pyfloat option"
  ar_external_id :: "str option"

definition alert_request_ok :: "alert_request \<Rightarrow> bool" where
  "alert_request_ok p \<longleftrightarrow> len_between 1 128 (ar_service_name p) \<and> len_between 1 64 (ar_alert_type p) \<and>
     opt_ok (\<lambda>s. length s \<le> 128) (ar_external_id p)"

subsection \<open>Investigation records\<close>

text \<open>\<open>reject_blank_text\<close>: preserved exactly, but not blank.\<close>

definition not_blank :: "str \<Rightarrow> bool" where
  "not_blank s \<longleftrightarrow> strip s \<noteq> []"

lemma not_blank_start: "\<not> is_space c \<Longrightarrow> not_blank (c # s)"
  by (simp add: not_blank_def strip_def strip_by_def dropWhile_eq_Nil_conv)

text \<open>\<open>JsonValue\<close> under \<open>allow_inf_nan=False\<close>: no infinity and no NaN at any depth.\<close>

fun json_finite :: "json \<Rightarrow> bool" where
  "json_finite (JFloat f) = (case f of Fin _ \<Rightarrow> True | _ \<Rightarrow> False)"
| "json_finite (JList xs) = (\<forall>x \<in> set xs. json_finite x)"
| "json_finite (JObj kvs) = (\<forall>kv \<in> set kvs. json_finite (snd kv))"
| "json_finite _ = True"

definition obj_finite :: "(str \<times> json) list \<Rightarrow> bool" where
  "obj_finite kvs \<longleftrightarrow> (\<forall>kv \<in> set kvs. json_finite (snd kv))"

record run_create =
  rc_prompt_version :: str
  rc_provider :: "str option"
  rc_model_name :: "str option"

definition run_create_ok :: "run_create \<Rightarrow> bool" where
  "run_create_ok p \<longleftrightarrow> len_between 1 128 (rc_prompt_version p) \<and> not_blank (rc_prompt_version p) \<and>
     opt_ok (\<lambda>s. len_between 1 64 s \<and> not_blank s) (rc_provider p) \<and>
     opt_ok (\<lambda>s. len_between 1 128 s \<and> not_blank s) (rc_model_name p)"

record tool_create =
  tc_tool_name :: str
  tc_status :: tool_status
  tc_input :: "(str \<times> json) list"
  tc_output :: "(str \<times> json) list"
  tc_error :: "str option"
  tc_started :: time
  tc_finished :: time

definition tool_create_ok :: "tool_create \<Rightarrow> bool" where
  "tool_create_ok p \<longleftrightarrow> len_between 1 128 (tc_tool_name p) \<and> not_blank (tc_tool_name p) \<and>
     opt_ok (\<lambda>s. 1 \<le> length s \<and> not_blank s) (tc_error p) \<and>
     obj_finite (tc_input p) \<and> obj_finite (tc_output p) \<and>
     \<not> tc_finished p < tc_started p \<and>
     \<not> (tc_status p = Tool_FAILED \<and> (tc_error p = None \<or> tc_error p = Some [])) \<and>
     \<not> (tc_status p = Tool_SUCCEEDED \<and> tc_error p \<noteq> None)"

record evidence_create =
  ec_tool_call :: "uuid option"
  ec_source_type :: source_type
  ec_source_name :: str
  ec_query :: str
  ec_query_params :: "(str \<times> json) list"
  ec_summary :: str
  ec_raw_data :: "(str \<times> json) list"
  ec_range_start :: "time option"
  ec_range_end :: "time option"
  ec_collected :: time

definition time_range_ok :: "time option \<Rightarrow> time option \<Rightarrow> bool" where
  "time_range_ok a b = (case (a, b) of
     (None, None) \<Rightarrow> True
   | (Some s, Some e) \<Rightarrow> \<not> e < s
   | _ \<Rightarrow> False)"

definition evidence_create_ok :: "evidence_create \<Rightarrow> bool" where
  "evidence_create_ok p \<longleftrightarrow> len_between 1 128 (ec_source_name p) \<and> not_blank (ec_source_name p) \<and>
     1 \<le> length (ec_query p) \<and> not_blank (ec_query p) \<and>
     1 \<le> length (ec_summary p) \<and> not_blank (ec_summary p) \<and>
     obj_finite (ec_query_params p) \<and> obj_finite (ec_raw_data p) \<and>
     time_range_ok (ec_range_start p) (ec_range_end p)"

record hypothesis_create =
  hc_root_cause :: str
  hc_summary :: str
  hc_confidence :: pyfloat
  hc_evidence_ids :: "uuid list"

definition hypothesis_create_ok :: "hypothesis_create \<Rightarrow> bool" where
  "hypothesis_create_ok p \<longleftrightarrow> len_between 1 128 (hc_root_cause p) \<and> not_blank (hc_root_cause p) \<and>
     1 \<le> length (hc_summary p) \<and> not_blank (hc_summary p) \<and>
     in_unit (hc_confidence p) \<and> 1 \<le> length (hc_evidence_ids p)"

record recommendation_create =
  pc_hypothesis :: uuid
  pc_action_type :: str
  pc_parameters :: "(str \<times> json) list"
  pc_rationale :: str
  pc_risk_level :: risk_level

definition recommendation_create_ok :: "recommendation_create \<Rightarrow> bool" where
  "recommendation_create_ok p \<longleftrightarrow> len_between 1 128 (pc_action_type p) \<and> not_blank (pc_action_type p) \<and>
     1 \<le> length (pc_rationale p) \<and> not_blank (pc_rationale p) \<and> obj_finite (pc_parameters p)"

record approval_decision =
  ad_decision :: approval_status
  ad_decided_by :: str
  ad_reason :: "str option"

definition approval_decision_ok :: "approval_decision \<Rightarrow> bool" where
  "approval_decision_ok p \<longleftrightarrow> len_between 1 128 (ad_decided_by p) \<and>
     opt_ok (len_between 1 2000) (ad_reason p)"

subsection \<open>Collection, analysis and orchestration requests\<close>

record collect_request =
  cr_lookback_seconds :: int
  cr_end_at :: "time option"
  cr_step_seconds :: int
  cr_log_limit :: int

definition collect_request_ok :: "time \<Rightarrow> collect_request \<Rightarrow> bool" where
  "collect_request_ok now p \<longleftrightarrow>
     60 \<le> cr_lookback_seconds p \<and> cr_lookback_seconds p \<le> 86400 \<and>
     1 \<le> cr_step_seconds p \<and> cr_step_seconds p \<le> 300 \<and>
     1 \<le> cr_log_limit p \<and> cr_log_limit p \<le> 5000 \<and>
     opt_ok (\<lambda>e. \<not> now < e) (cr_end_at p)"

definition default_collect_request :: collect_request where
  "default_collect_request =
     \<lparr>cr_lookback_seconds = 300, cr_end_at = None, cr_step_seconds = 15, cr_log_limit = 100\<rparr>"

record analyze_request =
  an_agent_run :: "uuid option"
  an_min_confidence :: rat

definition analyze_request_ok :: "analyze_request \<Rightarrow> bool" where
  "analyze_request_ok p \<longleftrightarrow> 0 \<le> an_min_confidence p \<and> an_min_confidence p \<le> 1"

record investigate_request =
  iv_lookback_seconds :: int
  iv_step_seconds :: int
  iv_log_limit :: int
  iv_min_confidence :: rat
  iv_auto_request_approval :: bool

definition investigate_request_ok :: "investigate_request \<Rightarrow> bool" where
  "investigate_request_ok p \<longleftrightarrow>
     60 \<le> iv_lookback_seconds p \<and> iv_lookback_seconds p \<le> 86400 \<and>
     1 \<le> iv_step_seconds p \<and> iv_step_seconds p \<le> 300 \<and>
     1 \<le> iv_log_limit p \<and> iv_log_limit p \<le> 1000 \<and>
     0 \<le> iv_min_confidence p \<and> iv_min_confidence p \<le> 1"

lemma default_collect_request_ok: "collect_request_ok now default_collect_request"
  by (simp add: collect_request_ok_def default_collect_request_def opt_ok_def)

text \<open>Every investigate request becomes a valid collect request.\<close>

lemma investigate_collect_ok:
  "investigate_request_ok p \<Longrightarrow>
   collect_request_ok now \<lparr>cr_lookback_seconds = iv_lookback_seconds p, cr_end_at = None,
     cr_step_seconds = iv_step_seconds p, cr_log_limit = iv_log_limit p\<rparr>"
  by (simp add: investigate_request_ok_def collect_request_ok_def opt_ok_def)

end
