(* ===== verification/Runtime.thy ===== *)
theory Runtime
  imports Schemas
begin

section \<open>The runtime functions the program calls\<close>

text \<open>
  Functions of the Python runtime whose text the program stores, compares, hashes or reads:
  \<open>float.__repr__\<close>, \<open>UUID.__str__\<close>, \<open>datetime.isoformat\<close>, \<open>datetime.__str__\<close>, \<open>hashlib.sha256(...).hexdigest\<close>,
  the text httpx gives an error of \<open>raise_for_status\<close>, \<open>uuid.UUID(text)\<close> and \<open>json.loads\<close> (None is
  the exception they raise).
  They are the fields of \<open>pylib\<close>, an argument of every operation that uses one of them.
  \<open>pylib_ok\<close> is their documented behaviour: different floats, identifiers and instants have
  different texts, and an identifier reads back from its text. Nothing is assumed of SHA-256 or of
  \<open>json.loads\<close>. \<open>demo_pylib\<close> is one instance that satisfies it,
  for the concrete runs.
\<close>

record pylib =
  float_text :: "pyfloat \<Rightarrow> str"
  uuid_text :: "uuid \<Rightarrow> str"
  iso_text :: "datetime \<Rightarrow> str"
  datetime_text :: "datetime \<Rightarrow> str"
  sha256_hex :: "str \<Rightarrow> str"
  status_error_text :: "str \<Rightarrow> int \<Rightarrow> str"
  uuid_of_text :: "str \<Rightarrow> uuid option"
  json_loads :: "str \<Rightarrow> json option"

definition pylib_ok :: "pylib \<Rightarrow> bool" where
  "pylib_ok py \<longleftrightarrow> float_text_ok (float_text py) \<and> inj (uuid_text py) \<and> inj (iso_text py) \<and>
     (\<forall>u. uuid_of_text py (uuid_text py u) = Some u)"

subsection \<open>An instance\<close>

fun demo_float_text :: "pyfloat \<Rightarrow> str" where
  "demo_float_text (Fin q) = (case quotient_of q of (n, d) \<Rightarrow> str_int n @ ''.'' @ str_int d)"
| "demo_float_text PInf = ''inf''"
| "demo_float_text NInf = ''-inf''"
| "demo_float_text NaN = ''nan''"

fun demo_iso_text :: "datetime \<Rightarrow> str" where
  "demo_iso_text (Naive t) = str_int t"
| "demo_iso_text (Aware t offset) = str_int t @ CHR ''Z'' # str_int offset"

definition demo_pylib :: pylib where
  "demo_pylib = \<lparr>float_text = demo_float_text, uuid_text = str_nat, iso_text = demo_iso_text, datetime_text = demo_iso_text,
     sha256_hex = take 64, status_error_text = (\<lambda>url status. url @ '' '' @ str_int status),
     uuid_of_text = (\<lambda>s. if s = str_nat (undigits s) then Some (undigits s) else None), json_loads = (\<lambda>_. None)\<rparr>"

lemma dot_not_in_int: "CHR ''.'' \<notin> set (str_int i)"
  using str_int_chars [of i] by (auto simp: digit_chars_def less_eq_char_def)

lemma letters_not_in_int: "CHR ''n'' \<notin> set (str_int i)" "CHR ''Z'' \<notin> set (str_int i)"
  using str_int_chars [of i] by (auto simp: digit_chars_def less_eq_char_def)

lemma dotted_inj:
  assumes "str_int a @ CHR ''.'' # str_int b = str_int c @ CHR ''.'' # str_int d"
  shows "a = c \<and> b = d"
proof -
  have t: "takeWhile (\<lambda>x. x \<noteq> CHR ''.'') (str_int e @ CHR ''.'' # str_int f) = str_int e" for e f
  proof -
    have "\<forall>x \<in> set (str_int e). x \<noteq> CHR ''.''" using dot_not_in_int by metis
    then show ?thesis by (simp add: takeWhile_append2)
  qed
  have "str_int a = str_int c" using arg_cong [OF assms, of "takeWhile (\<lambda>x. x \<noteq> CHR ''.'')"] by (simp add: t)
  then show ?thesis using assms str_int_inj by auto
qed

lemma demo_float_text_finite: "CHR ''.'' \<in> set (demo_float_text (Fin q)) \<and> CHR ''n'' \<notin> set (demo_float_text (Fin q))"
  using letters_not_in_int by (cases "quotient_of q") auto

lemma demo_float_text_Fin: "demo_float_text (Fin p) = demo_float_text (Fin q) \<Longrightarrow> p = q"
  by (cases "quotient_of p"; cases "quotient_of q")
    (auto dest!: dotted_inj simp: quotient_of_inject)

lemma demo_float_text_inj: "inj demo_float_text"
proof (rule injI)
  fix x y assume h: "demo_float_text x = demo_float_text y"
  have d: "CHR ''.'' \<notin> set (demo_float_text PInf)" "CHR ''.'' \<notin> set (demo_float_text NInf)"
    "CHR ''.'' \<notin> set (demo_float_text NaN)" by auto
  show "x = y"
  proof (cases x)
    case (Fin p)
    then obtain q where "y = Fin q" using h d demo_float_text_finite by (cases y) metis+
    then show ?thesis using h Fin demo_float_text_Fin by simp
  next
    case PInf
    then show ?thesis using h d demo_float_text_finite by (cases y) (metis, simp_all)
  next
    case NInf
    then show ?thesis using h d demo_float_text_finite by (cases y) (metis, simp_all)
  next
    case NaN
    then show ?thesis using h d demo_float_text_finite by (cases y) (metis, simp_all)
  qed
qed

lemma demo_float_text_chars: "set (demo_float_text f) \<inter> puncts = {}"
proof (cases f)
  case (Fin q)
  then show ?thesis using str_int_no_punct by (cases "quotient_of q") (auto simp: puncts_def disjoint_iff)
qed (auto simp: puncts_def)

lemma demo_float_text_not_int: "demo_float_text f \<noteq> str_int i"
  using dot_not_in_int [of i] letters_not_in_int(1) [of i] demo_float_text_finite
  by (cases f) (metis, (metis demo_float_text.simps list.set_intros)+)

lemma demo_float_text_not_word: "demo_float_text f \<notin> {''null'', ''true'', ''false''}"
proof -
  have "CHR ''.'' \<notin> set ''null''" "CHR ''.'' \<notin> set ''true''" "CHR ''.'' \<notin> set ''false''" by auto
  then show ?thesis using demo_float_text_finite by (cases f) (metis insertE singletonD, auto)
qed

lemma demo_float_text_ok: "float_text_ok demo_float_text"
proof -
  have "demo_float_text f \<noteq> []" for f
    using demo_float_text_finite by (cases f) (metis list.set_cases list.distinct(1) empty_iff empty_set, auto)
  then show ?thesis
    using demo_float_text_inj demo_float_text_chars demo_float_text_not_int demo_float_text_not_word
    by (simp add: float_text_ok_def)
qed

lemma demo_iso_text_inj: "inj demo_iso_text"
proof (rule injI)
  fix x y assume h: "demo_iso_text x = demo_iso_text y"
  have z: "c \<noteq> CHR ''Z''" if "c \<in> set (str_int i)" for c i
    using that letters_not_in_int(2) [of i] by metis
  have t: "takeWhile (\<lambda>c. c \<noteq> CHR ''Z'') (str_int i @ CHR ''Z'' # r) = str_int i" for i r
    using z by (simp add: takeWhile_append2)
  have n: "str_int i \<noteq> str_int j @ CHR ''Z'' # r" for i j r
    using z [of "CHR ''Z''" i] by (metis UnCI list.set_intros(1) set_append)
  have eq: "i = j \<and> k = l" if "str_int i @ CHR ''Z'' # str_int k = str_int j @ CHR ''Z'' # str_int l" for i j k l
  proof -
    have "str_int i = str_int j" using arg_cong [OF that, of "takeWhile (\<lambda>c. c \<noteq> CHR ''Z'')"] by (simp add: t)
    then show ?thesis using that str_int_inj by auto
  qed
  show "x = y"
    using h by (cases x; cases y) (auto simp: n n [symmetric] dest: str_int_inj eq)
qed

lemma str_nat_inj: "inj str_nat"
  by (rule injI) (auto simp: str_nat_def dest: digits_of_inj)

lemma demo_pylib_ok: "pylib_ok demo_pylib"
  by (simp add: pylib_ok_def demo_pylib_def demo_float_text_ok str_nat_inj demo_iso_text_inj str_nat_def)

subsection \<open>Settings\<close>

text \<open>\<open>apps/api/app/core/config.py\<close>: the settings that the modelled code reads, with their defaults.\<close>

record settings =
  prometheus_url :: str
  loki_url :: str
  demo_service_url :: str
  connector_timeout_seconds :: rat
  connector_max_retries :: int
  correlation_window_seconds :: int
  prompt_version :: str
  llm_provider :: str
  llm_model :: str
  llm_api_key :: str
  llm_base_url :: str
  anthropic_api_key :: str
  openai_api_key :: str

definition default_settings :: settings where
  "default_settings = \<lparr>prometheus_url = ''http://localhost:9090'', loki_url = ''http://localhost:3100'',
     demo_service_url = ''http://localhost:8001'', connector_timeout_seconds = 5,
     connector_max_retries = 2, correlation_window_seconds = 300,
     prompt_version = ''incident-analysis-v1'', llm_provider = ''mock'', llm_model = ''mock-model'',
     llm_api_key = [], llm_base_url = [], anthropic_api_key = [], openai_api_key = []\<rparr>"

end
