(* ===== verification/Models.thy ===== *)
theory Models
  imports Runtime
begin

section \<open>The database: rows, tables, constraints\<close>

text \<open>
  The SQLAlchemy models of \<open>apps/api/app/models\<close>: one record per row, with the model's columns;
  \<open>db\<close> is the list of rows of every table in insertion order. \<open>db_ok\<close> is the schema: primary
  and unique keys, foreign keys (the composite ones over pairs of columns) and the CHECK
  constraints, one predicate per table. A flush that breaks one of them raises IntegrityError,
  so a write that keeps \<open>db_ok\<close> is a write that does not raise. The members of an enum column
  need no CHECK, their datatypes have no other value. The \<open>created_at\<close>/\<open>updated_at\<close> columns
  of \<open>TimestampMixin\<close> are left out; no code of the program reads them.
\<close>

subsection \<open>Rows\<close>

record service =
  sv_id :: uuid
  sv_name :: str
  sv_environment :: str
  sv_current_version :: "str option"
  sv_owner_team :: "str option"

record alert =
  al_id :: uuid
  al_external_id :: "str option"
  al_service :: uuid
  al_type :: str
  al_severity :: severity
  al_started_at :: datetime
  al_resolved_at :: "time option"
  al_raw_payload :: alert_request

record incident =
  inc_id :: uuid
  inc_service :: uuid
  inc_title :: str
  inc_description :: "str option"
  inc_severity :: severity
  inc_status :: incident_status
  inc_started_at :: datetime
  inc_resolved_at :: "time option"

record incident_alert =
  ia_incident :: uuid
  ia_alert :: uuid

record incident_event =
  ev_id :: uuid
  ev_incident :: uuid
  ev_type :: event_type
  ev_message :: str
  ev_metadata :: "(str \<times> json) list"
  ev_created_at :: time

record deployment_event =
  dp_id :: uuid
  dp_service :: uuid
  dp_version :: str
  dp_previous_version :: "str option"
  dp_commit_sha :: "str option"
  dp_deployed_by :: "str option"
  dp_status :: deployment_status
  dp_deployed_at :: time
  dp_metadata :: "(str \<times> json) list"

record agent_run =
  run_id :: uuid
  run_incident :: uuid
  run_status :: run_status
  run_provider :: "str option"
  run_model_name :: "str option"
  run_prompt_version :: str
  run_started_at :: "time option"
  run_finished_at :: "time option"
  run_input_tokens :: int
  run_output_tokens :: int
  run_error_message :: "str option"
  run_created_at :: time

record tool_call =
  call_id :: uuid
  call_run :: uuid
  call_tool_name :: str
  call_status :: tool_status
  call_input :: "(str \<times> json) list"
  call_output :: "(str \<times> json) list"
  call_error :: "str option"
  call_started_at :: time
  call_finished_at :: time

record evidence =
  evd_id :: uuid
  evd_incident :: uuid
  evd_run :: uuid
  evd_tool_call :: "uuid option"
  evd_source_type :: source_type
  evd_source_name :: str
  evd_query :: str
  evd_query_params :: "(str \<times> json) list"
  evd_summary :: str
  evd_raw_data :: "(str \<times> json) list"
  evd_range_start :: "time option"
  evd_range_end :: "time option"
  evd_collected_at :: time
  evd_created_at :: time

record hypothesis =
  hyp_id :: uuid
  hyp_run :: uuid
  hyp_root_cause :: str
  hyp_summary :: str
  hyp_confidence :: pyfloat

record hypothesis_evidence =
  he_hypothesis :: uuid
  he_evidence :: uuid
  he_run :: uuid

record recommendation =
  rec_id :: uuid
  rec_run :: uuid
  rec_hypothesis :: uuid
  rec_action_type :: str
  rec_parameters :: "(str \<times> json) list"
  rec_rationale :: str
  rec_risk_level :: risk_level
  rec_status :: str
  rec_requires_approval :: bool

record approval =
  ap_id :: uuid
  ap_recommendation :: uuid
  ap_run :: uuid
  ap_action_type :: str
  ap_parameters :: "(str \<times> json) list"
  ap_action_hash :: str
  ap_status :: approval_status
  ap_decided_by :: "str option"
  ap_decision_reason :: "str option"
  ap_expires_at :: datetime
  ap_decided_at :: "time option"
  ap_executed_at :: "time option"
  ap_execution_status :: "str option"
  ap_execution_error :: "str option"
  ap_created_at :: time

record db =
  services :: "service list"
  alerts :: "alert list"
  incidents :: "incident list"
  incident_alerts :: "incident_alert list"
  events :: "incident_event list"
  deployments :: "deployment_event list"
  runs :: "agent_run list"
  tool_calls :: "tool_call list"
  evidences :: "evidence list"
  hypotheses :: "hypothesis list"
  citations :: "hypothesis_evidence list"
  recommendations :: "recommendation list"
  approvals :: "approval list"

definition empty_db :: db where
  "empty_db = \<lparr>services = [], alerts = [], incidents = [], incident_alerts = [], events = [],
     deployments = [], runs = [], tool_calls = [], evidences = [], hypotheses = [],
     citations = [], recommendations = [], approvals = []\<rparr>"

definition ALLOWED_ACTIONS :: "str list" where
  "ALLOWED_ACTIONS = [''simulated_restart'', ''simulated_rollback'', ''simulated_scale'',
     ''create_incident_note'']"

subsection \<open>The schema's constraints\<close>

definition services_ok :: "service list \<Rightarrow> bool" where
  "services_ok t \<longleftrightarrow> distinct (map sv_id t) \<and> distinct (map sv_name t)"

definition external_ids :: "alert list \<Rightarrow> str list" where
  "external_ids t = List.map_filter al_external_id t"

definition alerts_ok :: "uuid set \<Rightarrow> alert list \<Rightarrow> bool" where
  "alerts_ok svs t \<longleftrightarrow> distinct (map al_id t) \<and> distinct (external_ids t) \<and>
     (\<forall>a \<in> set t. al_service a \<in> svs)"

definition incidents_ok :: "uuid set \<Rightarrow> incident list \<Rightarrow> bool" where
  "incidents_ok svs t \<longleftrightarrow> distinct (map inc_id t) \<and> (\<forall>i \<in> set t. inc_service i \<in> svs)"

definition incident_alerts_ok :: "uuid set \<Rightarrow> uuid set \<Rightarrow> incident_alert list \<Rightarrow> bool" where
  "incident_alerts_ok incs als t \<longleftrightarrow> distinct (map (\<lambda>l. (ia_incident l, ia_alert l)) t) \<and>
     (\<forall>l \<in> set t. ia_incident l \<in> incs \<and> ia_alert l \<in> als)"

definition events_ok :: "uuid set \<Rightarrow> incident_event list \<Rightarrow> bool" where
  "events_ok incs t \<longleftrightarrow> distinct (map ev_id t) \<and> (\<forall>e \<in> set t. ev_incident e \<in> incs)"

definition deployments_ok :: "uuid set \<Rightarrow> deployment_event list \<Rightarrow> bool" where
  "deployments_ok svs t \<longleftrightarrow> distinct (map dp_id t) \<and> (\<forall>d \<in> set t. dp_service d \<in> svs)"

definition run_ok :: "uuid set \<Rightarrow> agent_run \<Rightarrow> bool" where
  "run_ok incs r \<longleftrightarrow> run_incident r \<in> incs \<and> 0 \<le> run_input_tokens r \<and> 0 \<le> run_output_tokens r \<and>
     (case run_finished_at r of None \<Rightarrow> True
      | Some f \<Rightarrow> (case run_started_at r of None \<Rightarrow> False | Some s \<Rightarrow> s \<le> f))"

definition runs_ok :: "uuid set \<Rightarrow> agent_run list \<Rightarrow> bool" where
  "runs_ok incs t \<longleftrightarrow> distinct (map run_id t) \<and> (\<forall>r \<in> set t. run_ok incs r)"

definition call_ok :: "uuid set \<Rightarrow> tool_call \<Rightarrow> bool" where
  "call_ok rs c \<longleftrightarrow> call_run c \<in> rs \<and> call_started_at c \<le> call_finished_at c"

definition calls_ok :: "uuid set \<Rightarrow> tool_call list \<Rightarrow> bool" where
  "calls_ok rs t \<longleftrightarrow> distinct (map call_id t) \<and> (\<forall>c \<in> set t. call_ok rs c)"

definition evidence_ok :: "(uuid \<times> uuid) set \<Rightarrow> (uuid \<times> uuid) set \<Rightarrow> evidence \<Rightarrow> bool" where
  "evidence_ok ri cr e \<longleftrightarrow> (evd_run e, evd_incident e) \<in> ri \<and>
     opt_ok (\<lambda>c. (c, evd_run e) \<in> cr) (evd_tool_call e) \<and>
     time_range_ok (evd_range_start e) (evd_range_end e)"

definition evidences_ok :: "(uuid \<times> uuid) set \<Rightarrow> (uuid \<times> uuid) set \<Rightarrow> evidence list \<Rightarrow> bool" where
  "evidences_ok ri cr t \<longleftrightarrow> distinct (map evd_id t) \<and> (\<forall>e \<in> set t. evidence_ok ri cr e)"

definition hypotheses_ok :: "uuid set \<Rightarrow> hypothesis list \<Rightarrow> bool" where
  "hypotheses_ok rs t \<longleftrightarrow> distinct (map hyp_id t) \<and>
     (\<forall>h \<in> set t. hyp_run h \<in> rs \<and> in_unit (hyp_confidence h))"

definition citations_ok :: "(uuid \<times> uuid) set \<Rightarrow> (uuid \<times> uuid) set \<Rightarrow> hypothesis_evidence list \<Rightarrow> bool" where
  "citations_ok hr er t \<longleftrightarrow> distinct (map (\<lambda>c. (he_hypothesis c, he_evidence c)) t) \<and>
     (\<forall>c \<in> set t. (he_hypothesis c, he_run c) \<in> hr \<and> (he_evidence c, he_run c) \<in> er)"

definition recommendations_ok :: "(uuid \<times> uuid) set \<Rightarrow> recommendation list \<Rightarrow> bool" where
  "recommendations_ok hr t \<longleftrightarrow> distinct (map rec_id t) \<and>
     (\<forall>r \<in> set t. (rec_hypothesis r, rec_run r) \<in> hr \<and> rec_status r = ''proposed'' \<and>
        rec_requires_approval r)"

definition approvals_ok :: "uuid set \<Rightarrow> uuid set \<Rightarrow> approval list \<Rightarrow> bool" where
  "approvals_ok recs rs t \<longleftrightarrow> distinct (map ap_id t) \<and> distinct (map ap_recommendation t) \<and>
     (\<forall>a \<in> set t. ap_recommendation a \<in> recs \<and> ap_run a \<in> rs \<and> ap_action_type a \<in> set ALLOWED_ACTIONS)"

abbreviation run_incidents :: "db \<Rightarrow> (uuid \<times> uuid) set" where
  "run_incidents d \<equiv> keys (\<lambda>r. (run_id r, run_incident r)) (runs d)"

abbreviation call_runs :: "db \<Rightarrow> (uuid \<times> uuid) set" where
  "call_runs d \<equiv> keys (\<lambda>c. (call_id c, call_run c)) (tool_calls d)"

abbreviation hyp_runs :: "db \<Rightarrow> (uuid \<times> uuid) set" where
  "hyp_runs d \<equiv> keys (\<lambda>h. (hyp_id h, hyp_run h)) (hypotheses d)"

abbreviation evd_runs :: "db \<Rightarrow> (uuid \<times> uuid) set" where
  "evd_runs d \<equiv> keys (\<lambda>e. (evd_id e, evd_run e)) (evidences d)"

definition db_ok :: "db \<Rightarrow> bool" where
  "db_ok d \<longleftrightarrow>
     services_ok (services d) \<and>
     alerts_ok (keys sv_id (services d)) (alerts d) \<and>
     incidents_ok (keys sv_id (services d)) (incidents d) \<and>
     incident_alerts_ok (keys inc_id (incidents d)) (keys al_id (alerts d)) (incident_alerts d) \<and>
     events_ok (keys inc_id (incidents d)) (events d) \<and>
     deployments_ok (keys sv_id (services d)) (deployments d) \<and>
     runs_ok (keys inc_id (incidents d)) (runs d) \<and>
     calls_ok (keys run_id (runs d)) (tool_calls d) \<and>
     evidences_ok (run_incidents d) (call_runs d) (evidences d) \<and>
     hypotheses_ok (keys run_id (runs d)) (hypotheses d) \<and>
     citations_ok (hyp_runs d) (evd_runs d) (citations d) \<and>
     recommendations_ok (hyp_runs d) (recommendations d) \<and>
     approvals_ok (keys rec_id (recommendations d)) (keys run_id (runs d)) (approvals d)"

lemmas table_ok_defs =
  services_ok_def alerts_ok_def incidents_ok_def incident_alerts_ok_def events_ok_def
  deployments_ok_def runs_ok_def calls_ok_def evidences_ok_def hypotheses_ok_def
  citations_ok_def recommendations_ok_def approvals_ok_def

text \<open>Growing the key sets that a table refers to keeps its foreign keys.\<close>

lemma fk_mono:
  "alerts_ok A t \<Longrightarrow> A \<subseteq> B \<Longrightarrow> alerts_ok B t"
  "incidents_ok A t2 \<Longrightarrow> A \<subseteq> B \<Longrightarrow> incidents_ok B t2"
  "incident_alerts_ok A C t3 \<Longrightarrow> A \<subseteq> B \<Longrightarrow> C \<subseteq> D \<Longrightarrow> incident_alerts_ok B D t3"
  "events_ok A t4 \<Longrightarrow> A \<subseteq> B \<Longrightarrow> events_ok B t4"
  "deployments_ok A t5 \<Longrightarrow> A \<subseteq> B \<Longrightarrow> deployments_ok B t5"
  "runs_ok A t6 \<Longrightarrow> A \<subseteq> B \<Longrightarrow> runs_ok B t6"
  "calls_ok A t7 \<Longrightarrow> A \<subseteq> B \<Longrightarrow> calls_ok B t7"
  "hypotheses_ok A t8 \<Longrightarrow> A \<subseteq> B \<Longrightarrow> hypotheses_ok B t8"
  "approvals_ok A C t9 \<Longrightarrow> A \<subseteq> B \<Longrightarrow> C \<subseteq> D \<Longrightarrow> approvals_ok B D t9"
  "recommendations_ok P t10 \<Longrightarrow> P \<subseteq> Q \<Longrightarrow> recommendations_ok Q t10"
  "citations_ok P R t11 \<Longrightarrow> P \<subseteq> Q \<Longrightarrow> R \<subseteq> S \<Longrightarrow> citations_ok Q S t11"
  by (fastforce simp: table_ok_defs run_ok_def call_ok_def)+

lemma evidences_ok_mono:
  "evidences_ok P R t \<Longrightarrow> P \<subseteq> Q \<Longrightarrow> R \<subseteq> S \<Longrightarrow> evidences_ok Q S t"
  by (fastforce simp: evidences_ok_def evidence_ok_def opt_ok_def split: option.splits)

lemma empty_db_ok: "db_ok empty_db"
  by (simp add: db_ok_def empty_db_def table_ok_defs external_ids_def List.map_filter_def)

end
