(* ===== verification/Session.thy ===== *)
theory Session
  imports Models
begin

section \<open>The session: transactions, identifiers, the clock\<close>

text \<open>
  What a request handler works on. \<open>work\<close> is the database as the open session sees it, with
  the pending changes of its objects; \<open>saved\<close> is what the last commit made durable. A commit
  copies the one to the other, a rollback (and closing the session) throws the pending changes
  away. \<open>uuid4\<close> is a source that never repeats (\<open>inj\<close> in \<open>ids_ok\<close>), \<open>datetime.now(UTC)\<close>
  reads a clock that does not run backwards, \<open>db_now\<close> is \<open>func.now()\<close> of the transaction, and
  \<open>counters\<close> logs the increments of the Prometheus counters, which no rollback undoes.

  Every write of the program is an append of one row or an update of one row; for each there is
  a lemma of \<open>ok_intros\<close> that it keeps \<open>world_ok\<close>, with what it needs as premises. The
  operations of the services are compositions of these writes, so are their proofs.
\<close>

datatype metric =
    Alerts_ingested str str severity
  | Alerts_correlated str str
  | Incidents_created str severity

record world =
  work :: db
  saved :: db
  uuids :: "nat \<Rightarrow> uuid"
  uuid_count :: nat
  clock :: "nat \<Rightarrow> time"
  clock_reads :: nat
  db_now :: time
  counters :: "metric list"

definition new_uuid :: "world \<Rightarrow> uuid \<times> world" where
  "new_uuid w = (uuids w (uuid_count w), w\<lparr>uuid_count := Suc (uuid_count w)\<rparr>)"

definition utc_now :: "world \<Rightarrow> time \<times> world" where
  "utc_now w = (clock w (clock_reads w), w\<lparr>clock_reads := Suc (clock_reads w)\<rparr>)"

definition with_work :: "(db \<Rightarrow> db) \<Rightarrow> world \<Rightarrow> world" where
  "with_work f w = w\<lparr>work := f (work w)\<rparr>"

definition commit :: "world \<Rightarrow> world" where
  "commit w = w\<lparr>saved := work w\<rparr>"

definition rollback :: "world \<Rightarrow> world" where
  "rollback w = w\<lparr>work := saved w\<rparr>"

definition count_metric :: "metric \<Rightarrow> world \<Rightarrow> world" where
  "count_metric m w = w\<lparr>counters := counters w @ [m]\<rparr>"

subsection \<open>Appending a row\<close>

text \<open>The row is built from the identifier it draws, and returned.\<close>

definition add_service :: "(uuid \<Rightarrow> service) \<Rightarrow> world \<Rightarrow> service \<times> world" where
  "add_service mk w = (let (u, w1) = new_uuid w in
     (mk u, with_work (\<lambda>d. d\<lparr>services := services d @ [mk u]\<rparr>) w1))"

definition add_alert :: "(uuid \<Rightarrow> alert) \<Rightarrow> world \<Rightarrow> alert \<times> world" where
  "add_alert mk w = (let (u, w1) = new_uuid w in
     (mk u, with_work (\<lambda>d. d\<lparr>alerts := alerts d @ [mk u]\<rparr>) w1))"

definition add_incident :: "(uuid \<Rightarrow> incident) \<Rightarrow> world \<Rightarrow> incident \<times> world" where
  "add_incident mk w = (let (u, w1) = new_uuid w in
     (mk u, with_work (\<lambda>d. d\<lparr>incidents := incidents d @ [mk u]\<rparr>) w1))"

definition link_alert :: "uuid \<Rightarrow> uuid \<Rightarrow> world \<Rightarrow> world" where
  "link_alert i a w =
     with_work (\<lambda>d. d\<lparr>incident_alerts := incident_alerts d @ [\<lparr>ia_incident = i, ia_alert = a\<rparr>]\<rparr>) w"

definition add_event ::
    "uuid \<Rightarrow> event_type \<Rightarrow> str \<Rightarrow> (str \<times> json) list \<Rightarrow> world \<Rightarrow> world" where
  "add_event i ty msg md w = (let (u, w1) = new_uuid w in
     with_work (\<lambda>d. d\<lparr>events := events d @
       [\<lparr>ev_id = u, ev_incident = i, ev_type = ty, ev_message = msg, ev_metadata = md,
         ev_created_at = db_now w\<rparr>]\<rparr>) w1)"

definition add_deployment :: "(uuid \<Rightarrow> deployment_event) \<Rightarrow> world \<Rightarrow> deployment_event \<times> world" where
  "add_deployment mk w = (let (u, w1) = new_uuid w in
     (mk u, with_work (\<lambda>d. d\<lparr>deployments := deployments d @ [mk u]\<rparr>) w1))"

definition add_run :: "(uuid \<Rightarrow> agent_run) \<Rightarrow> world \<Rightarrow> agent_run \<times> world" where
  "add_run mk w = (let (u, w1) = new_uuid w in
     (mk u, with_work (\<lambda>d. d\<lparr>runs := runs d @ [mk u]\<rparr>) w1))"

definition add_tool_call :: "(uuid \<Rightarrow> tool_call) \<Rightarrow> world \<Rightarrow> tool_call \<times> world" where
  "add_tool_call mk w = (let (u, w1) = new_uuid w in
     (mk u, with_work (\<lambda>d. d\<lparr>tool_calls := tool_calls d @ [mk u]\<rparr>) w1))"

definition add_evidence :: "(uuid \<Rightarrow> evidence) \<Rightarrow> world \<Rightarrow> evidence \<times> world" where
  "add_evidence mk w = (let (u, w1) = new_uuid w in
     (mk u, with_work (\<lambda>d. d\<lparr>evidences := evidences d @ [mk u]\<rparr>) w1))"

definition add_hypothesis :: "(uuid \<Rightarrow> hypothesis) \<Rightarrow> world \<Rightarrow> hypothesis \<times> world" where
  "add_hypothesis mk w = (let (u, w1) = new_uuid w in
     (mk u, with_work (\<lambda>d. d\<lparr>hypotheses := hypotheses d @ [mk u]\<rparr>) w1))"

definition add_citations :: "hypothesis_evidence list \<Rightarrow> world \<Rightarrow> world" where
  "add_citations cs w = with_work (\<lambda>d. d\<lparr>citations := citations d @ cs\<rparr>) w"

definition add_recommendation :: "(uuid \<Rightarrow> recommendation) \<Rightarrow> world \<Rightarrow> recommendation \<times> world" where
  "add_recommendation mk w = (let (u, w1) = new_uuid w in
     (mk u, with_work (\<lambda>d. d\<lparr>recommendations := recommendations d @ [mk u]\<rparr>) w1))"

definition add_approval :: "(uuid \<Rightarrow> approval) \<Rightarrow> world \<Rightarrow> approval \<times> world" where
  "add_approval mk w = (let (u, w1) = new_uuid w in
     (mk u, with_work (\<lambda>d. d\<lparr>approvals := approvals d @ [mk u]\<rparr>) w1))"

subsection \<open>Updating a row\<close>

definition set_service :: "service \<Rightarrow> world \<Rightarrow> world" where
  "set_service r w = with_work (\<lambda>d. d\<lparr>services := row_set sv_id r (services d)\<rparr>) w"

definition set_incident :: "incident \<Rightarrow> world \<Rightarrow> world" where
  "set_incident r w = with_work (\<lambda>d. d\<lparr>incidents := row_set inc_id r (incidents d)\<rparr>) w"

definition set_run :: "agent_run \<Rightarrow> world \<Rightarrow> world" where
  "set_run r w = with_work (\<lambda>d. d\<lparr>runs := row_set run_id r (runs d)\<rparr>) w"

definition set_approval :: "approval \<Rightarrow> world \<Rightarrow> world" where
  "set_approval r w = with_work (\<lambda>d. d\<lparr>approvals := row_set ap_id r (approvals d)\<rparr>) w"

lemmas write_defs =
  new_uuid_def utc_now_def with_work_def commit_def rollback_def count_metric_def
  add_service_def add_alert_def add_incident_def link_alert_def add_event_def add_deployment_def
  add_run_def add_tool_call_def add_evidence_def add_hypothesis_def add_citations_def
  add_recommendation_def add_approval_def
  set_service_def set_incident_def set_run_def set_approval_def

subsection \<open>Reading rows\<close>

abbreviation get_service :: "world \<Rightarrow> uuid \<Rightarrow> service option" where
  "get_service w k \<equiv> row_get sv_id k (services (work w))"
abbreviation get_alert :: "world \<Rightarrow> uuid \<Rightarrow> alert option" where
  "get_alert w k \<equiv> row_get al_id k (alerts (work w))"
abbreviation get_incident :: "world \<Rightarrow> uuid \<Rightarrow> incident option" where
  "get_incident w k \<equiv> row_get inc_id k (incidents (work w))"
abbreviation get_run :: "world \<Rightarrow> uuid \<Rightarrow> agent_run option" where
  "get_run w k \<equiv> row_get run_id k (runs (work w))"
abbreviation get_tool_call :: "world \<Rightarrow> uuid \<Rightarrow> tool_call option" where
  "get_tool_call w k \<equiv> row_get call_id k (tool_calls (work w))"
abbreviation get_evidence :: "world \<Rightarrow> uuid \<Rightarrow> evidence option" where
  "get_evidence w k \<equiv> row_get evd_id k (evidences (work w))"
abbreviation get_hypothesis :: "world \<Rightarrow> uuid \<Rightarrow> hypothesis option" where
  "get_hypothesis w k \<equiv> row_get hyp_id k (hypotheses (work w))"
abbreviation get_recommendation :: "world \<Rightarrow> uuid \<Rightarrow> recommendation option" where
  "get_recommendation w k \<equiv> row_get rec_id k (recommendations (work w))"
abbreviation get_approval :: "world \<Rightarrow> uuid \<Rightarrow> approval option" where
  "get_approval w k \<equiv> row_get ap_id k (approvals (work w))"

subsection \<open>Well-formed worlds\<close>

definition used_ids :: "db \<Rightarrow> uuid set" where
  "used_ids d = keys sv_id (services d) \<union> keys al_id (alerts d) \<union> keys inc_id (incidents d) \<union>
     keys ev_id (events d) \<union> keys dp_id (deployments d) \<union> keys run_id (runs d) \<union>
     keys call_id (tool_calls d) \<union> keys evd_id (evidences d) \<union> keys hyp_id (hypotheses d) \<union>
     keys rec_id (recommendations d) \<union> keys ap_id (approvals d)"

definition ids_ok :: "world \<Rightarrow> bool" where
  "ids_ok w \<longleftrightarrow> inj (uuids w) \<and>
     used_ids (work w) \<union> used_ids (saved w) \<subseteq> uuids w ` {..<uuid_count w}"

definition world_ok :: "world \<Rightarrow> bool" where
  "world_ok w \<longleftrightarrow> db_ok (work w) \<and> db_ok (saved w) \<and> ids_ok w \<and> mono (clock w)"

lemma world_okD: "world_ok w \<Longrightarrow> db_ok (work w)"
  by (simp add: world_ok_def)

lemma fresh_uuid:
  assumes "ids_ok w" shows "uuids w (uuid_count w) \<notin> used_ids (work w)"
proof
  assume "uuids w (uuid_count w) \<in> used_ids (work w)"
  then obtain k where "k < uuid_count w" "uuids w (uuid_count w) = uuids w k"
    using assms by (auto simp: ids_ok_def)
  then show False using assms by (auto simp: ids_ok_def dest: injD)
qed

lemma drawn_ids_mono: "uuids w ` {..<uuid_count w} \<subseteq> uuids w ` {..<Suc (uuid_count w)}"
  by auto

text \<open>A write of one new row: well formed again when the new database is.\<close>

lemma grow_ok:
  assumes "world_ok w" "db_ok d" "used_ids d \<subseteq> insert (uuids w (uuid_count w)) (used_ids (work w))"
  shows "world_ok (w\<lparr>uuid_count := Suc (uuid_count w), work := d\<rparr>)"
  using assms drawn_ids_mono [of w] unfolding world_ok_def ids_ok_def
  by (auto simp: lessThan_Suc)

lemma same_ids_ok:
  assumes "world_ok w" "db_ok d" "used_ids d \<subseteq> used_ids (work w)"
  shows "world_ok (w\<lparr>work := d\<rparr>)"
  using assms unfolding world_ok_def ids_ok_def by auto

lemma commit_ok [ok_intros]: "world_ok w \<Longrightarrow> world_ok (commit w)"
  by (auto simp: world_ok_def ids_ok_def commit_def)

lemma rollback_ok [ok_intros]: "world_ok w \<Longrightarrow> world_ok (rollback w)"
  by (auto simp: world_ok_def ids_ok_def rollback_def)

lemma count_metric_ok [ok_intros]: "world_ok w \<Longrightarrow> world_ok (count_metric m w)"
  by (simp add: world_ok_def ids_ok_def count_metric_def)

lemma utc_now_ok [ok_intros]: "world_ok w \<Longrightarrow> world_ok (snd (utc_now w))"
  by (simp add: world_ok_def ids_ok_def utc_now_def)

subsection \<open>Every write keeps the constraints\<close>

lemma key_not_used:
  "u \<notin> used_ids d \<Longrightarrow> u \<notin> keys sv_id (services d)" "u \<notin> used_ids d \<Longrightarrow> u \<notin> keys al_id (alerts d)"
  "u \<notin> used_ids d \<Longrightarrow> u \<notin> keys inc_id (incidents d)" "u \<notin> used_ids d \<Longrightarrow> u \<notin> keys ev_id (events d)"
  "u \<notin> used_ids d \<Longrightarrow> u \<notin> keys dp_id (deployments d)" "u \<notin> used_ids d \<Longrightarrow> u \<notin> keys run_id (runs d)"
  "u \<notin> used_ids d \<Longrightarrow> u \<notin> keys call_id (tool_calls d)" "u \<notin> used_ids d \<Longrightarrow> u \<notin> keys evd_id (evidences d)"
  "u \<notin> used_ids d \<Longrightarrow> u \<notin> keys hyp_id (hypotheses d)"
  "u \<notin> used_ids d \<Longrightarrow> u \<notin> keys rec_id (recommendations d)"
  "u \<notin> used_ids d \<Longrightarrow> u \<notin> keys ap_id (approvals d)"
  by (simp_all add: used_ids_def)

lemma distinct_snoc: "distinct (map f (t @ [r])) \<longleftrightarrow> distinct (map f t) \<and> f r \<notin> keys f t"
  by (auto simp: keys_def)

lemma fk_insert:
  "alerts_ok A t1 \<Longrightarrow> alerts_ok (insert u A) t1"
  "incidents_ok A t2 \<Longrightarrow> incidents_ok (insert u A) t2"
  "incident_alerts_ok A C t3 \<Longrightarrow> incident_alerts_ok (insert u A) C t3"
  "incident_alerts_ok A C t3 \<Longrightarrow> incident_alerts_ok A (insert u C) t3"
  "events_ok A t4 \<Longrightarrow> events_ok (insert u A) t4"
  "deployments_ok A t5 \<Longrightarrow> deployments_ok (insert u A) t5"
  "runs_ok A t6 \<Longrightarrow> runs_ok (insert u A) t6"
  "calls_ok A t7 \<Longrightarrow> calls_ok (insert u A) t7"
  "hypotheses_ok A t8 \<Longrightarrow> hypotheses_ok (insert u A) t8"
  "approvals_ok A C t9 \<Longrightarrow> approvals_ok (insert u A) C t9"
  "approvals_ok A C t9 \<Longrightarrow> approvals_ok A (insert u C) t9"
  "recommendations_ok P t10 \<Longrightarrow> recommendations_ok (insert p P) t10"
  "citations_ok P R t11 \<Longrightarrow> citations_ok (insert p P) R t11"
  "citations_ok P R t11 \<Longrightarrow> citations_ok P (insert p R) t11"
  "evidences_ok P R t12 \<Longrightarrow> evidences_ok (insert p P) R t12"
  "evidences_ok P R t12 \<Longrightarrow> evidences_ok P (insert p R) t12"
  by (blast intro: fk_mono evidences_ok_mono)+

lemma new_key:
  "world_ok w \<Longrightarrow> uuids w (uuid_count w) \<notin> used_ids (work w)"
  by (simp add: world_ok_def fresh_uuid)

lemmas new_keys = new_key [THEN key_not_used(1)] new_key [THEN key_not_used(2)]
  new_key [THEN key_not_used(3)] new_key [THEN key_not_used(4)] new_key [THEN key_not_used(5)]
  new_key [THEN key_not_used(6)] new_key [THEN key_not_used(7)] new_key [THEN key_not_used(8)]
  new_key [THEN key_not_used(9)] new_key [THEN key_not_used(10)] new_key [THEN key_not_used(11)]

lemmas grow_simps = distinct_snoc used_ids_def keys_append keys_Cons keys_Nil fk_insert le_supI1

lemma add_event_ok [ok_intros]:
  assumes "world_ok w" "i \<in> keys inc_id (incidents (work w))"
  shows "world_ok (add_event i ty msg md w)"
  unfolding add_event_def new_uuid_def with_work_def Let_def prod.case fst_conv snd_conv
  apply simp
  apply (rule grow_ok [OF assms(1)])
  using world_okD [OF assms(1)] assms(2) new_keys [OF assms(1)]
  by (auto simp: db_ok_def events_ok_def grow_simps simp del: map_append)

lemma add_service_ok [ok_intros]:
  assumes "world_ok w" "\<And>u. sv_id (mk u) = u"
    "\<And>u. sv_name (mk u) \<notin> keys sv_name (services (work w))"
  shows "world_ok (snd (add_service mk w))"
  unfolding add_service_def new_uuid_def with_work_def Let_def prod.case fst_conv snd_conv
  apply simp
  apply (rule grow_ok [OF assms(1)])
  using world_okD [OF assms(1)] assms(2-) new_keys [OF assms(1)]
  by (auto simp: db_ok_def services_ok_def grow_simps simp del: map_append)

lemma external_ids_snoc:
  "external_ids (t @ [r]) = external_ids t @ (case al_external_id r of None \<Rightarrow> [] | Some x \<Rightarrow> [x])"
  by (auto simp: external_ids_def List.map_filter_def split: option.splits)

lemma add_alert_ok [ok_intros]:
  assumes "world_ok w" "\<And>u. al_id (mk u) = u"
    "\<And>u. al_service (mk u) \<in> keys sv_id (services (work w))"
    "\<And>u x. al_external_id (mk u) = Some x \<Longrightarrow> x \<notin> set (external_ids (alerts (work w)))"
  shows "world_ok (snd (add_alert mk w))"
  unfolding add_alert_def new_uuid_def with_work_def Let_def prod.case fst_conv snd_conv
  apply simp
  apply (rule grow_ok [OF assms(1)])
  using world_okD [OF assms(1)] assms(2-) new_keys [OF assms(1)]
  by (auto simp: db_ok_def alerts_ok_def grow_simps external_ids_snoc split: option.splits simp del: map_append)

lemma add_incident_ok [ok_intros]:
  assumes "world_ok w" "\<And>u. inc_id (mk u) = u"
    "\<And>u. inc_service (mk u) \<in> keys sv_id (services (work w))"
  shows "world_ok (snd (add_incident mk w))"
  unfolding add_incident_def new_uuid_def with_work_def Let_def prod.case fst_conv snd_conv
  apply simp
  apply (rule grow_ok [OF assms(1)])
  using world_okD [OF assms(1)] assms(2-) new_keys [OF assms(1)]
  by (auto simp: db_ok_def incidents_ok_def grow_simps simp del: map_append)

lemma link_alert_ok [ok_intros]:
  assumes "world_ok w" "i \<in> keys inc_id (incidents (work w))" "a \<in> keys al_id (alerts (work w))"
    "(i, a) \<notin> keys (\<lambda>l. (ia_incident l, ia_alert l)) (incident_alerts (work w))"
  shows "world_ok (link_alert i a w)"
  unfolding link_alert_def with_work_def
  apply (rule same_ids_ok [OF assms(1)])
  using world_okD [OF assms(1)] assms(2-)
  by (auto simp: db_ok_def incident_alerts_ok_def grow_simps simp del: map_append)

lemma add_deployment_ok [ok_intros]:
  assumes "world_ok w" "\<And>u. dp_id (mk u) = u"
    "\<And>u. dp_service (mk u) \<in> keys sv_id (services (work w))"
  shows "world_ok (snd (add_deployment mk w))"
  unfolding add_deployment_def new_uuid_def with_work_def Let_def prod.case fst_conv snd_conv
  apply simp
  apply (rule grow_ok [OF assms(1)])
  using world_okD [OF assms(1)] assms(2-) new_keys [OF assms(1)]
  by (auto simp: db_ok_def deployments_ok_def grow_simps simp del: map_append)

lemma add_run_ok [ok_intros]:
  assumes "world_ok w" "\<And>u. run_id (mk u) = u"
    "\<And>u. run_ok (keys inc_id (incidents (work w))) (mk u)"
  shows "world_ok (snd (add_run mk w))"
  unfolding add_run_def new_uuid_def with_work_def Let_def prod.case fst_conv snd_conv
  apply simp
  apply (rule grow_ok [OF assms(1)])
  using world_okD [OF assms(1)] assms(2-) new_keys [OF assms(1)]
  by (auto simp: db_ok_def runs_ok_def grow_simps simp del: map_append)

lemma add_tool_call_ok [ok_intros]:
  assumes "world_ok w" "\<And>u. call_id (mk u) = u"
    "\<And>u. call_ok (keys run_id (runs (work w))) (mk u)"
  shows "world_ok (snd (add_tool_call mk w))"
  unfolding add_tool_call_def new_uuid_def with_work_def Let_def prod.case fst_conv snd_conv
  apply simp
  apply (rule grow_ok [OF assms(1)])
  using world_okD [OF assms(1)] assms(2-) new_keys [OF assms(1)]
  by (auto simp: db_ok_def calls_ok_def grow_simps simp del: map_append)

lemma add_evidence_ok [ok_intros]:
  assumes "world_ok w" "\<And>u. evd_id (mk u) = u"
    "\<And>u. evidence_ok (run_incidents (work w)) (call_runs (work w)) (mk u)"
  shows "world_ok (snd (add_evidence mk w))"
  unfolding add_evidence_def new_uuid_def with_work_def Let_def prod.case fst_conv snd_conv
  apply simp
  apply (rule grow_ok [OF assms(1)])
  using world_okD [OF assms(1)] assms(2-) new_keys [OF assms(1)]
  by (auto simp: db_ok_def evidences_ok_def grow_simps simp del: map_append)

lemma add_hypothesis_ok [ok_intros]:
  assumes "world_ok w" "\<And>u. hyp_id (mk u) = u"
    "\<And>u. hyp_run (mk u) \<in> keys run_id (runs (work w))" "\<And>u. in_unit (hyp_confidence (mk u))"
  shows "world_ok (snd (add_hypothesis mk w))"
  unfolding add_hypothesis_def new_uuid_def with_work_def Let_def prod.case fst_conv snd_conv
  apply simp
  apply (rule grow_ok [OF assms(1)])
  using world_okD [OF assms(1)] assms(2-) new_keys [OF assms(1)]
  by (auto simp: db_ok_def hypotheses_ok_def grow_simps simp del: map_append)

lemma citations_append_ok:
  assumes "citations_ok H E t" "distinct (map (\<lambda>c. (he_hypothesis c, he_evidence c)) cs)"
    "keys (\<lambda>c. (he_hypothesis c, he_evidence c)) cs \<inter> keys (\<lambda>c. (he_hypothesis c, he_evidence c)) t = {}"
    "keys (\<lambda>c. (he_hypothesis c, he_run c)) cs \<subseteq> H" "keys (\<lambda>c. (he_evidence c, he_run c)) cs \<subseteq> E"
  shows "citations_ok H E (t @ cs)"
proof -
  have "(he_hypothesis c, he_run c) \<in> H \<and> (he_evidence c, he_run c) \<in> E" if "c \<in> set (t @ cs)" for c
    using that assms(1,4,5) by (auto simp: citations_ok_def keys_def)
  then show ?thesis using assms(1-3) unfolding citations_ok_def keys_def by (simp add: Int_commute)
qed

lemma add_citations_ok [ok_intros]:
  assumes "world_ok w"
    "distinct (map (\<lambda>c. (he_hypothesis c, he_evidence c)) cs)"
    "keys (\<lambda>c. (he_hypothesis c, he_evidence c)) cs \<inter>
       keys (\<lambda>c. (he_hypothesis c, he_evidence c)) (citations (work w)) = {}"
    "keys (\<lambda>c. (he_hypothesis c, he_run c)) cs \<subseteq> hyp_runs (work w)"
    "keys (\<lambda>c. (he_evidence c, he_run c)) cs \<subseteq> evd_runs (work w)"
  shows "world_ok (add_citations cs w)"
proof -
  have d: "db_ok (work w)" by (rule world_okD [OF assms(1)])
  have "citations_ok (hyp_runs (work w)) (evd_runs (work w)) (citations (work w) @ cs)"
    by (rule citations_append_ok [OF _ assms(2-)]) (use d in \<open>simp add: db_ok_def\<close>)
  then have "db_ok (work w\<lparr>citations := citations (work w) @ cs\<rparr>)"
    using d unfolding db_ok_def by (simp del: map_append)
  then show ?thesis
    unfolding add_citations_def with_work_def
    by (intro same_ids_ok [OF assms(1)]) (simp_all add: used_ids_def)
qed

lemma add_recommendation_ok [ok_intros]:
  assumes "world_ok w" "\<And>u. rec_id (mk u) = u"
    "\<And>u. (rec_hypothesis (mk u), rec_run (mk u)) \<in> hyp_runs (work w)"
    "\<And>u. rec_status (mk u) = ''proposed''" "\<And>u. rec_requires_approval (mk u)"
  shows "world_ok (snd (add_recommendation mk w))"
  unfolding add_recommendation_def new_uuid_def with_work_def Let_def prod.case fst_conv snd_conv
  apply simp
  apply (rule grow_ok [OF assms(1)])
  using world_okD [OF assms(1)] assms(2-) new_keys [OF assms(1)]
  by (auto simp: db_ok_def recommendations_ok_def grow_simps simp del: map_append)

lemma add_approval_ok [ok_intros]:
  assumes "world_ok w" "\<And>u. ap_id (mk u) = u"
    "\<And>u. ap_recommendation (mk u) \<in> keys rec_id (recommendations (work w))"
    "\<And>u. ap_recommendation (mk u) \<notin> keys ap_recommendation (approvals (work w))"
    "\<And>u. ap_run (mk u) \<in> keys run_id (runs (work w))"
    "\<And>u. ap_action_type (mk u) \<in> set ALLOWED_ACTIONS"
  shows "world_ok (snd (add_approval mk w))"
  unfolding add_approval_def new_uuid_def with_work_def Let_def prod.case fst_conv snd_conv
  apply simp
  apply (rule grow_ok [OF assms(1)])
  using world_okD [OF assms(1)] assms(2-) new_keys [OF assms(1)]
  by (auto simp: db_ok_def approvals_ok_def grow_simps simp del: map_append)

text \<open>An update keeps the key of its row; a foreign key over other columns needs those unchanged.\<close>

lemma incidents_set_ok:
  "incidents_ok A t \<Longrightarrow> inc_service r \<in> A \<Longrightarrow> incidents_ok A (row_set inc_id r t)"
  unfolding incidents_ok_def distinct_row_set by (auto simp: set_row_set)

lemma runs_set_ok: "runs_ok A t \<Longrightarrow> run_ok A r \<Longrightarrow> runs_ok A (row_set run_id r t)"
  unfolding runs_ok_def distinct_row_set by (auto simp: set_row_set)

lemma approvals_set_ok:
  assumes "approvals_ok A B t" "row_get ap_id (ap_id r) t = Some q" "ap_recommendation q = ap_recommendation r"
    "ap_run q = ap_run r" "ap_action_type q = ap_action_type r"
  shows "approvals_ok A B (row_set ap_id r t)"
proof -
  have q: "q \<in> set t" using assms(2) by (auto dest: row_get_SomeD)
  then have r: "ap_recommendation r \<in> A \<and> ap_run r \<in> B \<and> ap_action_type r \<in> set ALLOWED_ACTIONS"
    using assms(1,3-) by (auto simp: approvals_ok_def)
  have "map ap_recommendation (row_set ap_id r t) = map ap_recommendation t"
    using assms(1-3) by (auto simp: row_set_def approvals_ok_def dest!: row_get_unique)
  then show ?thesis
    using assms(1) r unfolding approvals_ok_def distinct_row_set by (auto simp: set_row_set)
qed

lemma set_service_ok [ok_intros]:
  assumes "world_ok w" "get_service w (sv_id r) = Some q" "sv_name q = sv_name r"
  shows "world_ok (set_service r w)"
proof -
  have "db_ok (work w)" by (rule world_okD [OF assms(1)])
  moreover from this have "distinct (map sv_name (row_set sv_id r (services (work w))))"
  proof -
    have "map sv_name (row_set sv_id r (services (work w))) = map sv_name (services (work w))"
      using \<open>db_ok (work w)\<close> assms(2,3)
      by (auto simp: row_set_def db_ok_def services_ok_def dest!: row_get_unique) 
    then show ?thesis using \<open>db_ok (work w)\<close> by (simp add: db_ok_def services_ok_def)
  qed
  ultimately have "db_ok (work w\<lparr>services := row_set sv_id r (services (work w))\<rparr>)"
    by (simp add: db_ok_def services_ok_def table_simps)
  then show ?thesis
    unfolding set_service_def with_work_def
    by (intro same_ids_ok [OF assms(1)]) (simp_all add: used_ids_def keys_row_set)
qed

lemma set_incident_ok [ok_intros]:
  assumes "world_ok w" "inc_service r \<in> keys sv_id (services (work w))"
  shows "world_ok (set_incident r w)"
proof -
  have "db_ok (work w\<lparr>incidents := row_set inc_id r (incidents (work w))\<rparr>)"
    using world_okD [OF assms(1)] assms(2)
    by (simp add: db_ok_def incidents_set_ok keys_row_set)
  then show ?thesis
    unfolding set_incident_def with_work_def
    by (intro same_ids_ok [OF assms(1)]) (simp_all add: used_ids_def keys_row_set)
qed

lemma set_run_ok [ok_intros]:
  assumes "world_ok w" "get_run w (run_id r) = Some q" "run_incident q = run_incident r"
    "run_ok (keys inc_id (incidents (work w))) r"
  shows "world_ok (set_run r w)"
proof -
  have d: "db_ok (work w)" by (rule world_okD [OF assms(1)])
  then have "keys (\<lambda>r. (run_id r, run_incident r)) (row_set run_id r (runs (work w))) =
      run_incidents (work w)"
    using assms(2,3)
    by (intro keys_row_set_same [where q = q]) (auto simp: db_ok_def runs_ok_def dest: row_get_SomeD)
  then have "db_ok (work w\<lparr>runs := row_set run_id r (runs (work w))\<rparr>)"
    using d assms(4) by (simp add: db_ok_def runs_set_ok keys_row_set)
  then show ?thesis
    unfolding set_run_def with_work_def
    by (intro same_ids_ok [OF assms(1)]) (simp_all add: used_ids_def keys_row_set)
qed

lemma set_approval_ok [ok_intros]:
  assumes "world_ok w" "get_approval w (ap_id r) = Some q" "ap_recommendation q = ap_recommendation r"
    "ap_run q = ap_run r" "ap_action_type q = ap_action_type r"
  shows "world_ok (set_approval r w)"
proof -
  have d: "db_ok (work w)" by (rule world_okD [OF assms(1)])
  have "db_ok (work w\<lparr>approvals := row_set ap_id r (approvals (work w))\<rparr>)"
    using d approvals_set_ok [OF _ assms(2-)] by (simp add: db_ok_def)
  then show ?thesis
    unfolding set_approval_def with_work_def
    by (intro same_ids_ok [OF assms(1)]) (simp_all add: used_ids_def keys_row_set)
qed

subsection \<open>The empty world\<close>

text \<open>
  Nothing stored, identifiers 0, 1, 2, ... and a clock that ticks once a second: the state
  the concrete runs start from.
\<close>

definition start_world :: world where
  "start_world = \<lparr>work = empty_db, saved = empty_db, uuids = (\<lambda>n. n), uuid_count = 0,
     clock = (\<lambda>n. seconds (int n)), clock_reads = 0, db_now = 0, counters = []\<rparr>"

lemma used_ids_empty: "used_ids empty_db = {}"
  by (simp add: used_ids_def empty_db_def keys_Nil)

lemma start_world_ok: "world_ok start_world"
proof -
  have "mono (\<lambda>n. seconds (int n))" by (intro monoI) (simp add: seconds_def)
  then show ?thesis
    by (simp add: world_ok_def start_world_def empty_db_ok ids_ok_def used_ids_empty)
qed

end
