(* ===== verification/Incidents.thy ===== *)
theory Incidents
  imports Session
begin

section \<open>Incident service: alert ingestion and correlation\<close>

text \<open>
  \<open>apps/api/app/services/incident_service.py\<close>, function by function: an alert is deduplicated on
  its external id, joined to an open incident of the same service and alert type inside the
  correlation window, or opens a new incident; a joining alert can raise the severity and never
  lower it. \<open>grouping_ok\<close> is what ingestion promises beyond the schema: every stored alert is linked
  to exactly one incident, of the alert's own service. Its consequences are that the query of
  the duplicate check has at most one row, and that ingesting is idempotent on the external id.
\<close>

subsection \<open>Services\<close>

text \<open>
  Postgres refuses a text with a NUL character, also as a parameter of a query, and one longer than
  its VARCHAR column; a failed flush rolls back.
\<close>

definition pg_text :: "str \<Rightarrow> bool" where
  "pg_text s \<longleftrightarrow> CHR 0x00 \<notin> set s"

definition get_or_create_service :: "str \<Rightarrow> str \<Rightarrow> (world, service) op" where
  "get_or_create_service name environment w =
     (if \<not> pg_text name then (Inl DataErr, rollback w)
      else case List.find (\<lambda>s. sv_name s = name) (services (work w)) of
        Some s \<Rightarrow> (Inr s, w)
      | None \<Rightarrow>
          if 128 < length name \<or> 32 < length environment \<or> \<not> pg_text environment then (Inl DataErr, rollback w)
          else (case add_service (\<lambda>u. \<lparr>sv_id = u, sv_name = name, sv_environment = environment,
                  sv_current_version = None, sv_owner_team = None\<rparr>) w of (s, w1) \<Rightarrow> (Inr s, w1)))"

subsection \<open>Correlation\<close>

text \<open>
  The rows of the join, in the order of the tables; the query keeps the latest incident. Its two
  bounds are computed first, which can overflow; asyncpg encodes a parameter as a UTC instant and
  refuses one outside the years of a datetime.
\<close>

definition correlated_rows :: "db \<Rightarrow> uuid \<Rightarrow> str \<Rightarrow> datetime \<Rightarrow> int \<Rightarrow> incident list" where
  "correlated_rows d service_id alert_type started_at window_seconds =
     [i. i \<leftarrow> incidents d, l \<leftarrow> incident_alerts d, a \<leftarrow> alerts d,
         ia_incident l = inc_id i \<and> al_id a = ia_alert l \<and>
         inc_service i = service_id \<and>
         inc_status i \<notin> set TERMINAL_INCIDENT_STATUSES \<and>
         al_type a = alert_type \<and>
         as_utc (al_started_at a) \<ge> as_utc started_at - seconds window_seconds \<and>
         as_utc (al_started_at a) \<le> as_utc started_at + seconds window_seconds]"

definition find_correlated_incident ::
    "db \<Rightarrow> uuid \<Rightarrow> str \<Rightarrow> datetime \<Rightarrow> int \<Rightarrow> exn + incident option" where
  "find_correlated_incident d service_id alert_type started_at window_seconds =
     (case (shift started_at (- seconds window_seconds), shift started_at (seconds window_seconds)) of
        (Inr earliest, Inr latest) \<Rightarrow>
          if \<not> in_range earliest \<or> \<not> in_range latest then Inl DataErr
          else Inr (first_row (sort_key (\<lambda>i. - as_utc (inc_started_at i))
                 (correlated_rows d service_id alert_type started_at window_seconds)))
      | _ \<Rightarrow> Inl OverflowErr)"

subsection \<open>Texts\<close>

definition incident_title :: "alert_request \<Rightarrow> str" where
  "incident_title p = ar_service_name p @ '': '' @ replace_char CHR ''_'' '' '' (ar_alert_type p)"

definition incident_description :: "pylib \<Rightarrow> alert_request \<Rightarrow> str" where
  "incident_description py p = join '' '' (
     [''Alert '' @ ar_alert_type p @ '' fired on '' @ ar_service_name p @ ''.''] @
     (case (ar_observed_value p, ar_threshold p) of
        (Some v, Some t) \<Rightarrow>
          [''Observed '' @ float_text py v @ '' against threshold '' @ float_text py t @ ''.'']
      | _ \<Rightarrow> []) @
     (if ar_labels p \<noteq> []
      then [''Labels: '' @ join '', '' (map (\<lambda>(k, v). k @ ''='' @ v) (sort (ar_labels p))) @ ''.'']
      else []))"

subsection \<open>Ingestion\<close>

record ingest_result =
  ir_alert_id :: uuid
  ir_incident_id :: uuid
  ir_status :: incident_status
  ir_correlated :: bool
  ir_service_name :: str
  ir_duplicate :: bool

definition duplicate_rows :: "db \<Rightarrow> str \<Rightarrow> (alert \<times> incident \<times> service) list" where
  "duplicate_rows d x =
     [(a, i, s). a \<leftarrow> alerts d, l \<leftarrow> incident_alerts d, i \<leftarrow> incidents d, s \<leftarrow> services d,
        ia_alert l = al_id a \<and> inc_id i = ia_incident l \<and> sv_id s = al_service a \<and>
        al_external_id a = Some x]"

fun one_or_none :: "'a list \<Rightarrow> exn + 'a option" where
  "one_or_none [] = Inr None"
| "one_or_none [r] = Inr (Some r)"
| "one_or_none _ = Inl MultipleResultsFound"

definition escalate_severity :: "incident \<Rightarrow> severity \<Rightarrow> world \<Rightarrow> incident \<times> world" where
  "escalate_severity incident sev w =
     (let previous = inc_severity incident in
      if SEVERITY_RANK sev \<le> SEVERITY_RANK previous then (incident, w)
      else let incident' = incident\<lparr>inc_severity := sev\<rparr> in
        (incident', add_event (inc_id incident) SEVERITY_ESCALATED
           (''Severity escalated from '' @ severity_value previous @ '' to '' @ severity_value sev @ ''.'')
           [(''from'', JStr (severity_value previous)), (''to'', JStr (severity_value sev))]
           (set_incident incident' w)))"

text \<open>The two branches after the correlation query: open an incident, or join one.\<close>

definition open_incident ::
    "pylib \<Rightarrow> alert_request \<Rightarrow> service \<Rightarrow> alert \<Rightarrow> world \<Rightarrow> incident \<times> world" where
  "open_incident py p service alert w =
     (case add_incident (\<lambda>u. \<lparr>inc_id = u, inc_service = sv_id service, inc_title = incident_title p,
         inc_description = Some (incident_description py p), inc_severity = ar_severity p,
         inc_status = NEW, inc_started_at = ar_started_at p, inc_resolved_at = None\<rparr>) w of
      (incident, w1) \<Rightarrow>
        (incident, add_event (inc_id incident) INCIDENT_CREATED
          (''Incident opened from '' @ ar_alert_type p @ '' on '' @ sv_name service @ ''.'')
          [(''alert_id'', JStr (uuid_text py (al_id alert))),
           (''severity'', JStr (severity_value (ar_severity p)))] w1))"

definition join_incident ::
    "pylib \<Rightarrow> alert_request \<Rightarrow> int \<Rightarrow> alert \<Rightarrow> incident \<Rightarrow> world \<Rightarrow> incident \<times> world" where
  "join_incident py p window_seconds alert incident w =
     escalate_severity incident (ar_severity p)
       (add_event (inc_id incident) ALERT_CORRELATED
          (''Alert '' @ ar_alert_type p @ '' correlated into this incident (within '' @
           str_int window_seconds @ ''s window).'')
          [(''alert_id'', JStr (uuid_text py (al_id alert)))] w)"

definition count_ingested :: "alert_request \<Rightarrow> service \<Rightarrow> bool \<Rightarrow> world \<Rightarrow> world" where
  "count_ingested p service correlated w =
     (let w1 = count_metric (Alerts_ingested (sv_name service) (ar_alert_type p) (ar_severity p)) w in
      if correlated then count_metric (Alerts_correlated (sv_name service) (ar_alert_type p)) w1
      else count_metric (Incidents_created (sv_name service) (ar_severity p)) w1)"

definition label :: "alert_request \<Rightarrow> str \<Rightarrow> str \<Rightarrow> str" where
  "label p k dflt = (case map_of (ar_labels p) k of Some v \<Rightarrow> v | None \<Rightarrow> dflt)"

text \<open>
  The alert row. Its insertion is refused for a text with a NUL character, a start that is no UTC
  instant of the years 1 to 9999, and a NaN or an infinity in the payload, which is no JSON (a NUL
  in a label is: \<open>json.dumps\<close> escapes it, and the column is of type json). It breaks the unique
  external id exactly when another alert holds the same one, which the duplicate check rules
  out except for the empty text.
\<close>

fun is_finite :: "pyfloat \<Rightarrow> bool" where
  "is_finite (Fin _) = True"
| "is_finite _ = False"

definition alert_storable :: "alert_request \<Rightarrow> bool" where
  "alert_storable p \<longleftrightarrow> pg_text (ar_alert_type p) \<and> opt_ok pg_text (ar_external_id p) \<and>
     in_range (as_utc (ar_started_at p)) \<and> opt_ok is_finite (ar_observed_value p) \<and> opt_ok is_finite (ar_threshold p)"

definition store_alert :: "alert_request \<Rightarrow> service \<Rightarrow> (world, alert) op" where
  "store_alert p service w =
     (if \<not> alert_storable p then (Inl DataErr, rollback w)
      else if (\<exists>x \<in> set (external_ids (alerts (work w))). ar_external_id p = Some x)
      then (Inl IntegrityErr, rollback w)
      else (case add_alert (\<lambda>u. \<lparr>al_id = u, al_external_id = ar_external_id p,
          al_service = sv_id service, al_type = ar_alert_type p, al_severity = ar_severity p,
          al_started_at = ar_started_at p, al_resolved_at = None, al_raw_payload = p\<rparr>) w of
        (a, w1) \<Rightarrow> (Inr a, w1)))"

text \<open>
  An exception outside of a flush leaves the session as it is, but it also leaves the request, and
  with it the \<open>async with\<close> of \<open>get_session\<close>, whose exit rolls back; nothing reads the session in
  between, so the rollback is written here. The incident's description holds the labels.
\<close>

definition ingest_new :: "pylib \<Rightarrow> alert_request \<Rightarrow> int \<Rightarrow> (world, ingest_result) op" where
  "ingest_new py p window_seconds w =
     bind (get_or_create_service (ar_service_name p) (label p ''environment'' ''staging'') w)
       (\<lambda>service w1. bind (store_alert p service w1)
       (\<lambda>alert w2.
         case find_correlated_incident (work w2) (sv_id service) (ar_alert_type p) (ar_started_at p) window_seconds of
           Inl x \<Rightarrow> (Inl x, rollback w2)
         | Inr found \<Rightarrow>
             if found = None \<and> \<not> pg_text (incident_description py p) then (Inl DataErr, rollback w2)
             else let (incident, w3) = (case found of
                        None \<Rightarrow> open_incident py p service alert w2
                      | Some i \<Rightarrow> join_incident py p window_seconds alert i w2);
                      w4 = commit (link_alert (inc_id incident) (al_id alert) w3)
             in (Inr \<lparr>ir_alert_id = al_id alert, ir_incident_id = inc_id incident,
                   ir_status = inc_status incident, ir_correlated = (found \<noteq> None),
                   ir_service_name = sv_name service, ir_duplicate = False\<rparr>,
                 count_ingested p service (found \<noteq> None) w4)))"

definition ingest_alert :: "pylib \<Rightarrow> alert_request \<Rightarrow> int \<Rightarrow> (world, ingest_result) op" where
  "ingest_alert py p window_seconds w =
     (case ar_external_id p of
        Some (c # cs) \<Rightarrow>
          if \<not> pg_text (c # cs) then (Inl DataErr, rollback w)
          else (case one_or_none (duplicate_rows (work w) (c # cs)) of
             Inl e \<Rightarrow> (Inl e, w)
           | Inr (Some (a, i, s)) \<Rightarrow>
               (Inr \<lparr>ir_alert_id = al_id a, ir_incident_id = inc_id i, ir_status = inc_status i,
                  ir_correlated = True, ir_service_name = sv_name s, ir_duplicate = True\<rparr>, w)
           | Inr None \<Rightarrow> ingest_new py p window_seconds w)
      | _ \<Rightarrow> ingest_new py p window_seconds w)"

subsection \<open>Deployments\<close>

definition record_deployment ::
    "service \<Rightarrow> str \<Rightarrow> str option \<Rightarrow> time \<Rightarrow> str option \<Rightarrow> str option \<Rightarrow> (world, deployment_event) op" where
  "record_deployment service version previous deployed_at commit_sha deployed_by w =
     (if 64 < length version \<or> \<not> opt_ok (\<lambda>s. length s \<le> 64) previous \<or>
         \<not> opt_ok (\<lambda>s. length s \<le> 64) commit_sha \<or> \<not> opt_ok (\<lambda>s. length s \<le> 128) deployed_by
      then (Inl DataErr, rollback w)
      else (case add_deployment (\<lambda>u. \<lparr>dp_id = u, dp_service = sv_id service, dp_version = version,
           dp_previous_version = previous, dp_commit_sha = commit_sha, dp_deployed_by = deployed_by,
           dp_status = Dep_SUCCEEDED, dp_deployed_at = deployed_at, dp_metadata = []\<rparr>) w of
        (e, w1) \<Rightarrow> (Inr e, set_service (service\<lparr>sv_current_version := Some version\<rparr>) w1)))"

subsection \<open>What each step does to the database\<close>

lemma get_or_create_service_effect:
  assumes "get_or_create_service n e w = (Inr s, w1)" "world_ok w"
  shows "world_ok w1" "s \<in> set (services (work w1))" "sv_name s = n" "saved w1 = saved w"
    "counters w1 = counters w" "work w1 = work w\<lparr>services := services (work w1)\<rparr>"
proof -
  consider (found) "List.find (\<lambda>s. sv_name s = n) (services (work w)) = Some s" "w1 = w"
    | (new) "n \<notin> keys sv_name (services (work w))"
        "(s, w1) = add_service (\<lambda>u. \<lparr>sv_id = u, sv_name = n, sv_environment = e,
           sv_current_version = None, sv_owner_team = None\<rparr>) w"
    using assms(1) unfolding get_or_create_service_def
    by (auto simp: find_None_iff keys_def image_iff split: option.splits if_splits prod.splits)
  then have "world_ok w1 \<and> s \<in> set (services (work w1)) \<and> sv_name s = n \<and> saved w1 = saved w \<and>
    counters w1 = counters w \<and> work w1 = work w\<lparr>services := services (work w1)\<rparr>"
  proof cases
    case found
    then show ?thesis using assms(2) by (auto simp: find_Some_iff)
  next
    case new
    have "world_ok (snd (add_service (\<lambda>u. \<lparr>sv_id = u, sv_name = n, sv_environment = e,
           sv_current_version = None, sv_owner_team = None\<rparr>) w))"
      using new(1) assms(2) by (intro add_service_ok) simp_all
    then show ?thesis using new(2) by (auto simp: add_service_def new_uuid_def with_work_def)
  qed
  then show "world_ok w1" "s \<in> set (services (work w1))" "sv_name s = n" "saved w1 = saved w"
    "counters w1 = counters w" "work w1 = work w\<lparr>services := services (work w1)\<rparr>" by auto
qed

definition service_refused :: "str \<Rightarrow> str \<Rightarrow> db \<Rightarrow> bool" where
  "service_refused n e d \<longleftrightarrow> \<not> pg_text n \<or>
     n \<notin> keys sv_name (services d) \<and> (128 < length n \<or> 32 < length e \<or> \<not> pg_text e)"

lemma find_by_key: "List.find (\<lambda>s. key s = k) t = None \<longleftrightarrow> k \<notin> keys key t"
  by (auto simp: find_None_iff keys_def)

lemma get_or_create_service_error:
  "get_or_create_service n e w = (Inl x, w1) \<Longrightarrow> x = DataErr \<and> w1 = rollback w \<and> service_refused n e (work w)"
  using find_by_key [of sv_name n "services (work w)"]
  by (auto simp: get_or_create_service_def service_refused_def split: option.splits if_splits prod.splits)

lemma get_or_create_service_done:
  "get_or_create_service n e w = (Inr s, w1) \<Longrightarrow> \<not> service_refused n e (work w)"
  using find_by_key [of sv_name n "services (work w)"]
  by (auto simp: get_or_create_service_def service_refused_def split: option.splits if_splits prod.splits)

lemma store_alert_effect:
  assumes "store_alert p s w = (Inr a, w1)" "world_ok w" "s \<in> set (services (work w))"
  shows "world_ok w1" "work w1 = work w\<lparr>alerts := alerts (work w) @ [a]\<rparr>" "saved w1 = saved w"
    "counters w1 = counters w" "al_id a \<notin> used_ids (work w)" "al_type a = ar_alert_type p"
    "al_severity a = ar_severity p" "al_service a = sv_id s" "al_external_id a = ar_external_id p"
    "al_started_at a = ar_started_at p"
proof -
  let ?mk = "\<lambda>u. \<lparr>al_id = u, al_external_id = ar_external_id p,
          al_service = sv_id s, al_type = ar_alert_type p, al_severity = ar_severity p,
          al_started_at = ar_started_at p, al_resolved_at = None, al_raw_payload = p\<rparr>"
  have n: "ar_external_id p = Some x \<Longrightarrow> x \<notin> set (external_ids (alerts (work w)))" for x
    using assms(1) by (auto simp: store_alert_def split: if_splits)
  have e: "(a, w1) = add_alert ?mk w"
    using assms(1) by (auto simp: store_alert_def split: if_splits prod.splits)
  have "world_ok (snd (add_alert ?mk w))"
    using assms(2,3) n by (intro add_alert_ok) (auto simp: keys_def)
  then show "world_ok w1" using e by (metis snd_conv)
  show "work w1 = work w\<lparr>alerts := alerts (work w) @ [a]\<rparr>" "saved w1 = saved w"
    "counters w1 = counters w" "al_id a \<notin> used_ids (work w)" "al_type a = ar_alert_type p"
    "al_severity a = ar_severity p" "al_service a = sv_id s" "al_external_id a = ar_external_id p"
    "al_started_at a = ar_started_at p"
    using e new_key [OF assms(2)] by (auto simp: add_alert_def new_uuid_def with_work_def)
qed

lemma store_alert_error:
  "store_alert p s w = (Inl x, w1) \<Longrightarrow> w1 = rollback w \<and>
   (x = DataErr \<and> \<not> alert_storable p \<or>
    x = IntegrityErr \<and> alert_storable p \<and> (\<exists>e \<in> set (external_ids (alerts (work w))). ar_external_id p = Some e))"
  by (auto simp: store_alert_def split: if_splits prod.splits)

lemma store_alert_done:
  "store_alert p s w = (Inr a, w1) \<Longrightarrow> alert_storable p \<and>
   \<not> (\<exists>e \<in> set (external_ids (alerts (work w))). ar_external_id p = Some e)"
  by (auto simp: store_alert_def split: if_splits prod.splits)

text \<open>The correlation query: what a result is, and that it is found when there is one.\<close>

definition correlates :: "db \<Rightarrow> uuid \<Rightarrow> str \<Rightarrow> datetime \<Rightarrow> int \<Rightarrow> incident \<Rightarrow> bool" where
  "correlates d sid ty t ws i \<longleftrightarrow> i \<in> set (incidents d) \<and> inc_service i = sid \<and>
     inc_status i \<notin> set TERMINAL_INCIDENT_STATUSES \<and>
     (\<exists>a \<in> set (alerts d). (inc_id i, al_id a) \<in> keys (\<lambda>l. (ia_incident l, ia_alert l)) (incident_alerts d) \<and>
        al_type a = ty \<and> \<bar>as_utc (al_started_at a) - as_utc t\<bar> \<le> seconds ws)"

lemma set_correlated_rows: "set (correlated_rows d sid ty t ws) = {i. correlates d sid ty t ws i}"
proof -
  have r: "i \<in> set (correlated_rows d sid ty t ws) \<longleftrightarrow> i \<in> set (incidents d) \<and>
      (\<exists>l \<in> set (incident_alerts d). \<exists>a \<in> set (alerts d).
         ia_incident l = inc_id i \<and> al_id a = ia_alert l \<and> inc_service i = sid \<and>
         inc_status i \<notin> set TERMINAL_INCIDENT_STATUSES \<and> al_type a = ty \<and>
         as_utc (al_started_at a) \<ge> as_utc t - seconds ws \<and>
         as_utc (al_started_at a) \<le> as_utc t + seconds ws)" for i
    by (simp add: correlated_rows_def) blast
  have w: "\<bar>x - y\<bar> \<le> z \<longleftrightarrow> x \<ge> y - z \<and> x \<le> y + z" for x y z :: int by arith
  have k: "(i, a) \<in> keys (\<lambda>l. (ia_incident l, ia_alert l)) t \<longleftrightarrow>
      (\<exists>l \<in> set t. ia_incident l = i \<and> a = ia_alert l)" for i a t
    by (auto simp: keys_def)
  show ?thesis unfolding set_eq_iff mem_Collect_eq r correlates_def w k by blast
qed

lemma find_correlated_Some:
  assumes "find_correlated_incident d sid ty t ws = Inr (Some i)"
  shows "correlates d sid ty t ws i"
    "correlates d sid ty t ws j \<Longrightarrow> as_utc (inc_started_at j) \<le> as_utc (inc_started_at i)"
proof -
  have f: "first_row (sort_key (\<lambda>i. - as_utc (inc_started_at i)) (correlated_rows d sid ty t ws)) = Some i"
    using assms by (auto simp: find_correlated_incident_def split: sum.splits if_splits)
  have "i \<in> set (correlated_rows d sid ty t ws)" using first_row_Some_in [OF f] by simp
  then show "correlates d sid ty t ws i" by (simp add: set_correlated_rows)
  show "as_utc (inc_started_at j) \<le> as_utc (inc_started_at i)" if "correlates d sid ty t ws j"
    using first_row_sort_min [OF f, of j] that by (simp add: set_correlated_rows)
qed

lemma find_correlated_None:
  assumes "find_correlated_incident d sid ty t ws = Inr None"
  shows "\<not> correlates d sid ty t ws i"
proof -
  have "first_row (sort_key (\<lambda>i. - as_utc (inc_started_at i)) (correlated_rows d sid ty t ws)) = None"
    using assms by (auto simp: find_correlated_incident_def split: sum.splits if_splits)
  then have "sort_key (\<lambda>i. - as_utc (inc_started_at i)) (correlated_rows d sid ty t ws) = []" by (simp only: first_row_None)
  then have "set (correlated_rows d sid ty t ws) = {}" by (metis set_empty set_sort)
  then show ?thesis by (auto simp: set_correlated_rows)
qed

lemma find_correlated_cases:
  "find_correlated_incident d sid ty t ws =
     (if \<not> in_range (local_of t - seconds ws) \<or> \<not> in_range (local_of t + seconds ws) then Inl OverflowErr
      else if \<not> in_range (as_utc t - seconds ws) \<or> \<not> in_range (as_utc t + seconds ws) then Inl DataErr
      else Inr (first_row (sort_key (\<lambda>i. - as_utc (inc_started_at i)) (correlated_rows d sid ty t ws))))"
  by (simp add: find_correlated_incident_def shift_def)

lemma escalate_severity_effect:
  assumes "escalate_severity i sev w = (i', w')" "world_ok w" "i \<in> set (incidents (work w))"
  shows "world_ok w'" "i' = i\<lparr>inc_severity := max (inc_severity i) sev\<rparr>"
    "work w' = work w\<lparr>incidents := row_set inc_id i' (incidents (work w)), events := events (work w')\<rparr>"
    "saved w' = saved w" "counters w' = counters w"
proof -
  have d: "db_ok (work w)" using assms(2) by (rule world_okD)
  then have u: "distinct (map inc_id (incidents (work w)))" and
    fk: "inc_service i \<in> keys sv_id (services (work w))"
    using assms(3) by (auto simp: db_ok_def incidents_ok_def)
  have k: "inc_id i \<in> keys inc_id (incidents (work w))" using assms(3) by (auto simp: keys_def)
  show "i' = i\<lparr>inc_severity := max (inc_severity i) sev\<rparr>"
    using assms(1) by (auto simp: escalate_severity_def Let_def max_def less_eq_severity_def split: if_splits
      dest: SEVERITY_RANK_inj)
  show "saved w' = saved w" "counters w' = counters w"
    using assms(1) by (auto simp: escalate_severity_def Let_def write_defs split: if_splits)
  show "work w' = work w\<lparr>incidents := row_set inc_id i' (incidents (work w)), events := events (work w')\<rparr>"
    using assms(1) row_set_self [OF u assms(3)]
    by (auto simp: escalate_severity_def Let_def write_defs split: if_splits)
  show "world_ok w'"
  proof (cases "SEVERITY_RANK sev \<le> SEVERITY_RANK (inc_severity i)")
    case True
    then show ?thesis using assms(1,2) by (simp add: escalate_severity_def)
  next
    case False
    have "world_ok (set_incident (i\<lparr>inc_severity := sev\<rparr>) w)"
      using assms(2) fk by (intro set_incident_ok) simp_all
    moreover have "inc_id i \<in> keys inc_id (incidents (work (set_incident (i\<lparr>inc_severity := sev\<rparr>) w)))"
      using k by (simp add: set_incident_def with_work_def keys_row_set)
    ultimately show ?thesis
      using False assms(1) by (auto simp: escalate_severity_def Let_def intro!: add_event_ok)
  qed
qed

lemma open_incident_effect:
  assumes "open_incident py p s a w = (i, w')" "world_ok w" "s \<in> set (services (work w))"
  shows "world_ok w'" "inc_service i = sv_id s" "inc_severity i = ar_severity p" "inc_status i = NEW"
    "inc_title i = incident_title p" "inc_started_at i = ar_started_at p" "inc_id i \<notin> used_ids (work w)"
    "work w' = work w\<lparr>incidents := incidents (work w) @ [i], events := events (work w')\<rparr>"
    "saved w' = saved w" "counters w' = counters w"
proof -
  let ?mk = "\<lambda>u. \<lparr>inc_id = u, inc_service = sv_id s, inc_title = incident_title p,
         inc_description = Some (incident_description py p), inc_severity = ar_severity p,
         inc_status = NEW, inc_started_at = ar_started_at p, inc_resolved_at = None\<rparr>"
  have i: "i = ?mk (uuids w (uuid_count w))"
    using assms(1) by (auto simp: open_incident_def write_defs)
  have "world_ok (snd (add_incident ?mk w))"
    using assms(2,3) by (intro add_incident_ok) (auto simp: keys_def)
  then have "world_ok (add_event (inc_id i) INCIDENT_CREATED m md (snd (add_incident ?mk w)))" for m md
    by (rule add_event_ok) (simp add: i add_incident_def new_uuid_def with_work_def keys_append keys_Cons)
  then show "world_ok w'" using assms(1) by (auto simp: open_incident_def split: prod.splits)
  show "inc_service i = sv_id s" "inc_severity i = ar_severity p" "inc_status i = NEW"
    "inc_title i = incident_title p" "inc_started_at i = ar_started_at p" by (simp_all add: i)
  show "inc_id i \<notin> used_ids (work w)" using new_key [OF assms(2)] by (simp add: i)
  show "work w' = work w\<lparr>incidents := incidents (work w) @ [i], events := events (work w')\<rparr>"
    "saved w' = saved w" "counters w' = counters w"
    using assms(1) by (auto simp: open_incident_def write_defs)
qed

lemma join_incident_effect:
  assumes "join_incident py p ws a i w = (i', w')" "world_ok w" "i \<in> set (incidents (work w))"
  shows "world_ok w'" "i' = i\<lparr>inc_severity := max (inc_severity i) (ar_severity p)\<rparr>"
    "work w' = work w\<lparr>incidents := row_set inc_id i' (incidents (work w)), events := events (work w')\<rparr>"
    "saved w' = saved w" "counters w' = counters w"
proof -
  let ?w = "add_event (inc_id i) ALERT_CORRELATED
          (''Alert '' @ ar_alert_type p @ '' correlated into this incident (within '' @
           str_int ws @ ''s window).'')
          [(''alert_id'', JStr (uuid_text py (al_id a)))] w"
  have k: "world_ok ?w" using assms(2,3) by (intro add_event_ok) (auto simp: keys_def)
  have e: "escalate_severity i (ar_severity p) ?w = (i', w')"
    using assms(1) by (simp add: join_incident_def)
  have m: "i \<in> set (incidents (work ?w))" using assms(3) by (simp add: write_defs)
  note f = escalate_severity_effect [OF e k m]
  show "world_ok w'" "i' = i\<lparr>inc_severity := max (inc_severity i) (ar_severity p)\<rparr>" using f by auto
  show "work w' = work w\<lparr>incidents := row_set inc_id i' (incidents (work w)), events := events (work w')\<rparr>"
    "saved w' = saved w" "counters w' = counters w"
    using f(3-5) by (simp_all add: write_defs)
qed

lemma correlates_add_alert:
  assumes "db_ok d" "al_id a \<notin> keys al_id (alerts d)"
  shows "correlates (d\<lparr>services := ss, alerts := alerts d @ [a]\<rparr>) sid ty t ws i \<longleftrightarrow> correlates d sid ty t ws i"
proof -
  have "(inc_id i, al_id a) \<notin> keys (\<lambda>l. (ia_incident l, ia_alert l)) (incident_alerts d)"
    using assms by (auto simp: db_ok_def incident_alerts_ok_def keys_def)
  then show ?thesis by (auto simp: correlates_def)
qed

text \<open>The net effect of an ingestion that is not a duplicate.\<close>

record ingested =
  in_service :: service
  in_alert :: alert
  in_incident :: incident

definition ingest_effect ::
    "alert_request \<Rightarrow> int \<Rightarrow> world \<Rightarrow> ingest_result \<Rightarrow> world \<Rightarrow> ingested \<Rightarrow> bool" where
  "ingest_effect p ws w r w' g \<longleftrightarrow>
     (let s = in_service g; a = in_alert g; i = in_incident g in
      world_ok w' \<and> saved w' = work w' \<and>
      s \<in> set (services (work w')) \<and> sv_name s = ar_service_name p \<and>
      al_id a \<notin> used_ids (work w) \<and> al_type a = ar_alert_type p \<and> al_severity a = ar_severity p \<and>
      al_service a = sv_id s \<and> al_external_id a = ar_external_id p \<and> al_started_at a = ar_started_at p \<and>
      inc_service i = sv_id s \<and>
      work w' = work w\<lparr>services := services (work w'), alerts := alerts (work w) @ [a],
        incidents := incidents (work w'), events := events (work w'),
        incident_alerts := incident_alerts (work w) @ [\<lparr>ia_incident = inc_id i, ia_alert = al_id a\<rparr>]\<rparr> \<and>
      r = \<lparr>ir_alert_id = al_id a, ir_incident_id = inc_id i, ir_status = inc_status i,
        ir_correlated = ir_correlated r, ir_service_name = sv_name s, ir_duplicate = False\<rparr> \<and>
      counters w' = counters w @ [Alerts_ingested (sv_name s) (ar_alert_type p) (ar_severity p),
        if ir_correlated r then Alerts_correlated (sv_name s) (ar_alert_type p)
        else Incidents_created (sv_name s) (ar_severity p)] \<and>
      (if ir_correlated r
       then \<exists>i0. correlates (work w) (sv_id s) (ar_alert_type p) (ar_started_at p) ws i0 \<and>
              (\<forall>j. correlates (work w) (sv_id s) (ar_alert_type p) (ar_started_at p) ws j \<longrightarrow>
                 as_utc (inc_started_at j) \<le> as_utc (inc_started_at i0)) \<and>
              i = i0\<lparr>inc_severity := max (inc_severity i0) (ar_severity p)\<rparr> \<and>
              incidents (work w') = row_set inc_id i (incidents (work w))
       else (\<forall>j. \<not> correlates (work w) (sv_id s) (ar_alert_type p) (ar_started_at p) ws j) \<and>
              inc_id i \<notin> used_ids (work w) \<and> inc_status i = NEW \<and> inc_severity i = ar_severity p \<and>
              inc_title i = incident_title p \<and> inc_started_at i = ar_started_at p \<and>
              incidents (work w') = incidents (work w) @ [i]))"

lemma used_ids_parts: "x \<notin> used_ids d \<Longrightarrow> x \<notin> keys al_id (alerts d) \<and> x \<notin> keys inc_id (incidents d)"
  by (simp add: used_ids_def)

lemma link_fresh_ok:
  assumes "world_ok w" "i \<in> keys inc_id (incidents (work w))" "a \<in> keys al_id (alerts (work w))"
    "a \<notin> keys ia_alert (incident_alerts (work w))"
  shows "world_ok (commit (link_alert i a w))"
  using assms by (intro commit_ok link_alert_ok) (auto simp: keys_def)

lemma ingest_new_effect:
  assumes "ingest_new py p ws w = (Inr r, w')" "world_ok w"
  shows "\<exists>g. ingest_effect p ws w r w' g"
proof -
  obtain s w1 where g: "get_or_create_service (ar_service_name p) (label p ''environment'' ''staging'') w = (Inr s, w1)"
    using assms(1) by (auto simp: ingest_new_def bind_Inr)
  note ge = get_or_create_service_effect [OF g assms(2)]
  obtain a w2 where st: "store_alert p s w1 = (Inr a, w2)"
    using assms(1) by (auto simp: ingest_new_def bind_Inr g)
  note se = store_alert_effect [OF st ge(1,2)]
  have u1: "used_ids (work w) \<subseteq> used_ids (work w1)"
    using ge(2) assms(1) g unfolding get_or_create_service_def
    by (auto simp: used_ids_def add_service_def write_defs keys_append split: option.splits if_splits prod.splits)
  have u2: "used_ids (work w) \<subseteq> used_ids (work w2)"
    using u1 unfolding se(2) by (auto simp: used_ids_def keys_append)
  have ss2: "services (work w2) = services (work w1)" by (simp add: se(2))
  have w2: "work w2 = work w\<lparr>services := services (work w2), alerts := alerts (work w) @ [a]\<rparr>"
    unfolding se(2) by (subst (1 2) ge(6)) simp
  have aid: "al_id a \<notin> used_ids (work w)" using se(5) u1 by auto
  obtain f where f_def: "find_correlated_incident (work w2) (sv_id s) (ar_alert_type p) (ar_started_at p) ws = Inr f"
    and storable: "\<not> (f = None \<and> \<not> pg_text (incident_description py p))"
    using assms(1) by (auto simp: ingest_new_def g st Let_def split: sum.splits if_splits)
  obtain i w3 where o: "(case f of None \<Rightarrow> open_incident py p s a w2
      | Some i \<Rightarrow> join_incident py p ws a i w2) = (i, w3)" by fastforce
  let ?w4 = "commit (link_alert (inc_id i) (al_id a) w3)"
  have r: "r = \<lparr>ir_alert_id = al_id a, ir_incident_id = inc_id i, ir_status = inc_status i,
        ir_correlated = (f \<noteq> None), ir_service_name = sv_name s, ir_duplicate = False\<rparr>"
    and w': "w' = count_ingested p s (f \<noteq> None) ?w4"
    using assms(1) o storable by (auto simp: ingest_new_def g st f_def Let_def)
  have c: "correlates (work w2) sid ty t k j \<longleftrightarrow> correlates (work w) sid ty t k j" for sid ty t k j
    using correlates_add_alert [OF world_okD [OF assms(2)]] used_ids_parts [OF aid] by (subst w2) blast
  have fk: "al_id a \<notin> keys ia_alert (incident_alerts (work w))"
    using world_okD [OF assms(2)] used_ids_parts [OF aid]
    by (auto simp: db_ok_def incident_alerts_ok_def keys_def)
  have s2: "s \<in> set (services (work w2))" using ge(2) ss2 by simp
  have step: "world_ok w3 \<and> counters w3 = counters w2 \<and> inc_service i = sv_id s \<and>
    work w3 = work w2\<lparr>incidents := incidents (work w3), events := events (work w3)\<rparr> \<and>
    inc_id i \<in> keys inc_id (incidents (work w3)) \<and>
    (if f \<noteq> None
       then \<exists>i0. correlates (work w) (sv_id s) (ar_alert_type p) (ar_started_at p) ws i0 \<and>
              (\<forall>j. correlates (work w) (sv_id s) (ar_alert_type p) (ar_started_at p) ws j \<longrightarrow>
                 as_utc (inc_started_at j) \<le> as_utc (inc_started_at i0)) \<and>
              i = i0\<lparr>inc_severity := max (inc_severity i0) (ar_severity p)\<rparr> \<and>
              incidents (work w3) = row_set inc_id i (incidents (work w))
       else (\<forall>j. \<not> correlates (work w) (sv_id s) (ar_alert_type p) (ar_started_at p) ws j) \<and>
              inc_id i \<notin> used_ids (work w) \<and> inc_status i = NEW \<and> inc_severity i = ar_severity p \<and>
              inc_title i = incident_title p \<and> inc_started_at i = ar_started_at p \<and>
              incidents (work w3) = incidents (work w) @ [i])"
  proof (cases f)
    case None
    have oo: "open_incident py p s a w2 = (i, w3)" using o None by simp
    note e = open_incident_effect [OF oo se(1) s2]
    have "\<forall>j. \<not> correlates (work w2) (sv_id s) (ar_alert_type p) (ar_started_at p) ws j"
      using find_correlated_None f_def unfolding None by blast
    moreover have "incidents (work w3) = incidents (work w) @ [i]"
      by (subst e(8), subst w2) simp
    moreover have "inc_id i \<notin> used_ids (work w)" using e(7) u2 by auto
    moreover have "work w3 = work w2\<lparr>incidents := incidents (work w3), events := events (work w3)\<rparr>"
      by (subst (1 2) e(8)) simp
    ultimately show ?thesis using e(1-6,10) None by (simp add: c keys_append keys_Cons)
  next
    case (Some i0)
    have oo: "join_incident py p ws a i0 w2 = (i, w3)" using o Some by simp
    have fc: "correlates (work w2) (sv_id s) (ar_alert_type p) (ar_started_at p) ws i0"
      using find_correlated_Some(1) f_def unfolding Some by blast
    have mx: "\<forall>j. correlates (work w2) (sv_id s) (ar_alert_type p) (ar_started_at p) ws j \<longrightarrow>
                 as_utc (inc_started_at j) \<le> as_utc (inc_started_at i0)"
      using find_correlated_Some(2) f_def unfolding Some by blast
    have i0: "i0 \<in> set (incidents (work w2))" "inc_service i0 = sv_id s"
      using fc by (simp_all add: correlates_def)
    note e = join_incident_effect [OF oo se(1) i0(1)]
    have inc: "incidents (work w3) = row_set inc_id i (incidents (work w))"
      by (subst e(3), subst w2) simp
    have "incidents (work w2) = incidents (work w)" by (subst w2) simp
    then have "inc_id i \<in> keys inc_id (incidents (work w3))"
      unfolding inc keys_row_set using i0(1) e(2) by (auto simp: keys_def)
    moreover have "work w3 = work w2\<lparr>incidents := incidents (work w3), events := events (work w3)\<rparr>"
      by (subst (1 2) e(3)) simp
    moreover have "inc_service i = sv_id s" using e(2) i0(2) by simp
    ultimately show ?thesis using e(1,2,5) Some fc mx inc unfolding c by auto
  qed
  have st3: "work w3 = work w2\<lparr>incidents := incidents (work w3), events := events (work w3)\<rparr>"
    using step by blast
  have w3: "work w3 = work w\<lparr>services := services (work w3), alerts := alerts (work w) @ [a],
      incidents := incidents (work w3), events := events (work w3)\<rparr>"
    by (subst (1 2) st3, subst (1 2) w2) simp
  have a3: "al_id a \<in> keys al_id (alerts (work w3))" "al_id a \<notin> keys ia_alert (incident_alerts (work w3))"
    using fk by (subst w3, simp add: keys_append keys_Cons)+
  have ok: "world_ok ?w4" using step a3 by (intro link_fresh_ok) auto
  have ok': "world_ok w'" using ok by (simp add: w' count_ingested_def Let_def count_metric_ok)
  have s3: "services (work w3) = services (work w2)" by (subst st3) simp
  have ww: "work w' = work w3\<lparr>incident_alerts := incident_alerts (work w3) @ [\<lparr>ia_incident = inc_id i, ia_alert = al_id a\<rparr>]\<rparr>"
    "saved w' = work w'"
    by (simp_all add: w' count_ingested_def Let_def write_defs)
  have cc: "counters w' = counters w @ [Alerts_ingested (sv_name s) (ar_alert_type p) (ar_severity p),
        if f \<noteq> None then Alerts_correlated (sv_name s) (ar_alert_type p)
        else Incidents_created (sv_name s) (ar_severity p)]"
    using step se(4) ge(5) by (simp add: w' count_ingested_def Let_def write_defs)
  have www: "work w' = work w\<lparr>services := services (work w'), alerts := alerts (work w) @ [a],
        incidents := incidents (work w'), events := events (work w'),
        incident_alerts := incident_alerts (work w) @ [\<lparr>ia_incident = inc_id i, ia_alert = al_id a\<rparr>]\<rparr>"
    unfolding ww(1) by (subst (1 2 3 4 5) w3) simp
  have iw: "incidents (work w') = incidents (work w3)" "services (work w') = services (work w2)"
    by (simp_all add: ww s3)
  have "ingest_effect p ws w r w' \<lparr>in_service = s, in_alert = a, in_incident = i\<rparr>"
    unfolding ingest_effect_def Let_def
    using ok' ww(2) s2 ge(3) aid se(6-10) step cc www by (simp add: r iw)
  then show ?thesis ..
qed

subsection \<open>Alerts of one incident\<close>

definition linked :: "db \<Rightarrow> incident \<Rightarrow> alert \<Rightarrow> bool" where
  "linked d i a \<longleftrightarrow> i \<in> set (incidents d) \<and> a \<in> set (alerts d) \<and>
     (inc_id i, al_id a) \<in> keys (\<lambda>l. (ia_incident l, ia_alert l)) (incident_alerts d)"

text \<open>
  Every alert belongs to exactly one incident; an incident's alerts are all of its service and
  of one type; its severity is the maximum of theirs.
\<close>

definition grouping_ok :: "db \<Rightarrow> bool" where
  "grouping_ok d \<longleftrightarrow>
     distinct (map ia_alert (incident_alerts d)) \<and>
     keys ia_alert (incident_alerts d) = keys al_id (alerts d) \<and>
     (\<forall>i a. linked d i a \<longrightarrow> al_service a = inc_service i \<and> al_severity a \<le> inc_severity i) \<and>
     (\<forall>i a b. linked d i a \<longrightarrow> linked d i b \<longrightarrow> al_type a = al_type b) \<and>
     (\<forall>i \<in> set (incidents d). \<exists>a. linked d i a \<and> al_severity a = inc_severity i)"

lemma linked_alert_unique:
  assumes "grouping_ok d" "db_ok d" "linked d i a" "linked d j a"
  shows "i = j"
proof -
  obtain l m where lm: "l \<in> set (incident_alerts d)" "m \<in> set (incident_alerts d)"
    "ia_incident l = inc_id i" "ia_incident m = inc_id j" "ia_alert l = al_id a" "ia_alert m = al_id a"
    using assms(3,4) by (auto simp: linked_def keys_def)
  have "l = m" using assms(1) lm by (intro same_key [of ia_alert]) (auto simp: grouping_ok_def)
  then show ?thesis
    using lm assms(2-) by (intro same_key [of inc_id "incidents d"]) (auto simp: db_ok_def incidents_ok_def linked_def)
qed

lemma linked_exists:
  assumes "grouping_ok d" "db_ok d" "a \<in> set (alerts d)"
  obtains i s where "linked d i a" "s \<in> set (services d)" "sv_id s = al_service a"
proof -
  have "al_id a \<in> keys ia_alert (incident_alerts d)"
    using assms(1,3) by (auto simp: grouping_ok_def keys_def)
  then obtain l where l: "l \<in> set (incident_alerts d)" "ia_alert l = al_id a" by (auto simp: keys_def)
  then have "ia_incident l \<in> keys inc_id (incidents d)"
    using assms(2) by (auto simp: db_ok_def incident_alerts_ok_def)
  then obtain i where i: "i \<in> set (incidents d)" "inc_id i = ia_incident l" by (auto simp: keys_def)
  have "linked d i a" using l i assms(3) by (auto simp: linked_def keys_def image_iff)
  moreover have "al_service a \<in> keys sv_id (services d)"
    using assms(2,3) by (auto simp: db_ok_def alerts_ok_def)
  ultimately show thesis using that by (auto simp: keys_def)
qed

subsection \<open>The duplicate check\<close>

lemma external_ids_iff: "x \<in> set (external_ids t) \<longleftrightarrow> (\<exists>a \<in> set t. al_external_id a = Some x)"
  by (induction t) (auto simp: external_ids_def List.map_filter_def)

lemma external_ids_Cons:
  "external_ids (c # u) = (case al_external_id c of None \<Rightarrow> external_ids u | Some y \<Rightarrow> y # external_ids u)"
  by (auto simp: external_ids_def List.map_filter_def split: option.splits)

lemma external_id_unique:
  "distinct (external_ids t) \<Longrightarrow> a \<in> set t \<Longrightarrow> b \<in> set t \<Longrightarrow> al_external_id a = Some x \<Longrightarrow>
   al_external_id b = Some x \<Longrightarrow> a = b"
proof (induction t)
  case (Cons c u)
  have "al_external_id c = Some x \<Longrightarrow> \<forall>e \<in> set u. al_external_id e \<noteq> Some x"
    using Cons.prems(1) external_ids_iff [of x u] by (auto simp: external_ids_Cons)
  moreover have "distinct (external_ids u)"
    using Cons.prems(1) by (auto simp: external_ids_Cons split: option.splits)
  ultimately show ?case using Cons by auto
qed simp

lemma duplicate_rows_None:
  "x \<notin> set (external_ids (alerts d)) \<Longrightarrow> duplicate_rows d x = []"
  by (auto simp: duplicate_rows_def external_ids_iff)

lemma duplicate_rows_one:
  assumes "grouping_ok d" "db_ok d" "a \<in> set (alerts d)" "al_external_id a = Some x"
  obtains i s where "duplicate_rows d x = [(a, i, s)]" "linked d i a"
proof -
  obtain i s where lk: "linked d i a" "s \<in> set (services d)" "sv_id s = al_service a"
    using linked_exists [OF assms(1-3)] .
  then obtain l where l: "l \<in> set (incident_alerts d)" "ia_incident l = inc_id i" "ia_alert l = al_id a"
    by (auto simp: linked_def keys_def)
  have dist: "distinct (map al_id (alerts d))" "distinct (map ia_alert (incident_alerts d))"
    "distinct (map inc_id (incidents d))" "distinct (map sv_id (services d))" "distinct (external_ids (alerts d))"
    using assms(1,2) by (simp_all add: grouping_ok_def db_ok_def table_ok_defs)
  have i: "i \<in> set (incidents d)" using lk(1) by (simp add: linked_def)
  let ?s = "\<lambda>a l i s. if ia_alert l = al_id a \<and> inc_id i = ia_incident l \<and> sv_id s = al_service a \<and>
      al_external_id a = Some x then [(a, i, s)] else []"
  let ?i = "\<lambda>a l i. concat (map (?s a l i) (services d))"
  let ?l = "\<lambda>a l. concat (map (?i a l) (incidents d))"
  let ?a = "\<lambda>a. concat (map (?l a) (incident_alerts d))"
  have rows: "distinct (alerts d)" "distinct (incident_alerts d)" "distinct (incidents d)" "distinct (services d)"
    using dist by (simp_all add: distinct_map)
  have oa: "b \<in> set (alerts d) \<Longrightarrow> b \<noteq> a \<Longrightarrow> al_external_id b \<noteq> Some x" for b
    using external_id_unique [OF dist(5) _ assms(3) _ assms(4)] by blast
  have ol: "m \<in> set (incident_alerts d) \<Longrightarrow> m \<noteq> l \<Longrightarrow> ia_alert m \<noteq> al_id a" for m
    using same_key [OF dist(2) _ l(1)] l(3) by metis
  have oi: "j \<in> set (incidents d) \<Longrightarrow> j \<noteq> i \<Longrightarrow> inc_id j \<noteq> ia_incident l" for j
    using same_key [OF dist(3) _ i] l(2) by metis
  have os: "t \<in> set (services d) \<Longrightarrow> t \<noteq> s \<Longrightarrow> sv_id t \<noteq> al_service a" for t
    using same_key [OF dist(4) _ lk(2)] lk(3) by metis
  have "duplicate_rows d x = concat (map ?a (alerts d))" by (simp add: duplicate_rows_def)
  also have "\<dots> = ?a a" by (rule concat_map_single [OF assms(3) rows(1)]) (simp add: oa)
  also have "\<dots> = ?l a l" by (rule concat_map_single [OF l(1) rows(2)]) (simp add: ol)
  also have "\<dots> = ?i a l i" by (rule concat_map_single [OF i rows(3)]) (simp add: oi)
  also have "\<dots> = ?s a l i s" by (rule concat_map_single [OF lk(2) rows(4)]) (simp add: os)
  also have "\<dots> = [(a, i, s)]" using l lk assms(4) by simp
  finally show thesis using that lk(1) by blast
qed

subsection \<open>Ingestion keeps the grouping\<close>

lemma correlates_linked:
  "correlates d sid ty t ws i \<Longrightarrow> \<exists>a. linked d i a \<and> al_type a = ty"
  by (auto simp: correlates_def linked_def)

text \<open>A new alert on a new incident.\<close>

lemma grouping_open:
  assumes ok: "db_ok d" "grouping_ok d"
    and a: "al_id a \<notin> keys al_id (alerts d)" and i: "inc_id i \<notin> keys inc_id (incidents d)"
    and same: "al_service a = inc_service i" "al_severity a = inc_severity i"
  shows "grouping_ok (d\<lparr>services := ss, alerts := alerts d @ [a], incidents := incidents d @ [i],
    events := ev, incident_alerts := incident_alerts d @ [\<lparr>ia_incident = inc_id i, ia_alert = al_id a\<rparr>]\<rparr>)"
    (is "grouping_ok ?d")
proof -
  have fk: "ia_incident l \<in> keys inc_id (incidents d) \<and> ia_alert l \<in> keys al_id (alerts d)"
    if "l \<in> set (incident_alerts d)" for l
    using that ok(1) by (auto simp: db_ok_def incident_alerts_ok_def)
  have L: "linked ?d j b \<longleftrightarrow> linked d j b \<or> (j = i \<and> b = a)" for j b
  proof -
    have "(inc_id j, al_id b) \<in> keys (\<lambda>l. (ia_incident l, ia_alert l)) (incident_alerts d) \<Longrightarrow>
       inc_id j \<in> keys inc_id (incidents d) \<and> al_id b \<in> keys al_id (alerts d)"
      using fk by (auto simp: keys_def)
    moreover have "j \<in> set (incidents d) \<Longrightarrow> inc_id j \<noteq> inc_id i" using not_in_keysD [OF i] by blast
    moreover have "b \<in> set (alerts d) \<Longrightarrow> al_id b \<noteq> al_id a" using not_in_keysD [OF a] by blast
    ultimately show ?thesis using a i by (auto simp: linked_def keys_append keys_Cons keys_Nil)
  qed
  have ni: "\<not> linked d i b" for b using i by (auto simp: linked_def keys_def)
  have na: "al_id a \<notin> keys ia_alert (incident_alerts d)" using fk a by (auto simp: keys_def)
  have g: "distinct (map ia_alert (incident_alerts d))" "keys ia_alert (incident_alerts d) = keys al_id (alerts d)"
    "\<And>j b. linked d j b \<Longrightarrow> al_service b = inc_service j \<and> al_severity b \<le> inc_severity j"
    "\<And>j b c. linked d j b \<Longrightarrow> linked d j c \<Longrightarrow> al_type b = al_type c"
    "\<And>j. j \<in> set (incidents d) \<Longrightarrow> \<exists>b. linked d j b \<and> al_severity b = inc_severity j"
    using ok(2) unfolding grouping_ok_def by blast+
  have "distinct (map ia_alert (incident_alerts ?d)) \<and> keys ia_alert (incident_alerts ?d) = keys al_id (alerts ?d)"
    using g(1,2) na by (auto simp: keys_append keys_Cons keys_Nil keys_def)
  moreover have "al_service b = inc_service j \<and> al_severity b \<le> inc_severity j" if "linked ?d j b" for j b
    using that g(3) same unfolding L by auto
  moreover have "al_type b = al_type c" if "linked ?d j b" "linked ?d j c" for j b c
    using that ni g(4) unfolding L by blast
  moreover have "\<exists>b. linked ?d j b \<and> al_severity b = inc_severity j" if "j \<in> set (incidents ?d)" for j
    using that g(5) same(2) unfolding L by auto
  ultimately show ?thesis unfolding grouping_ok_def by blast
qed

text \<open>A new alert on an incident that is there already, whose severity may rise.\<close>

lemma grouping_join:
  assumes ok: "db_ok d" "grouping_ok d"
    and a: "al_id a \<notin> keys al_id (alerts d)" and i0: "i0 \<in> set (incidents d)"
    and i: "i = i0\<lparr>inc_severity := max (inc_severity i0) (al_severity a)\<rparr>"
    and same: "al_service a = inc_service i" "\<And>b. linked d i0 b \<Longrightarrow> al_type b = al_type a"
  shows "grouping_ok (d\<lparr>services := ss, alerts := alerts d @ [a], incidents := row_set inc_id i (incidents d),
    events := ev, incident_alerts := incident_alerts d @ [\<lparr>ia_incident = inc_id i, ia_alert = al_id a\<rparr>]\<rparr>)"
    (is "grouping_ok ?d")
proof -
  have dist: "distinct (map inc_id (incidents d))" using ok(1) by (simp add: db_ok_def incidents_ok_def)
  have id: "inc_id i = inc_id i0" by (simp add: i)
  have fk: "ia_alert l \<in> keys al_id (alerts d)" if "l \<in> set (incident_alerts d)" for l
    using that ok(1) by (auto simp: db_ok_def incident_alerts_ok_def)
  have na: "al_id a \<notin> keys ia_alert (incident_alerts d)" using fk a by (auto simp: keys_def)
  have mem: "j \<in> set (row_set inc_id i (incidents d)) \<longleftrightarrow>
      (j \<in> set (incidents d) \<and> j \<noteq> i0 \<and> inc_id j \<noteq> inc_id i0) \<or> j = i" for j
    using i0 same_key [OF dist _ i0] by (auto simp: set_row_set id keys_def)
  have L: "linked ?d j b \<longleftrightarrow> (linked d j b \<and> inc_id j \<noteq> inc_id i0) \<or> (j = i \<and> (linked d i0 b \<or> b = a))" for j b
  proof -
    have na': "(x, al_id a) \<notin> keys (\<lambda>l. (ia_incident l, ia_alert l)) (incident_alerts d)" for x
      using na by (auto simp: keys_def)
    have "b \<in> set (alerts d) \<Longrightarrow> al_id b \<noteq> al_id a" using not_in_keysD [OF a] by blast
    then show ?thesis using i0 na' by (auto simp: linked_def mem keys_append keys_Cons keys_Nil id)
  qed
  have g: "distinct (map ia_alert (incident_alerts d))" "keys ia_alert (incident_alerts d) = keys al_id (alerts d)"
    "\<And>j b. linked d j b \<Longrightarrow> al_service b = inc_service j \<and> al_severity b \<le> inc_severity j"
    "\<And>j b c. linked d j b \<Longrightarrow> linked d j c \<Longrightarrow> al_type b = al_type c"
    "\<And>j. j \<in> set (incidents d) \<Longrightarrow> \<exists>b. linked d j b \<and> al_severity b = inc_severity j"
    using ok(2) unfolding grouping_ok_def by blast+
  have "distinct (map ia_alert (incident_alerts ?d)) \<and> keys ia_alert (incident_alerts ?d) = keys al_id (alerts ?d)"
    using g(1,2) na by (auto simp: keys_append keys_Cons keys_Nil keys_def)
  moreover have "al_service b = inc_service j \<and> al_severity b \<le> inc_severity j" if "linked ?d j b" for j b
    using that g(3) same(1) unfolding L by (auto simp: i le_max_iff_disj)
  moreover have "al_type b = al_type c" if "linked ?d j b" "linked ?d j c" for j b c
    using that same(2) g(4) unfolding L by (metis id)
  moreover have "\<exists>b. linked ?d j b \<and> al_severity b = inc_severity j" if "j \<in> set (incidents ?d)" for j
  proof (cases "j = i")
    case True
    obtain b where "linked d i0 b" "al_severity b = inc_severity i0" using g(5) [OF i0] by blast
    then show ?thesis unfolding L True by (cases "al_severity a \<le> inc_severity i0") (auto simp: i max_def)
  next
    case False
    then have "j \<in> set (incidents d)" "inc_id j \<noteq> inc_id i0" using that by (simp_all add: mem)
    then show ?thesis using g(5) unfolding L by blast
  qed
  ultimately show ?thesis unfolding grouping_ok_def by blast
qed

lemma ingest_effect_grouping:
  assumes "ingest_effect p ws w r w' g" "world_ok w" "grouping_ok (work w)"
  shows "grouping_ok (work w')"
proof -
  obtain s a i where g: "g = \<lparr>in_service = s, in_alert = a, in_incident = i\<rparr>" by (cases g)
  note e = assms(1) [unfolded ingest_effect_def g Let_def ingested.simps]
  have d: "db_ok (work w)" using assms(2) by (rule world_okD)
  have a: "al_id a \<notin> keys al_id (alerts (work w))" using e by (simp add: used_ids_parts)
  show ?thesis
  proof (cases "ir_correlated r")
    case True
    then obtain i0 where i0: "correlates (work w) (sv_id s) (ar_alert_type p) (ar_started_at p) ws i0"
      "i = i0\<lparr>inc_severity := max (inc_severity i0) (al_severity a)\<rparr>"
      "incidents (work w') = row_set inc_id i (incidents (work w))" using e by auto
    have ty: "linked (work w) i0 b \<Longrightarrow> al_type b = al_type a" for b
      using correlates_linked [OF i0(1)] assms(3) e unfolding grouping_ok_def by metis
    have "i0 \<in> set (incidents (work w))" using i0(1) by (simp add: correlates_def)
    then have "grouping_ok (work w\<lparr>services := services (work w'), alerts := alerts (work w) @ [a],
        incidents := row_set inc_id i (incidents (work w)), events := events (work w'),
        incident_alerts := incident_alerts (work w) @ [\<lparr>ia_incident = inc_id i, ia_alert = al_id a\<rparr>]\<rparr>)"
      using e i0(2) ty by (intro grouping_join [OF d assms(3) a, of i0]) auto
    then show ?thesis using e i0(3) by metis
  next
    case False
    then have i: "inc_id i \<notin> keys inc_id (incidents (work w))" "inc_severity i = ar_severity p"
      "incidents (work w') = incidents (work w) @ [i]" using e by (simp_all add: used_ids_parts)
    have "grouping_ok (work w\<lparr>services := services (work w'), alerts := alerts (work w) @ [a],
        incidents := incidents (work w) @ [i], events := events (work w'),
        incident_alerts := incident_alerts (work w) @ [\<lparr>ia_incident = inc_id i, ia_alert = al_id a\<rparr>]\<rparr>)"
      using e i(2) by (intro grouping_open [OF d assms(3) a i(1)]) auto
    then show ?thesis using e i(3) by metis
  qed
qed

lemma rolled_back: "world_ok w \<Longrightarrow> world_ok (rollback w) \<and> work (rollback w) = saved w \<and> saved (rollback w) = saved w \<and>
    counters (rollback w) = counters w"
  using rollback_ok by (simp add: rollback_def)

lemma ingest_new_error:
  assumes "ingest_new py p ws w = (Inl x, w')" "world_ok w"
  shows "world_ok w' \<and> work w' = saved w \<and> saved w' = saved w \<and> counters w' = counters w"
proof -
  let ?g = "get_or_create_service (ar_service_name p) (label p ''environment'' ''staging'') w"
  show ?thesis
  proof (cases "fst ?g")
    case (Inl e)
    then have "w' = rollback w"
      using get_or_create_service_error [of _ _ w e "snd ?g"] assms(1) by (cases ?g) (auto simp: ingest_new_def)
    then show ?thesis using rolled_back [OF assms(2)] by simp
  next
    case (Inr s)
    then obtain w1 where g: "?g = (Inr s, w1)" by (cases ?g) auto
    note ge = get_or_create_service_effect [OF g assms(2)]
    show ?thesis
    proof (cases "fst (store_alert p s w1)")
      case (Inl e)
      then have "w' = rollback w1"
        using store_alert_error [of p s w1 e "snd (store_alert p s w1)"] assms(1)
        by (cases "store_alert p s w1") (auto simp: ingest_new_def g)
      then show ?thesis using rolled_back [OF ge(1)] ge(4,5) by simp
    next
      case (Inr a)
      then obtain w2 where st: "store_alert p s w1 = (Inr a, w2)" by (cases "store_alert p s w1") auto
      note se = store_alert_effect [OF st ge(1,2)]
      have "w' = rollback w2"
        using assms(1) by (auto simp: ingest_new_def g st Let_def split: sum.splits if_splits prod.splits)
      then show ?thesis using rolled_back [OF se(1)] se(3,4) ge(4,5) by simp
    qed
  qed
qed

subsection \<open>When an ingestion is refused\<close>

text \<open>The error of an ingestion that is not a duplicate, read off the request and the database.\<close>

definition new_refusal :: "pylib \<Rightarrow> alert_request \<Rightarrow> int \<Rightarrow> db \<Rightarrow> exn option" where
  "new_refusal py p ws d =
     (let t = ar_started_at p in
      if service_refused (ar_service_name p) (label p ''environment'' ''staging'') d \<or> \<not> alert_storable p
      then Some DataErr
      else if \<exists>x \<in> set (external_ids (alerts d)). ar_external_id p = Some x
      then Some IntegrityErr
      else if \<not> in_range (local_of t - seconds ws) \<or> \<not> in_range (local_of t + seconds ws)
      then Some OverflowErr
      else if \<not> in_range (as_utc t - seconds ws) \<or> \<not> in_range (as_utc t + seconds ws)
      then Some DataErr
      else if \<not> (\<exists>s \<in> set (services d). sv_name s = ar_service_name p \<and>
                 (\<exists>i. correlates d (sv_id s) (ar_alert_type p) t ws i)) \<and>
              \<not> pg_text (incident_description py p)
      then Some DataErr
      else None)"

lemma get_or_create_service_correlates:
  assumes "get_or_create_service n e w = (Inr s, w1)" "world_ok w"
  shows "(\<exists>i. correlates (work w) (sv_id s) ty t ws i) \<longleftrightarrow>
    (\<exists>q \<in> set (services (work w)). sv_name q = n \<and> (\<exists>i. correlates (work w) (sv_id q) ty t ws i))"
proof -
  have d: "db_ok (work w)" using assms(2) by (rule world_okD)
  show ?thesis
  proof (cases "List.find (\<lambda>s. sv_name s = n) (services (work w))")
    case None
    then have "sv_id s = uuids w (uuid_count w)" and n: "n \<notin> keys sv_name (services (work w))"
      using assms(1) find_by_key [of sv_name n "services (work w)"]
      by (auto simp: get_or_create_service_def add_service_def new_uuid_def Let_def split: if_splits)
    then have "sv_id s \<notin> keys sv_id (services (work w))" using new_key [OF assms(2)] by (simp add: used_ids_def)
    then have "\<not> correlates (work w) (sv_id s) ty t ws i" for i
      using d by (auto simp: correlates_def db_ok_def incidents_ok_def)
    then show ?thesis using n by (auto simp: keys_def)
  next
    case (Some q)
    then have q: "s = q" using assms(1) by (simp add: get_or_create_service_def split: if_splits)
    have q2: "q \<in> set (services (work w))" "sv_name q = n" using Some by (auto simp: find_Some_iff)
    have "q' = q" if "q' \<in> set (services (work w))" "sv_name q' = n" for q'
      using same_key [of sv_name "services (work w)" q' q] that q2 d by (simp add: db_ok_def services_ok_def)
    then show ?thesis using q q2 by blast
  qed
qed

lemma ingest_new_refusal:
  assumes "ingest_new py p ws w = (out, w')" "world_ok w"
  shows "new_refusal py p ws (work w) = (case out of Inl x \<Rightarrow> Some x | Inr _ \<Rightarrow> None)"
proof -
  let ?g = "get_or_create_service (ar_service_name p) (label p ''environment'' ''staging'') w"
  show ?thesis
  proof (cases "fst ?g")
    case (Inl e)
    then have "out = Inl DataErr" "service_refused (ar_service_name p) (label p ''environment'' ''staging'') (work w)"
      using get_or_create_service_error [of _ _ w e "snd ?g"] assms(1) by (cases ?g; auto simp: ingest_new_def)+
    then show ?thesis by (simp add: new_refusal_def)
  next
    case (Inr s)
    then obtain w1 where g: "?g = (Inr s, w1)" by (cases ?g) auto
    note ge = get_or_create_service_effect [OF g assms(2)]
    have sr: "\<not> service_refused (ar_service_name p) (label p ''environment'' ''staging'') (work w)"
      by (rule get_or_create_service_done [OF g])
    have al: "alerts (work w1) = alerts (work w)" by (subst ge(6)) simp
    show ?thesis
    proof (cases "fst (store_alert p s w1)")
      case (Inl e)
      then show ?thesis
        using store_alert_error [of p s w1 e "snd (store_alert p s w1)"] assms(1) sr
        by (cases "store_alert p s w1") (auto simp: ingest_new_def g new_refusal_def al)
    next
      case (Inr a)
      then obtain w2 where st: "store_alert p s w1 = (Inr a, w2)" by (cases "store_alert p s w1") auto
      note se = store_alert_effect [OF st ge(1,2)]
      have ok: "alert_storable p" "\<not> (\<exists>e \<in> set (external_ids (alerts (work w))). ar_external_id p = Some e)"
        using store_alert_done [OF st] al by auto
      have w2: "work w2 = work w\<lparr>services := services (work w2), alerts := alerts (work w) @ [a]\<rparr>"
        unfolding se(2) by (subst (1 2) ge(6)) simp
      have "used_ids (work w) \<subseteq> used_ids (work w1)"
        using g unfolding get_or_create_service_def
        by (auto simp: used_ids_def add_service_def write_defs keys_append split: option.splits if_splits prod.splits)
      then have aid: "al_id a \<notin> keys al_id (alerts (work w))" using se(5) by (auto simp: used_ids_def)
      have c: "correlates (work w2) (sv_id s) ty t ws i \<longleftrightarrow> correlates (work w) (sv_id s) ty t ws i" for ty t i
        using correlates_add_alert [OF world_okD [OF assms(2)] aid] by (subst w2) blast
      define f where "f = find_correlated_incident (work w2) (sv_id s) (ar_alert_type p) (ar_started_at p) ws"
      have n: "f = Inr None \<Longrightarrow> \<not> (\<exists>i. correlates (work w) (sv_id s) (ar_alert_type p) (ar_started_at p) ws i)"
        "f = Inr (Some i) \<Longrightarrow> \<exists>i. correlates (work w) (sv_id s) (ar_alert_type p) (ar_started_at p) ws i" for i
        using find_correlated_None find_correlated_Some(1) c unfolding f_def by blast+
      show ?thesis
      proof (cases f)
        case (Inl x)
        then have "out = Inl x" using assms(1) by (simp add: ingest_new_def g st flip: f_def)
        then show ?thesis
          using Inl sr ok by (auto simp: new_refusal_def f_def find_correlated_cases Let_def split: if_splits)
      next
        case (Inr found)
        then have rg: "in_range (local_of (ar_started_at p) - seconds ws)" "in_range (local_of (ar_started_at p) + seconds ws)"
          "in_range (as_utc (ar_started_at p) - seconds ws)" "in_range (as_utc (ar_started_at p) + seconds ws)"
          by (auto simp: f_def find_correlated_cases split: if_splits)
        have e: "(found = None) = (\<not> (\<exists>q \<in> set (services (work w)). sv_name q = ar_service_name p \<and>
            (\<exists>i. correlates (work w) (sv_id q) (ar_alert_type p) (ar_started_at p) ws i)))"
          using n Inr unfolding get_or_create_service_correlates [OF g assms(2), symmetric] by (cases found) auto
        have "out = Inl DataErr \<longleftrightarrow> found = None \<and> \<not> pg_text (incident_description py p)"
          "\<not> (found = None \<and> \<not> pg_text (incident_description py p)) \<Longrightarrow> \<exists>r. out = Inr r"
          using assms(1) Inr by (auto simp: ingest_new_def g st Let_def split: if_splits prod.splits simp flip: f_def)
        then show ?thesis using sr ok rg unfolding new_refusal_def Let_def e [symmetric] by auto
      qed
    qed
  qed
qed

subsection \<open>The promises of ingestion\<close>

definition groups_ok :: "world \<Rightarrow> bool" where
  "groups_ok w \<longleftrightarrow> world_ok w \<and> grouping_ok (work w) \<and> grouping_ok (saved w)"

lemma groups_okD: "groups_ok w \<Longrightarrow> world_ok w \<and> grouping_ok (work w) \<and> db_ok (work w)"
  by (simp add: groups_ok_def world_okD)

lemma ingest_alert_cases:
  assumes "ingest_alert py p ws w = (out, w')" "groups_ok w"
  obtains (duplicate) x a i and s :: service where "ar_external_id p = Some x" "x \<noteq> []" "pg_text x" "al_external_id a = Some x"
      "linked (work w) i a" "w' = w" "out = Inr \<lparr>ir_alert_id = al_id a, ir_incident_id = inc_id i,
         ir_status = inc_status i, ir_correlated = True, ir_service_name = sv_name s, ir_duplicate = True\<rparr>"
  | (refused) x where "ar_external_id p = Some x" "x \<noteq> []" "\<not> pg_text x" "out = Inl DataErr" "w' = rollback w"
  | (new) "ingest_new py p ws w = (out, w')" "opt_ok pg_text (ar_external_id p)"
      "\<And>x. ar_external_id p = Some x \<Longrightarrow> x \<noteq> [] \<Longrightarrow> x \<notin> set (external_ids (alerts (work w)))"
proof (cases "\<exists>c cs. ar_external_id p = Some (c # cs)")
  case True
  then obtain c cs where x: "ar_external_id p = Some (c # cs)" by blast
  note g = groups_okD [OF assms(2)]
  show thesis
  proof (cases "pg_text (c # cs)")
    case False
    then show thesis using refused [OF x] assms(1) x by (simp add: ingest_alert_def)
  next
    case pg: True
    show thesis
    proof (cases "c # cs \<in> set (external_ids (alerts (work w)))")
      case True
      then obtain a where a: "a \<in> set (alerts (work w))" "al_external_id a = Some (c # cs)"
        by (auto simp: external_ids_iff)
      obtain i s where r: "duplicate_rows (work w) (c # cs) = [(a, i, s)]" "linked (work w) i a"
        using duplicate_rows_one [OF _ _ a] g by metis
      have "w' = w" "out = Inr \<lparr>ir_alert_id = al_id a, ir_incident_id = inc_id i,
           ir_status = inc_status i, ir_correlated = True, ir_service_name = sv_name s, ir_duplicate = True\<rparr>"
        using assms(1) x pg by (simp_all add: ingest_alert_def r(1))
      then show thesis using duplicate [OF x _ pg a(2) r(2), of s] by simp
    next
      case False
      then show thesis
        using new assms(1) x pg by (simp add: ingest_alert_def duplicate_rows_None opt_ok_def)
    qed
  qed
next
  case False
  then have n: "ar_external_id p = None \<or> ar_external_id p = Some []" by (metis list.exhaust option.exhaust)
  then have "ingest_new py p ws w = (out, w')" using assms(1) by (auto simp: ingest_alert_def)
  then show thesis using new n by (auto simp: opt_ok_def pg_text_def)
qed

text \<open>Every ingestion, successful or not, keeps the schema's constraints and the grouping.\<close>

lemma ingest_alert_groups_ok [ok_intros]:
  assumes "groups_ok w"
  shows "groups_ok (snd (ingest_alert py p ws w))"
proof (cases "ingest_alert py p ws w")
  case (Pair out w')
  note g = groups_okD [OF assms]
  show ?thesis
  proof (cases rule: ingest_alert_cases [OF Pair assms, case_names duplicate refused new])
    case (duplicate x a i s)
    then show ?thesis using Pair assms by simp
  next
    case (refused x)
    then show ?thesis using Pair rollback_ok [of w] assms by (simp add: groups_ok_def rollback_def)
  next
    case new
    show ?thesis
    proof (cases out)
      case (Inl e)
      then show ?thesis
        using ingest_new_error [of py p ws w e w'] new(1) g assms Pair by (simp add: groups_ok_def)
    next
      case (Inr r)
      obtain e where e: "ingest_effect p ws w r w' e" using ingest_new_effect new(1) Inr g by blast
      then have "grouping_ok (work w')" using ingest_effect_grouping g by blast
      then show ?thesis using e Pair by (simp add: groups_ok_def ingest_effect_def Let_def)
    qed
  qed
qed

lemma start_groups_ok: "groups_ok start_world"
  by (simp add: groups_ok_def start_world_ok)
    (simp add: start_world_def grouping_ok_def linked_def empty_db_def keys_Nil)

definition demo_alert :: alert_request where
  "demo_alert = \<lparr>ar_service_name = ''checkout'', ar_alert_type = ''high_latency'', ar_severity = HIGH,
     ar_started_at = utc 0, ar_labels = [], ar_observed_value = None, ar_threshold = None,
     ar_external_id = Some ''x1''\<rparr>"

lemma ingest_alert_new_effect:
  assumes "ingest_alert py p ws w = (Inr r, w')" "groups_ok w" "\<not> ir_duplicate r"
  shows "\<exists>g. ingest_effect p ws w r w' g"
proof (cases rule: ingest_alert_cases [OF assms(1,2), case_names duplicate refused new])
  case (duplicate x a i s)
  then show ?thesis using assms(3) by simp
next
  case (refused z)
  then show ?thesis by simp
next
  case new
  then show ?thesis using ingest_new_effect groups_okD [OF assms(2)] by blast
qed

lemma ingest_alert_stores:
  assumes "ingest_alert py p ws w = (Inr r, w')" "groups_ok w" "ar_external_id p = Some x" "x \<noteq> []"
  shows "\<exists>i a. linked (work w') i a \<and> al_external_id a = Some x \<and>
    ir_alert_id r = al_id a \<and> ir_incident_id r = inc_id i"
proof (cases rule: ingest_alert_cases [OF assms(1,2), case_names duplicate refused new])
  case (duplicate y a i s)
  then show ?thesis using assms(3) by auto
next
  case (refused z)
  then show ?thesis by simp
next
  case new
  obtain g where e: "ingest_effect p ws w r w' g"
    using ingest_new_effect new(1) groups_okD [OF assms(2)] by blast
  obtain s a i where g: "g = \<lparr>in_service = s, in_alert = a, in_incident = i\<rparr>" by (cases g)
  note f = e [unfolded ingest_effect_def g Let_def ingested.simps]
  have i: "i \<in> set (incidents (work w'))"
  proof (cases "ir_correlated r")
    case True
    then obtain i0 where i0: "i0 \<in> set (incidents (work w))" "inc_id i = inc_id i0"
        "incidents (work w') = row_set inc_id i (incidents (work w))"
      using f by (auto simp: correlates_def)
    then have "inc_id i \<in> keys inc_id (incidents (work w))" by (simp add: in_keysI)
    then show ?thesis by (simp add: i0(3) set_row_set)
  next
    case False
    then show ?thesis using f by simp
  qed
  have t: "alerts (work w') = alerts (work w) @ [a]"
    "incident_alerts (work w') = incident_alerts (work w) @ [\<lparr>ia_incident = inc_id i, ia_alert = al_id a\<rparr>]"
    using f by (metis (no_types, lifting) db.select_convs db.surjective db.update_convs)+
  have "linked (work w') i a" using i by (simp add: linked_def t keys_append keys_Cons)
  then show ?thesis using f assms(3) by (metis ingest_result.select_convs(1,2))
qed

lemma ingest_alert_text:
  assumes "ingest_alert py p ws w = (Inr r, w')" "groups_ok w" "ar_external_id p = Some x"
  shows "pg_text x"
proof (cases rule: ingest_alert_cases [OF assms(1,2), case_names duplicate refused new])
  case new
  then show ?thesis using assms(3) by (simp add: opt_ok_def)
qed (use assms(3) in auto)

text \<open>C6: Ingestion is idempotent on a non-empty external id: once an alert with that id has been
  accepted, every later alert that carries it is answered as a duplicate with the same alert and
  the same incident, and the database, the identifiers drawn and the metrics do not change.\<close>

theorem ingest_alert_idempotent:
  assumes "groups_ok w" "ar_external_id p = Some x" "x \<noteq> []"
    and "ingest_alert py p ws w = (Inr r, w')" and "ar_external_id q = Some x"
  shows "\<exists>r'. ingest_alert py q ws' w' = (Inr r', w') \<and> ir_duplicate r' \<and>
    ir_alert_id r' = ir_alert_id r \<and> ir_incident_id r' = ir_incident_id r"
proof -
  have "groups_ok w'" using ingest_alert_groups_ok [OF assms(1), of py p ws] assms(4) by simp
  note g = groups_okD [OF this]
  obtain i a where ia: "linked (work w') i a" "al_external_id a = Some x"
    "ir_alert_id r = al_id a" "ir_incident_id r = inc_id i"
    using ingest_alert_stores [OF assms(4,1,2,3)] by blast
  have a: "a \<in> set (alerts (work w'))" using ia(1) by (simp add: linked_def)
  obtain j s where d: "duplicate_rows (work w') x = [(a, j, s)]" "linked (work w') j a"
    using duplicate_rows_one [OF _ _ a ia(2)] g by blast
  have "j = i" using linked_alert_unique [OF _ _ d(2) ia(1)] g by blast
  have "pg_text x" by (rule ingest_alert_text [OF assms(4,1,2)])
  then show ?thesis using assms(3,5) d(1) ia(3,4) \<open>j = i\<close> by (cases x) (simp_all add: ingest_alert_def)
qed

theorem ingest_alert_idempotent_witness:
  "\<exists>r'. ingest_alert demo_pylib (demo_alert\<lparr>ar_severity := CRITICAL\<rparr>) 300
          (snd (ingest_alert demo_pylib demo_alert 300 start_world)) =
        (Inr r', snd (ingest_alert demo_pylib demo_alert 300 start_world)) \<and> ir_duplicate r' \<and>
     ir_alert_id r' = 1 \<and> ir_incident_id r' = 2"
proof -
  have "fst (ingest_alert demo_pylib demo_alert 300 start_world) =
      Inr \<lparr>ir_alert_id = 1, ir_incident_id = 2, ir_status = NEW, ir_correlated = False,
        ir_service_name = ''checkout'', ir_duplicate = False\<rparr>"
    by code_simp
  then show ?thesis
    using ingest_alert_idempotent [OF start_groups_ok, of demo_alert "''x1''" demo_pylib 300 _ _
        "demo_alert\<lparr>ar_severity := CRITICAL\<rparr>" 300]
    by (simp add: demo_alert_def prod_eq_iff split_pairs)
qed

text \<open>C7: Correlation is sound, complete and prefers the latest incident: an accepted alert joins
  an incident exactly when there is a non-terminal incident of the alert's service that holds an
  alert of the same type whose start is at most the window away; the incident it joins is such an
  incident with the greatest start among them. Otherwise the alert opens an incident of its own.\<close>

theorem ingest_alert_correlation:
  assumes "groups_ok w" "ingest_alert py p ws w = (Inr r, w')" "\<not> ir_duplicate r"
  shows "\<exists>s \<in> set (services (work w')). sv_name s = ar_service_name p \<and>
    (let joins = correlates (work w) (sv_id s) (ar_alert_type p) (ar_started_at p) ws in
     if ir_correlated r
     then \<exists>i. joins i \<and> inc_id i = ir_incident_id r \<and>
            (\<forall>j. joins j \<longrightarrow> as_utc (inc_started_at j) \<le> as_utc (inc_started_at i)) \<and>
            incidents (work w') = row_set inc_id
              (i\<lparr>inc_severity := max (inc_severity i) (ar_severity p)\<rparr>) (incidents (work w))
     else (\<forall>j. \<not> joins j) \<and>
          (\<exists>i. incidents (work w') = incidents (work w) @ [i] \<and> inc_id i = ir_incident_id r \<and>
             inc_status i = NEW \<and> inc_severity i = ar_severity p \<and> inc_title i = incident_title p \<and>
             inc_started_at i = ar_started_at p))"
proof -
  obtain g where e: "ingest_effect p ws w r w' g" using ingest_alert_new_effect [OF assms(2,1,3)] ..
  obtain s a i where g: "g = \<lparr>in_service = s, in_alert = a, in_incident = i\<rparr>" by (cases g)
  note f = e [unfolded ingest_effect_def g Let_def ingested.simps]
  have "ir_incident_id r = inc_id i" using f by (metis ingest_result.select_convs(2))
  then show ?thesis
    using f unfolding Let_def by (intro bexI [of _ s]) (auto split: if_splits)
qed

theorem ingest_alert_correlation_witness:
  "let w1 = snd (ingest_alert demo_pylib demo_alert 300 start_world);
       p = demo_alert\<lparr>ar_external_id := Some ''x2'', ar_severity := CRITICAL\<rparr>;
       w2 = snd (ingest_alert demo_pylib p 300 w1) in
   \<exists>s \<in> set (services (work w2)). sv_name s = ''checkout'' \<and>
     (\<exists>i. correlates (work w1) (sv_id s) ''high_latency'' (utc 0) 300 i \<and> inc_id i = 2)"
proof -
  define w1 where "w1 = snd (ingest_alert demo_pylib demo_alert 300 start_world)"
  define p where "p = demo_alert\<lparr>ar_external_id := Some ''x2'', ar_severity := CRITICAL\<rparr>"
  have g: "groups_ok w1" unfolding w1_def by (rule ingest_alert_groups_ok [OF start_groups_ok])
  have r: "fst (ingest_alert demo_pylib p 300 w1) = Inr \<lparr>ir_alert_id = 4, ir_incident_id = 2,
      ir_status = NEW, ir_correlated = True, ir_service_name = ''checkout'', ir_duplicate = False\<rparr>"
    unfolding w1_def p_def by code_simp
  then have "ingest_alert demo_pylib p 300 w1 = (Inr \<lparr>ir_alert_id = 4, ir_incident_id = 2,
      ir_status = NEW, ir_correlated = True, ir_service_name = ''checkout'', ir_duplicate = False\<rparr>,
      snd (ingest_alert demo_pylib p 300 w1))" by (metis prod.collapse)
  from ingest_alert_correlation [OF g this] show ?thesis
    unfolding Let_def w1_def [symmetric] p_def [symmetric] by (auto simp: p_def demo_alert_def)
qed

text \<open>Why a request is refused, read off the request and the committed database.\<close>

definition ingest_refusal :: "pylib \<Rightarrow> alert_request \<Rightarrow> int \<Rightarrow> db \<Rightarrow> exn option" where
  "ingest_refusal py p ws d =
     (case ar_external_id p of
        Some (c # cs) \<Rightarrow>
          if \<not> pg_text (c # cs) then Some DataErr
          else if c # cs \<in> set (external_ids (alerts d)) then None
          else new_refusal py p ws d
      | _ \<Rightarrow> new_refusal py p ws d)"

lemma ingest_alert_outcome:
  assumes "groups_ok w"
  shows "case ingest_alert py p ws w of
      (Inl e, w') \<Rightarrow> ingest_refusal py p ws (work w) = Some e \<and>
        work w' = saved w \<and> saved w' = saved w \<and> counters w' = counters w \<and>
        (e = IntegrityErr \<longrightarrow> ar_external_id p = Some [])
    | (Inr r, w') \<Rightarrow> ingest_refusal py p ws (work w) = None"
proof -
  obtain out w' where i: "ingest_alert py p ws w = (out, w')" by fastforce
  note g = groups_okD [OF assms]
  show ?thesis
  proof (cases rule: ingest_alert_cases [OF i assms, case_names duplicate refused new])
    case (duplicate x a k s)
    have "x \<in> set (external_ids (alerts (work w)))"
      using duplicate(4,5) by (auto simp: linked_def external_ids_iff)
    moreover obtain c cs where "x = c # cs" using duplicate(2) by (cases x) auto
    ultimately show ?thesis using duplicate by (simp add: i ingest_refusal_def)
  next
    case (refused x)
    then show ?thesis by (cases x) (simp_all add: i ingest_refusal_def rollback_def)
  next
    case new
    have "ingest_refusal py p ws (work w) = new_refusal py p ws (work w)"
      using new(2,3) by (auto simp: ingest_refusal_def opt_ok_def split: option.splits list.splits)
    then have "ingest_refusal py p ws (work w) = (case out of Inl x \<Rightarrow> Some x | Inr _ \<Rightarrow> None)"
      using ingest_new_refusal [OF new(1)] g by simp
    moreover have "x = IntegrityErr \<Longrightarrow> ar_external_id p = Some []" if "out = Inl x" for x
      using ingest_new_refusal [OF new(1)] g that new(3) by (auto simp: new_refusal_def Let_def split: if_splits)
    ultimately show ?thesis
      using ingest_new_error [of py p ws w _ w'] new(1) g by (cases out) (auto simp: i)
  qed
qed

lemma ingest_alert_Inl:
  assumes "groups_ok w" "ingest_alert py p ws w = (Inl e, w')"
  shows "e \<in> {DataErr, IntegrityErr, OverflowErr}" "work w' = saved w" "saved w' = saved w"
proof -
  have "new_refusal py p ws d = Some x \<Longrightarrow> x \<in> {DataErr, IntegrityErr, OverflowErr}" for d x
    by (auto simp: new_refusal_def Let_def split: if_splits)
  then have "ingest_refusal py p ws d = Some x \<Longrightarrow> x \<in> {DataErr, IntegrityErr, OverflowErr}" for d x
    by (auto simp: ingest_refusal_def split: option.splits list.splits if_splits)
  then show "e \<in> {DataErr, IntegrityErr, OverflowErr}" "work w' = saved w" "saved w' = saved w"
    using ingest_alert_outcome [OF assms(1), of py p ws] by (auto simp: assms(2))
qed



text \<open>The metrics count every accepted alert once: a non-duplicate ingestion adds one
  \<open>alerts_ingested_total\<close> and exactly one of \<open>alerts_correlated_total\<close> and
  \<open>incidents_created_total\<close>, after the commit that made the alert durable; a duplicate adds none.\<close>

theorem ingest_alert_metrics:
  assumes "groups_ok w" "ingest_alert py p ws w = (Inr r, w')"
  shows "counters w' = counters w @
    (if ir_duplicate r then []
     else [Alerts_ingested (ar_service_name p) (ar_alert_type p) (ar_severity p),
           if ir_correlated r then Alerts_correlated (ar_service_name p) (ar_alert_type p)
           else Incidents_created (ar_service_name p) (ar_severity p)]) \<and>
    (\<not> ir_duplicate r \<longrightarrow> saved w' = work w' \<and> ir_alert_id r \<in> keys al_id (alerts (saved w')) \<and>
       ir_service_name r = ar_service_name p)"
proof (cases rule: ingest_alert_cases [OF assms(2,1), case_names duplicate refused new])
  case (duplicate x a i s)
  then show ?thesis by simp
next
  case (refused z)
  then show ?thesis by simp
next
  case new
  obtain g where e: "ingest_effect p ws w r w' g"
    using ingest_new_effect new(1) groups_okD [OF assms(1)] by blast
  obtain s a i where g: "g = \<lparr>in_service = s, in_alert = a, in_incident = i\<rparr>" by (cases g)
  note f = e [unfolded ingest_effect_def g Let_def ingested.simps]
  have r: "ir_duplicate r = False" "ir_alert_id r = al_id a" "ir_service_name r = sv_name s"
    using f by (metis ingest_result.select_convs)+
  have "alerts (work w') = alerts (work w) @ [a]"
    using f by (metis (no_types, lifting) db.select_convs db.surjective db.update_convs)
  then have "ir_alert_id r \<in> keys al_id (alerts (work w'))" by (simp add: r keys_append keys_Cons)
  then show ?thesis using f r by simp
qed

theorem ingest_alert_metrics_witness:
  "counters (snd (ingest_alert demo_pylib demo_alert 300 start_world)) =
     [Alerts_ingested ''checkout'' ''high_latency'' HIGH, Incidents_created ''checkout'' HIGH]"
proof -
  have r: "fst (ingest_alert demo_pylib demo_alert 300 start_world) =
      Inr \<lparr>ir_alert_id = 1, ir_incident_id = 2, ir_status = NEW, ir_correlated = False,
        ir_service_name = ''checkout'', ir_duplicate = False\<rparr>"
    by code_simp
  show ?thesis
    using ingest_alert_metrics [OF start_groups_ok, of demo_pylib demo_alert 300] r
    by (cases "ingest_alert demo_pylib demo_alert 300 start_world")
      (simp add: demo_alert_def start_world_def)
qed

lemma incident_title_length:
  "alert_request_ok p \<Longrightarrow> length (incident_title p) \<le> 194"
  by (simp add: incident_title_def alert_request_ok_def len_between_def replace_char_length)

subsection \<open>What ingestion leaves alone\<close>

lemma ingest_alert_clock:
  "clock (snd (ingest_alert py p ws w)) = clock w \<and> clock_reads (snd (ingest_alert py p ws w)) = clock_reads w"
proof -
  have g: "get_or_create_service n e w = (r, w1) \<Longrightarrow> clock w1 = clock w \<and> clock_reads w1 = clock_reads w"
    for n e r w w1
    by (auto simp: get_or_create_service_def write_defs split: option.splits if_splits)
  have a: "store_alert p s w = (r, w1) \<Longrightarrow> clock w1 = clock w \<and> clock_reads w1 = clock_reads w" for s r w w1
    by (auto simp: store_alert_def write_defs split: if_splits)
  have e: "escalate_severity i sev w = (r, w1) \<Longrightarrow> clock w1 = clock w \<and> clock_reads w1 = clock_reads w"
    for i sev r w w1
    by (auto simp: escalate_severity_def Let_def write_defs split: if_splits)
  have o: "open_incident py p s al w = (r, w1) \<Longrightarrow> clock w1 = clock w \<and> clock_reads w1 = clock_reads w"
    for s al r w w1
    by (auto simp: open_incident_def write_defs)
  have j: "join_incident py p ws al i w = (r, w1) \<Longrightarrow> clock w1 = clock w \<and> clock_reads w1 = clock_reads w"
    for al i r w w1
    by (auto simp: join_incident_def dest!: e) (auto simp: write_defs)
  have n: "clock (snd (ingest_new py p ws w)) = clock w \<and> clock_reads (snd (ingest_new py p ws w)) = clock_reads w"
    by (auto simp: ingest_new_def bind_def Let_def count_ingested_def write_defs
        split: prod.splits sum.splits option.splits dest!: g a o j)
  show ?thesis
    using n by (auto simp: ingest_alert_def rollback_def split: option.splits list.splits sum.splits prod.splits)
qed

text \<open>The tables of the investigations are the same before and after.\<close>

definition same_investigations :: "db \<Rightarrow> db \<Rightarrow> bool" where
  "same_investigations d d' \<longleftrightarrow> runs d' = runs d \<and> tool_calls d' = tool_calls d \<and> evidences d' = evidences d \<and>
     hypotheses d' = hypotheses d \<and> citations d' = citations d \<and> recommendations d' = recommendations d \<and>
     approvals d' = approvals d"

lemma ingest_alert_investigations:
  assumes "groups_ok w"
  shows "same_investigations (work w) (work (snd (ingest_alert py p ws w))) \<and> 
      (saved (snd (ingest_alert py p ws w)) = saved w \<or> 
       saved (snd (ingest_alert py p ws w)) = work (snd (ingest_alert py p ws w))) \<or>
    work (snd (ingest_alert py p ws w)) = saved w \<and> saved (snd (ingest_alert py p ws w)) = saved w"
proof (cases "ingest_alert py p ws w")
  case (Pair out w')
  show ?thesis
  proof (cases rule: ingest_alert_cases [OF Pair assms, case_names duplicate refused new])
    case (duplicate x a i s)
    then show ?thesis by (simp add: Pair same_investigations_def)
  next
    case (refused x)
    then show ?thesis by (simp add: Pair rollback_def)
  next
    case new
    show ?thesis
    proof (cases out)
      case (Inl e)
      then show ?thesis
        using ingest_new_error [of py p ws w e w'] new(1) groups_okD [OF assms] by (simp add: Pair)
    next
      case (Inr r)
      obtain g where "ingest_effect p ws w r w' g" using ingest_new_effect new(1) Inr groups_okD [OF assms] by blast
      then have "saved w' = work w'" "\<exists>ss as ins es ls. work w' = work w\<lparr>services := ss, alerts := as,
          incidents := ins, events := es, incident_alerts := ls\<rparr>"
        unfolding ingest_effect_def Let_def by blast+
      then show ?thesis by (auto simp: Pair same_investigations_def)
    qed
  qed
qed

end
