(* ===== verification/Investigation.thy ===== *)
theory Investigation
  imports Incidents
begin

section \<open>Investigation service: the records of an agent run\<close>

text \<open>
  \<open>apps/api/app/services/investigation_service.py\<close>: the only way a run, a tool call, an evidence
  row, a hypothesis with its citations or a recommendation gets into the database. Each
  operation checks ownership and flushes, none commits. The payloads are the Pydantic models of
  \<open>Schemas\<close>; a caller that builds one whose constraints fail never gets here, so the lemmas
  assume the \<open>..._ok\<close> predicate of their payload. \<open>record_trail\<close> is the interface the callers
  rely on, and \<open>trail_ok\<close> what these checks add to the schema: evidence that names a tool call
  names a successful one, every hypothesis has a citation, and so every recommendation rests on
  evidence of its own run.
\<close>

subsection \<open>The rows\<close>

definition run_row :: "uuid \<Rightarrow> run_create \<Rightarrow> time \<Rightarrow> uuid \<Rightarrow> agent_run" where
  "run_row incident_id p now u =
     \<lparr>run_id = u, run_incident = incident_id, run_status = Run_PENDING,
      run_provider = rc_provider p, run_model_name = rc_model_name p,
      run_prompt_version = rc_prompt_version p, run_started_at = None, run_finished_at = None,
      run_input_tokens = 0, run_output_tokens = 0, run_error_message = None, run_created_at = now\<rparr>"

definition tool_call_row :: "uuid \<Rightarrow> tool_create \<Rightarrow> uuid \<Rightarrow> tool_call" where
  "tool_call_row agent_run_id p u =
     \<lparr>call_id = u, call_run = agent_run_id, call_tool_name = tc_tool_name p,
      call_status = tc_status p, call_input = tc_input p, call_output = tc_output p,
      call_error = tc_error p, call_started_at = tc_started p, call_finished_at = tc_finished p\<rparr>"

definition evidence_row :: "uuid \<Rightarrow> uuid \<Rightarrow> evidence_create \<Rightarrow> time \<Rightarrow> uuid \<Rightarrow> evidence" where
  "evidence_row incident_id agent_run_id p now u =
     \<lparr>evd_id = u, evd_incident = incident_id, evd_run = agent_run_id,
      evd_tool_call = ec_tool_call p, evd_source_type = ec_source_type p,
      evd_source_name = ec_source_name p, evd_query = ec_query p,
      evd_query_params = ec_query_params p, evd_summary = ec_summary p,
      evd_raw_data = ec_raw_data p, evd_range_start = ec_range_start p,
      evd_range_end = ec_range_end p, evd_collected_at = ec_collected p, evd_created_at = now\<rparr>"

definition hypothesis_row :: "uuid \<Rightarrow> hypothesis_create \<Rightarrow> uuid \<Rightarrow> hypothesis" where
  "hypothesis_row agent_run_id p u =
     \<lparr>hyp_id = u, hyp_run = agent_run_id, hyp_root_cause = hc_root_cause p,
      hyp_summary = hc_summary p, hyp_confidence = hc_confidence p\<rparr>"

definition recommendation_row :: "uuid \<Rightarrow> recommendation_create \<Rightarrow> uuid \<Rightarrow> recommendation" where
  "recommendation_row agent_run_id p u =
     \<lparr>rec_id = u, rec_run = agent_run_id, rec_hypothesis = pc_hypothesis p,
      rec_action_type = pc_action_type p, rec_parameters = pc_parameters p,
      rec_rationale = pc_rationale p, rec_risk_level = pc_risk_level p,
      rec_status = ''proposed'', rec_requires_approval = True\<rparr>"

lemmas row_defs = run_row_def tool_call_row_def evidence_row_def hypothesis_row_def recommendation_row_def

subsection \<open>The operations\<close>

definition require_agent_run :: "uuid \<Rightarrow> (world, agent_run) op" where
  "require_agent_run agent_run_id w =
     (case get_run w agent_run_id of
        None \<Rightarrow> (Inl (InvestigationNotFoundError ''Agent run not found''), w)
      | Some run \<Rightarrow> (Inr run, w))"

definition create_agent_run :: "pylib \<Rightarrow> uuid \<Rightarrow> run_create \<Rightarrow> (world, agent_run) op" where
  "create_agent_run py incident_id p w =
     (case get_incident w incident_id of
        None \<Rightarrow> (Inl (InvestigationNotFoundError ''Incident not found''), w)
      | Some _ \<Rightarrow>
          (case add_run (run_row incident_id p (db_now w)) w of
            (run, w1) \<Rightarrow>
              (Inr run, add_event incident_id AGENT_RUN_CREATED
                 ''Investigation record created; no analysis has been executed yet.''
                 [(''agent_run_id'', JStr (uuid_text py (run_id run))),
                  (''prompt_version'', JStr (run_prompt_version run))] w1)))"

definition record_tool_call :: "uuid \<Rightarrow> tool_create \<Rightarrow> (world, tool_call) op" where
  "record_tool_call agent_run_id p w =
     bind (require_agent_run agent_run_id w) (\<lambda>_ w1.
       case add_tool_call (tool_call_row agent_run_id p) w1 of (c, w2) \<Rightarrow> (Inr c, w2))"

text \<open>The guard on the tool call that a piece of evidence names.\<close>

definition tool_call_usable :: "world \<Rightarrow> uuid \<Rightarrow> uuid option \<Rightarrow> bool" where
  "tool_call_usable w agent_run_id t =
     (case t of None \<Rightarrow> True
      | Some k \<Rightarrow> (case get_tool_call w k of
          None \<Rightarrow> False
        | Some c \<Rightarrow> \<not> (call_run c \<noteq> agent_run_id \<or> call_status c \<noteq> Tool_SUCCEEDED)))"

definition record_evidence :: "pylib \<Rightarrow> uuid \<Rightarrow> evidence_create \<Rightarrow> (world, evidence) op" where
  "record_evidence py agent_run_id p w =
     bind (require_agent_run agent_run_id w) (\<lambda>run w1.
       if \<not> tool_call_usable w1 agent_run_id (ec_tool_call p)
       then (Inl (InvalidEvidenceReferenceError ''Evidence needs a successful tool call in this run''), w1)
       else (case add_evidence (evidence_row (run_incident run) agent_run_id p (db_now w1)) w1 of
           (e, w2) \<Rightarrow>
             (Inr e, add_event (run_incident run) EVIDENCE_COLLECTED
                (''Stored '' @ source_type_value (ec_source_type p) @ '' evidence from '' @ ec_source_name p @ ''.'')
                [(''agent_run_id'', JStr (uuid_text py agent_run_id)),
                 (''evidence_id'', JStr (uuid_text py (evd_id e)))] w2)))"

text \<open>\<open>set(payload.evidence_ids)\<close>: each id once; a set has no order, the last occurrence is kept.\<close>

definition evidence_of_run :: "db \<Rightarrow> uuid \<Rightarrow> uuid list \<Rightarrow> uuid set" where
  "evidence_of_run d agent_run_id ids =
     evd_id ` {e \<in> set (evidences d). evd_id e \<in> set ids \<and> evd_run e = agent_run_id}"

definition record_hypothesis :: "uuid \<Rightarrow> hypothesis_create \<Rightarrow> (world, hypothesis) op" where
  "record_hypothesis agent_run_id p w =
     bind (require_agent_run agent_run_id w) (\<lambda>_ w1.
       let ids = remdups (hc_evidence_ids p) in
       if evidence_of_run (work w1) agent_run_id ids \<noteq> set ids
       then (Inl (InvalidEvidenceReferenceError ''Every citation must reference evidence in this run''), w1)
       else (case add_hypothesis (hypothesis_row agent_run_id p) w1 of
           (h, w2) \<Rightarrow>
             (Inr h, add_citations (map (\<lambda>e. \<lparr>he_hypothesis = hyp_id h, he_evidence = e,
                he_run = agent_run_id\<rparr>) ids) w2)))"

definition record_recommendation :: "uuid \<Rightarrow> recommendation_create \<Rightarrow> (world, recommendation) op" where
  "record_recommendation agent_run_id p w =
     bind (require_agent_run agent_run_id w) (\<lambda>_ w1.
       case get_hypothesis w1 (pc_hypothesis p) of
         None \<Rightarrow> (Inl (InvalidEvidenceReferenceError ''The hypothesis must belong to this run''), w1)
       | Some h \<Rightarrow>
           if hyp_run h \<noteq> agent_run_id
           then (Inl (InvalidEvidenceReferenceError ''The hypothesis must belong to this run''), w1)
           else if \<not> (\<exists>c \<in> set (citations (work w1)). he_hypothesis c = hyp_id h)
           then (Inl (InvalidEvidenceReferenceError ''The hypothesis must have at least one citation''), w1)
           else (case add_recommendation (recommendation_row agent_run_id p) w1 of
               (r, w2) \<Rightarrow> (Inr r, w2)))"

subsection \<open>The trail from recommendation to tool call\<close>

definition trail_ok :: "db \<Rightarrow> bool" where
  "trail_ok d \<longleftrightarrow>
     (\<forall>e \<in> set (evidences d). \<forall>k. evd_tool_call e = Some k \<longrightarrow>
        (\<exists>c \<in> set (tool_calls d). call_id c = k \<and> call_run c = evd_run e \<and> call_status c = Tool_SUCCEEDED)) \<and>
     (\<forall>h \<in> set (hypotheses d). \<exists>c \<in> set (citations d). he_hypothesis c = hyp_id h)"

definition records_ok :: "world \<Rightarrow> bool" where
  "records_ok w \<longleftrightarrow> world_ok w \<and> trail_ok (work w) \<and> trail_ok (saved w)"

lemma require_agent_run_simp:
  "require_agent_run k w = (Inr run, w1) \<longleftrightarrow> get_run w k = Some run \<and> w1 = w"
  "require_agent_run k w = (Inl e, w1) \<longleftrightarrow>
     get_run w k = None \<and> e = InvestigationNotFoundError ''Agent run not found'' \<and> w1 = w"
  by (auto simp: require_agent_run_def split: option.splits)

text \<open>
  What each operation appends. The parts of a world that none of the record operations
  touches: the committed state, the clock and the metrics.
\<close>

definition same_outside :: "world \<Rightarrow> world \<Rightarrow> bool" where
  "same_outside w w' \<longleftrightarrow> saved w' = saved w \<and> clock w' = clock w \<and> clock_reads w' = clock_reads w \<and>
     db_now w' = db_now w \<and> counters w' = counters w \<and> uuids w' = uuids w"

lemma same_outside_refl [simp]: "same_outside w w"
  by (simp add: same_outside_def)

lemma same_outside_trans: "same_outside a b \<Longrightarrow> same_outside b c \<Longrightarrow> same_outside a c"
  by (simp add: same_outside_def)

lemma create_agent_run_effect:
  assumes "create_agent_run py i p w = (Inr run, w')" "records_ok w"
  shows "records_ok w'" "i \<in> keys inc_id (incidents (work w))"
    "run = run_row i p (db_now w) (uuids w (uuid_count w))"
    "work w' = work w\<lparr>runs := runs (work w) @ [run], events := events (work w')\<rparr>" "same_outside w w'"
proof -
  let ?mk = "run_row i p (db_now w)"
  show i: "i \<in> keys inc_id (incidents (work w))"
    using assms(1) by (auto simp: create_agent_run_def dest: row_get_in_keys split: option.splits)
  obtain md where a: "add_run ?mk w = (run, snd (add_run ?mk w))" "w' = add_event i AGENT_RUN_CREATED
      ''Investigation record created; no analysis has been executed yet.'' md (snd (add_run ?mk w))"
    using assms(1) by (auto simp: create_agent_run_def split: option.splits prod.splits)
  show "run = ?mk (uuids w (uuid_count w))" and so: "same_outside w w'"
    and e: "work w' = work w\<lparr>runs := runs (work w) @ [run], events := events (work w')\<rparr>"
    using a by (auto simp: write_defs same_outside_def)
  have "world_ok (snd (add_run ?mk w))"
    using assms(2) i by (intro add_run_ok) (simp_all add: records_ok_def run_row_def run_ok_def)
  then have "world_ok w'" unfolding a(2)
    by (rule add_event_ok) (use i in \<open>simp add: add_run_def new_uuid_def with_work_def\<close>)
  moreover have "trail_ok (work w')" using assms(2) by (subst e) (simp add: records_ok_def trail_ok_def)
  ultimately show "records_ok w'" using assms(2) so by (simp add: records_ok_def same_outside_def)
qed

lemma record_tool_call_effect:
  assumes "record_tool_call k p w = (Inr c, w')" "records_ok w" "tool_create_ok p"
  shows "records_ok w'" "k \<in> keys run_id (runs (work w))"
    "c = tool_call_row k p (uuids w (uuid_count w))"
    "work w' = work w\<lparr>tool_calls := tool_calls (work w) @ [c]\<rparr>" "same_outside w w'"
proof -
  let ?mk = "tool_call_row k p"
  obtain run where "get_run w k = Some run" and a: "add_tool_call ?mk w = (c, w')"
    using assms(1) by (auto simp: record_tool_call_def bind_Inr require_agent_run_simp split: prod.splits)
  then show k: "k \<in> keys run_id (runs (work w))" by (auto dest: row_get_in_keys)
  show "c = ?mk (uuids w (uuid_count w))" and so: "same_outside w w'"
    and e: "work w' = work w\<lparr>tool_calls := tool_calls (work w) @ [c]\<rparr>"
    using a by (auto simp: write_defs same_outside_def)
  have "world_ok (snd (add_tool_call ?mk w))"
    using assms(2,3) k
    by (intro add_tool_call_ok) (auto simp: records_ok_def call_ok_def tool_create_ok_def tool_call_row_def)
  moreover have "trail_ok (work w')" using assms(2) by (subst e) (fastforce simp: records_ok_def trail_ok_def)
  ultimately show "records_ok w'" using assms(2) so a by (simp add: records_ok_def same_outside_def)
qed

lemma tool_call_usable_SomeD:
  "tool_call_usable w r (Some k) \<Longrightarrow> \<exists>c \<in> set (tool_calls (work w)).
     call_id c = k \<and> call_run c = r \<and> call_status c = Tool_SUCCEEDED"
  by (auto simp: tool_call_usable_def dest: row_get_SomeD split: option.splits)

lemma record_evidence_effect:
  assumes "record_evidence py k p w = (Inr e, w')" "records_ok w" "evidence_create_ok p"
  shows "records_ok w'"
    "\<exists>run. get_run w k = Some run \<and> e = evidence_row (run_incident run) k p (db_now w) (uuids w (uuid_count w))"
    "tool_call_usable w k (ec_tool_call p)"
    "work w' = work w\<lparr>evidences := evidences (work w) @ [e], events := events (work w')\<rparr>" "same_outside w w'"
proof -
  obtain run where run: "get_run w k = Some run"
    using assms(1) by (auto simp: record_evidence_def bind_Inr require_agent_run_simp)
  let ?mk = "evidence_row (run_incident run) k p (db_now w)"
  show u: "tool_call_usable w k (ec_tool_call p)"
    using assms(1) by (auto simp: record_evidence_def bind_Inr require_agent_run_simp split: if_splits)
  obtain m md where a: "add_evidence ?mk w = (e, snd (add_evidence ?mk w))"
    "w' = add_event (run_incident run) EVIDENCE_COLLECTED m md (snd (add_evidence ?mk w))"
    using assms(1) u run by (auto simp: record_evidence_def bind_Inr require_agent_run_simp split: prod.splits)
  show "\<exists>run. get_run w k = Some run \<and> e = evidence_row (run_incident run) k p (db_now w) (uuids w (uuid_count w))"
    using a run by (auto simp: write_defs)
  show w': "work w' = work w\<lparr>evidences := evidences (work w) @ [e], events := events (work w')\<rparr>"
    and so: "same_outside w w'"
    using a by (auto simp: write_defs same_outside_def)
  have d: "db_ok (work w)" using assms(2) by (simp add: records_ok_def world_okD)
  have rs: "run \<in> set (runs (work w))" "run_id run = k" using row_get_SomeD [OF run] by auto
  then have ri: "(k, run_incident run) \<in> run_incidents (work w)"
    using in_keysI [OF rs(1), of "\<lambda>r. (run_id r, run_incident r)"] by simp
  have inc: "run_incident run \<in> keys inc_id (incidents (work w))"
    using d rs(1) by (auto simp: db_ok_def runs_ok_def run_ok_def)
  have "opt_ok (\<lambda>c. (c, k) \<in> call_runs (work w)) (ec_tool_call p)"
    using u by (cases "ec_tool_call p") (auto simp: opt_ok_def keys_def image_iff dest!: tool_call_usable_SomeD)
  then have "evidence_ok (run_incidents (work w)) (call_runs (work w)) (?mk u)" for u
    using ri assms(3) by (simp add: evidence_ok_def evidence_row_def evidence_create_ok_def)
  then have "world_ok (snd (add_evidence ?mk w))"
    using assms(2) by (intro add_evidence_ok) (simp_all add: records_ok_def evidence_row_def)
  then have "world_ok w'" unfolding a(2)
    by (rule add_event_ok) (use inc in \<open>simp add: add_evidence_def new_uuid_def with_work_def\<close>)
  moreover have "trail_ok (work w')"
  proof -
    have "evd_tool_call e = ec_tool_call p" "evd_run e = k"
      using a by (auto simp: write_defs evidence_row_def)
    then show ?thesis
      using assms(2) u by (subst w') (auto simp: records_ok_def trail_ok_def dest: tool_call_usable_SomeD)
  qed
  ultimately show "records_ok w'" using assms(2) so by (simp add: records_ok_def same_outside_def)
qed

lemma record_hypothesis_effect:
  assumes "record_hypothesis k p w = (Inr h, w')" "records_ok w" "hypothesis_create_ok p"
  shows "records_ok w'" "k \<in> keys run_id (runs (work w))"
    "h = hypothesis_row k p (uuids w (uuid_count w))"
    "\<forall>x \<in> set (hc_evidence_ids p). (x, k) \<in> evd_runs (work w)"
    "work w' = work w\<lparr>hypotheses := hypotheses (work w) @ [h], citations := citations (work w) @
       map (\<lambda>e. \<lparr>he_hypothesis = hyp_id h, he_evidence = e, he_run = k\<rparr>) (remdups (hc_evidence_ids p))\<rparr>"
    "same_outside w w'"
proof -
  let ?mk = "hypothesis_row k p" and ?ids = "remdups (hc_evidence_ids p)"
  let ?w1 = "snd (add_hypothesis ?mk w)"
  let ?cs = "map (\<lambda>e. \<lparr>he_hypothesis = hyp_id h, he_evidence = e, he_run = k\<rparr>) ?ids"
  obtain run where run: "get_run w k = Some run" and f: "evidence_of_run (work w) k ?ids = set ?ids"
    and a: "add_hypothesis ?mk w = (h, ?w1)" and w': "w' = add_citations ?cs ?w1"
    using assms(1)
    by (auto simp: record_hypothesis_def bind_Inr require_agent_run_simp Let_def split: if_splits prod.splits)
  show k: "k \<in> keys run_id (runs (work w))" using run by (auto dest: row_get_in_keys)
  show h: "h = ?mk (uuids w (uuid_count w))" using a by (auto simp: write_defs)
  show so: "same_outside w w'" using a w' by (auto simp: write_defs same_outside_def)
  show e: "work w' = work w\<lparr>hypotheses := hypotheses (work w) @ [h], citations := citations (work w) @ ?cs\<rparr>"
    using a w' by (auto simp: write_defs)
  show ev: "\<forall>x \<in> set (hc_evidence_ids p). (x, k) \<in> evd_runs (work w)"
  proof
    fix x assume "x \<in> set (hc_evidence_ids p)"
    then have "x \<in> evidence_of_run (work w) k ?ids" using f by simp
    then show "(x, k) \<in> evd_runs (work w)" by (auto simp: evidence_of_run_def keys_def)
  qed
  have ok1: "world_ok ?w1"
    using assms(2,3) k by (intro add_hypothesis_ok) (simp_all add: records_ok_def hypothesis_row_def hypothesis_create_ok_def)
  have w1: "work ?w1 = work w\<lparr>hypotheses := hypotheses (work w) @ [h]\<rparr>"
    using a by (auto simp: write_defs)
  have id: "hyp_id h \<notin> keys hyp_id (hypotheses (work w))" "hyp_run h = k"
    using new_keys(9) assms(2) by (simp_all add: h hypothesis_row_def records_ok_def)
  have nc: "he_hypothesis c \<noteq> hyp_id h" if "c \<in> set (citations (work w))" for c
  proof -
    have "(he_hypothesis c, he_run c) \<in> hyp_runs (work w)"
      using that world_okD assms(2) by (auto simp: records_ok_def db_ok_def citations_ok_def)
    then have "he_hypothesis c \<in> keys hyp_id (hypotheses (work w))" by (auto simp: keys_def)
    then show ?thesis using id(1) by metis
  qed
  have "world_ok w'" unfolding w'
  proof (rule add_citations_ok [OF ok1])
    show "distinct (map (\<lambda>c. (he_hypothesis c, he_evidence c)) ?cs)"
      by (simp add: comp_def distinct_map inj_on_def)
    show "keys (\<lambda>c. (he_hypothesis c, he_evidence c)) ?cs \<inter>
        keys (\<lambda>c. (he_hypothesis c, he_evidence c)) (citations (work ?w1)) = {}"
    proof -
      have "(hyp_id h, x) \<notin> keys (\<lambda>c. (he_hypothesis c, he_evidence c)) (citations (work w))" for x
        using nc by (fastforce simp: keys_def)
      then show ?thesis unfolding w1 by (auto simp: keys_def [of _ ?cs])
    qed
    show "keys (\<lambda>c. (he_hypothesis c, he_run c)) ?cs \<subseteq> hyp_runs (work ?w1)"
      unfolding w1 using id(2) by (auto simp: keys_def)
    show "keys (\<lambda>c. (he_evidence c, he_run c)) ?cs \<subseteq> evd_runs (work ?w1)"
      unfolding w1 using ev by (auto simp: keys_def)
  qed
  moreover have "trail_ok (work w')"
  proof -
    obtain x xs where x: "hc_evidence_ids p = x # xs"
      using assms(3) by (cases "hc_evidence_ids p") (auto simp: hypothesis_create_ok_def)
    have "\<exists>c \<in> set ?cs. he_hypothesis c = hyp_id h"
      by (rule bexI [of _ "\<lparr>he_hypothesis = hyp_id h, he_evidence = x, he_run = k\<rparr>"]) (auto simp: x)
    then have n: "\<exists>c \<in> set (citations (work w) @ ?cs). he_hypothesis c = hyp_id h"
      unfolding set_append by blast
    have old: "\<exists>c \<in> set (citations (work w) @ ?cs). he_hypothesis c = hyp_id g"
      if "g \<in> set (hypotheses (work w))" for g
      using assms(2) that unfolding records_ok_def trail_ok_def set_append by blast
    have "\<forall>g \<in> set (hypotheses (work w) @ [h]).
        \<exists>c \<in> set (citations (work w) @ ?cs). he_hypothesis c = hyp_id g"
    proof
      fix g assume "g \<in> set (hypotheses (work w) @ [h])"
      then consider "g \<in> set (hypotheses (work w))" | "g = h" by auto
      then show "\<exists>c \<in> set (citations (work w) @ ?cs). he_hypothesis c = hyp_id g" using n old by cases blast+
    qed
    then show ?thesis
      using assms(2) by (subst e) (simp add: records_ok_def trail_ok_def del: set_append set_map)
  qed
  ultimately show "records_ok w'" using assms(2) so by (simp add: records_ok_def same_outside_def)
qed

lemma record_recommendation_effect:
  assumes "record_recommendation k p w = (Inr r, w')" "records_ok w" "recommendation_create_ok p"
  shows "records_ok w'" "k \<in> keys run_id (runs (work w))" "(pc_hypothesis p, k) \<in> hyp_runs (work w)"
    "r = recommendation_row k p (uuids w (uuid_count w))"
    "work w' = work w\<lparr>recommendations := recommendations (work w) @ [r]\<rparr>" "same_outside w w'"
proof -
  let ?mk = "recommendation_row k p"
  obtain run h where run: "get_run w k = Some run" and h: "get_hypothesis w (pc_hypothesis p) = Some h" "hyp_run h = k"
    and a: "add_recommendation ?mk w = (r, w')"
    using assms(1)
    by (auto simp: record_recommendation_def bind_Inr require_agent_run_simp split: option.splits if_splits prod.splits)
  show "k \<in> keys run_id (runs (work w))" using run by (auto dest: row_get_in_keys)
  show hr: "(pc_hypothesis p, k) \<in> hyp_runs (work w)"
    using in_keysI [of h "hypotheses (work w)" "\<lambda>h. (hyp_id h, hyp_run h)"] row_get_SomeD [OF h(1)] h(2) by simp
  show "r = ?mk (uuids w (uuid_count w))" and so: "same_outside w w'"
    and e: "work w' = work w\<lparr>recommendations := recommendations (work w) @ [r]\<rparr>"
    using a by (auto simp: write_defs same_outside_def)
  have "world_ok (snd (add_recommendation ?mk w))"
    using assms(2) hr by (intro add_recommendation_ok) (simp_all add: records_ok_def recommendation_row_def)
  moreover have "trail_ok (work w')" using assms(2) by (subst e) (simp add: records_ok_def trail_ok_def)
  ultimately show "records_ok w'" using assms(2) so a by (simp add: records_ok_def same_outside_def)
qed

text \<open>A refused record operation writes nothing.\<close>

lemma record_error:
  "create_agent_run py i rc w = (Inl e, w') \<Longrightarrow> w' = w \<and> i \<notin> keys inc_id (incidents (work w))"
  "record_tool_call k pt w = (Inl e, w') \<Longrightarrow> w' = w \<and> k \<notin> keys run_id (runs (work w))"
  "record_evidence py k pe w = (Inl e, w') \<Longrightarrow>
     w' = w \<and> (k \<notin> keys run_id (runs (work w)) \<or> \<not> tool_call_usable w k (ec_tool_call pe))"
  "record_hypothesis k ph w = (Inl e, w') \<Longrightarrow> w' = w"
  "record_recommendation k pc w = (Inl e, w') \<Longrightarrow> w' = w"
  by (auto simp: create_agent_run_def record_tool_call_def record_evidence_def record_hypothesis_def
      record_recommendation_def require_agent_run_def Let_def row_get_None_iff
      split: option.splits if_splits prod.splits)

subsection \<open>Provenance\<close>

text \<open>From a recommendation back to the hypothesis, the citation, the evidence and its tool call.\<close>

definition provenance :: "db \<Rightarrow> recommendation \<Rightarrow> hypothesis \<Rightarrow> evidence \<Rightarrow> bool" where
  "provenance d r h e \<longleftrightarrow> h \<in> set (hypotheses d) \<and> hyp_id h = rec_hypothesis r \<and> hyp_run h = rec_run r \<and>
     in_unit (hyp_confidence h) \<and>
     e \<in> set (evidences d) \<and> evd_run e = rec_run r \<and>
     (evd_id e, hyp_id h) \<in> keys (\<lambda>c. (he_evidence c, he_hypothesis c)) (citations d) \<and>
     (evd_run e, evd_incident e) \<in> run_incidents d \<and>
     (\<forall>k. evd_tool_call e = Some k \<longrightarrow>
        (\<exists>c \<in> set (tool_calls d). call_id c = k \<and> call_run c = rec_run r \<and> call_status c = Tool_SUCCEEDED))"

lemma provenance_exists:
  assumes "db_ok d" "trail_ok d" "r \<in> set (recommendations d)"
  shows "\<exists>h e. provenance d r h e"
proof -
  have "(rec_hypothesis r, rec_run r) \<in> hyp_runs d"
    using assms(1,3) by (auto simp: db_ok_def recommendations_ok_def)
  then obtain h where h: "h \<in> set (hypotheses d)" "hyp_id h = rec_hypothesis r" "hyp_run h = rec_run r"
    by (auto simp: keys_def)
  obtain c where c: "c \<in> set (citations d)" "he_hypothesis c = hyp_id h"
    using assms(2) h(1) by (auto simp: trail_ok_def)
  have ck: "(he_hypothesis c, he_run c) \<in> hyp_runs d" "(he_evidence c, he_run c) \<in> evd_runs d"
    using assms(1) c(1) by (auto simp: db_ok_def citations_ok_def)
  obtain g where g: "g \<in> set (hypotheses d)" "hyp_id g = he_hypothesis c" "hyp_run g = he_run c"
    using ck(1) by (auto simp: keys_def)
  have "g = h" using assms(1) g h(1) c(2)
    by (intro same_key [of hyp_id "hypotheses d"]) (auto simp: db_ok_def hypotheses_ok_def)
  then have run: "he_run c = rec_run r" using g(3) h(3) by simp
  obtain e where e: "e \<in> set (evidences d)" "evd_id e = he_evidence c" "evd_run e = rec_run r"
    using ck(2) run by (auto simp: keys_def)
  have "in_unit (hyp_confidence h)" "(evd_run e, evd_incident e) \<in> run_incidents d"
    using assms(1) h(1) e(1) by (auto simp: db_ok_def hypotheses_ok_def evidences_ok_def evidence_ok_def)
  moreover have "(evd_id e, hyp_id h) \<in> keys (\<lambda>c. (he_evidence c, he_hypothesis c)) (citations d)"
    using in_keysI [OF c(1), of "\<lambda>c. (he_evidence c, he_hypothesis c)"] c(2) e(2) by simp
  moreover have "\<forall>k. evd_tool_call e = Some k \<longrightarrow>
      (\<exists>c \<in> set (tool_calls d). call_id c = k \<and> call_run c = rec_run r \<and> call_status c = Tool_SUCCEEDED)"
    using assms(2) e(1,3) unfolding trail_ok_def by metis
  ultimately have "provenance d r h e" using h e by (simp add: provenance_def)
  then show ?thesis by blast
qed

subsection \<open>Either way, the records stay well formed\<close>

lemma records_keep [ok_intros]:
  "records_ok w \<Longrightarrow> records_ok (snd (create_agent_run py i rc w))"
  "records_ok w \<Longrightarrow> tool_create_ok pt \<Longrightarrow> records_ok (snd (record_tool_call k pt w))"
  "records_ok w \<Longrightarrow> evidence_create_ok pe \<Longrightarrow> records_ok (snd (record_evidence py k pe w))"
  "records_ok w \<Longrightarrow> hypothesis_create_ok ph \<Longrightarrow> records_ok (snd (record_hypothesis k ph w))"
  "records_ok w \<Longrightarrow> recommendation_create_ok pc \<Longrightarrow> records_ok (snd (record_recommendation k pc w))"
proof -
  have s: "(\<And>x. r = Inl x \<Longrightarrow> w' = w) \<Longrightarrow> (\<And>y. r = Inr y \<Longrightarrow> records_ok w') \<Longrightarrow> records_ok w \<Longrightarrow> records_ok w'"
    for r :: "exn + 'c" and w' by (cases r) auto
  show "records_ok w \<Longrightarrow> records_ok (snd (create_agent_run py i rc w))"
    by (rule s [of "fst (create_agent_run py i rc w)"]) (metis prod.collapse record_error(1) create_agent_run_effect(1))+
  show "records_ok w \<Longrightarrow> tool_create_ok pt \<Longrightarrow> records_ok (snd (record_tool_call k pt w))"
    by (rule s [of "fst (record_tool_call k pt w)"]) (metis prod.collapse record_error(2) record_tool_call_effect(1))+
  show "records_ok w \<Longrightarrow> evidence_create_ok pe \<Longrightarrow> records_ok (snd (record_evidence py k pe w))"
    by (rule s [of "fst (record_evidence py k pe w)"]) (metis prod.collapse record_error(3) record_evidence_effect(1))+
  show "records_ok w \<Longrightarrow> hypothesis_create_ok ph \<Longrightarrow> records_ok (snd (record_hypothesis k ph w))"
    by (rule s [of "fst (record_hypothesis k ph w)"]) (metis prod.collapse record_error(4) record_hypothesis_effect(1))+
  show "records_ok w \<Longrightarrow> recommendation_create_ok pc \<Longrightarrow> records_ok (snd (record_recommendation k pc w))"
    by (rule s [of "fst (record_recommendation k pc w)"])
      (metis prod.collapse record_error(5) record_recommendation_effect(1))+
qed

subsection \<open>Ingestion and the records\<close>

lemma trail_ok_same: "same_investigations d d' \<Longrightarrow> trail_ok d \<Longrightarrow> trail_ok d'"
  by (simp add: same_investigations_def trail_ok_def)

lemma ingest_alert_records:
  assumes "groups_ok w" "records_ok w"
  shows "records_ok (snd (ingest_alert py p ws w))"
  using ingest_alert_investigations [OF assms(1), of py p ws] trail_ok_same
    groups_okD [OF ingest_alert_groups_ok [OF assms(1)]] assms(2)
  unfolding records_ok_def by metis

lemma start_records_ok: "records_ok start_world"
  by (simp add: records_ok_def start_world_ok) (simp add: start_world_def trail_ok_def empty_db_def)

subsection \<open>A concrete investigation\<close>

text \<open>One alert, a run with one metric, a hypothesis that cites it and a proposed rollback.\<close>

definition demo_run_create :: run_create where
  "demo_run_create = \<lparr>rc_prompt_version = ''v1'', rc_provider = Some ''mock'', rc_model_name = None\<rparr>"

definition demo_tool_create :: tool_create where
  "demo_tool_create = \<lparr>tc_tool_name = ''query_prometheus'', tc_status = Tool_SUCCEEDED, tc_input = [],
     tc_output = [], tc_error = None, tc_started = 0, tc_finished = 1\<rparr>"

definition demo_evidence_create :: "uuid \<Rightarrow> evidence_create" where
  "demo_evidence_create t = \<lparr>ec_tool_call = Some t, ec_source_type = METRIC, ec_source_name = ''prometheus'',
     ec_query = ''up'', ec_query_params = [], ec_summary = ''down'', ec_raw_data = [],
     ec_range_start = Some 0, ec_range_end = Some 1, ec_collected = 1\<rparr>"

definition demo_hypothesis_create :: "uuid \<Rightarrow> hypothesis_create" where
  "demo_hypothesis_create e = \<lparr>hc_root_cause = ''bad_deploy'', hc_summary = ''regression'',
     hc_confidence = Fin (3 / 4), hc_evidence_ids = [e]\<rparr>"

definition demo_recommendation_create :: "uuid \<Rightarrow> recommendation_create" where
  "demo_recommendation_create h = \<lparr>pc_hypothesis = h, pc_action_type = ''simulated_rollback'',
     pc_parameters = [(''target_version'', JStr ''v1.4.1'')], pc_rationale = ''roll back'',
     pc_risk_level = Risk_MEDIUM\<rparr>"

definition demo_recommended :: world where
  "demo_recommended =
     (let w0 = snd (ingest_alert demo_pylib demo_alert 300 start_world);
          w1 = snd (create_agent_run demo_pylib 2 demo_run_create w0);
          w2 = snd (record_tool_call 4 demo_tool_create w1);
          w3 = snd (record_evidence demo_pylib 4 (demo_evidence_create 6) w2);
          w4 = snd (record_hypothesis 4 (demo_hypothesis_create 7) w3);
          w5 = snd (record_recommendation 4 (demo_recommendation_create 9) w4)
      in commit w5)"

lemma demo_creates_ok:
  "tool_create_ok demo_tool_create" "evidence_create_ok (demo_evidence_create t)"
  "hypothesis_create_ok (demo_hypothesis_create e)" "recommendation_create_ok (demo_recommendation_create h)"
  by (simp_all add: tool_create_ok_def demo_tool_create_def evidence_create_ok_def demo_evidence_create_def
      hypothesis_create_ok_def demo_hypothesis_create_def recommendation_create_ok_def
      demo_recommendation_create_def len_between_def not_blank_def strip_def strip_by_def is_space_def
      obj_finite_def time_range_ok_def opt_ok_def)

lemma records_ok_commit: "records_ok w \<Longrightarrow> records_ok (commit w)"
  using commit_ok [of w] by (simp add: records_ok_def) (simp add: commit_def)

lemma demo_recommended_ok: "records_ok demo_recommended"
  unfolding demo_recommended_def Let_def
  by (intro records_ok_commit records_keep demo_creates_ok ingest_alert_records start_groups_ok start_records_ok)

lemma demo_recommended_rows:
  "map rec_id (recommendations (work demo_recommended)) = [10]"
  "map rec_run (recommendations (work demo_recommended)) = [4]"
  "approvals (work demo_recommended) = []" "approvals (saved demo_recommended) = []"
  by code_simp+

end
