(* ===== verification/Approval.thy ===== *)
theory Approval
  imports Investigation
begin

section \<open>Approval service and the backend safety policy\<close>

text \<open>
  \<open>apps/api/app/services/approval_service.py\<close> and \<open>apps/worker/agent/policies/safety.py\<close>: the
  digest that binds an approval to one action, the request and the decision of an approval, and
  the check a mutating tool has to pass. \<open>approval_good\<close> is what every stored approval satisfies:
  it is the allow-listed action of its recommendation, under that action's digest, decided at most
  once, before it expires, and executed only when approved and after the decision.
\<close>

definition APPROVAL_TTL :: time where
  "APPROVAL_TTL = seconds (30 * 60)"

definition canonical_action :: "pylib \<Rightarrow> str \<Rightarrow> (str \<times> json) list \<Rightarrow> uuid \<Rightarrow> str" where
  "canonical_action py action_type parameters agent_run_id =
     dumps (float_text py) (JObj
       [(''action_type'', JStr action_type), (''parameters'', JObj parameters),
        (''agent_run_id'', JStr (uuid_text py agent_run_id))])"

definition action_digest :: "pylib \<Rightarrow> str \<Rightarrow> (str \<times> json) list \<Rightarrow> uuid \<Rightarrow> str" where
  "action_digest py action_type parameters agent_run_id =
     sha256_hex py (canonical_action py action_type parameters agent_run_id)"

subsection \<open>Requesting an approval\<close>

text \<open>
  The id of the new row exists once it is flushed. \<open>session.get\<close> of the incident flushes when it
  has to query, that is when the session has not loaded the incident before; when it has
  (\<open>incident_loaded\<close>), the event is written with the text None for the approval's id.
\<close>

definition approval_row :: "pylib \<Rightarrow> recommendation \<Rightarrow> time \<Rightarrow> time \<Rightarrow> uuid \<Rightarrow> approval" where
  "approval_row py r now created u =
     \<lparr>ap_id = u, ap_recommendation = rec_id r, ap_run = rec_run r, ap_action_type = rec_action_type r,
      ap_parameters = rec_parameters r,
      ap_action_hash = action_digest py (rec_action_type r) (rec_parameters r) (rec_run r),
      ap_status = Appr_PENDING, ap_decided_by = None, ap_decision_reason = None,
      ap_expires_at = utc (now + APPROVAL_TTL), ap_decided_at = None, ap_executed_at = None,
      ap_execution_status = None, ap_execution_error = None, ap_created_at = created\<rparr>"

definition request_approval :: "pylib \<Rightarrow> bool \<Rightarrow> uuid \<Rightarrow> (world, approval) op" where
  "request_approval py incident_loaded recommendation_id w =
     (case get_recommendation w recommendation_id of
        None \<Rightarrow> (Inl (ApprovalError ''Recommendation not found''), w)
      | Some r \<Rightarrow>
          if rec_action_type r \<notin> set ALLOWED_ACTIONS
          then (Inl (ApprovalError ''Action is not allow-listed''), w)
          else (case List.find (\<lambda>a. ap_recommendation a = recommendation_id) (approvals (work w)) of
             Some existing \<Rightarrow> (Inr existing, w)
           | None \<Rightarrow>
               (case get_run w (rec_run r) of
                  None \<Rightarrow> (Inl (ApprovalError ''Agent run not found''), w)
                | Some run \<Rightarrow>
                    let (now, w1) = utc_now w;
                        (a, w2) = add_approval (approval_row py r now (db_now w1)) w1
                    in (case get_incident w2 (run_incident run) of
                          None \<Rightarrow> (Inr a, w2)
                        | Some i \<Rightarrow>
                            (Inr a, add_event (run_incident run) APPROVAL_REQUESTED
                               ''Remediation recommendation is waiting for human approval.''
                               [(''approval_id'', JStr (if incident_loaded then ''None'' else uuid_text py (ap_id a))),
                                (''recommendation_id'', JStr (uuid_text py recommendation_id))]
                               (set_incident (i\<lparr>inc_status := NEEDS_APPROVAL\<rparr>) w2))))))"

subsection \<open>Deciding an approval\<close>

definition decide_approval :: "pylib \<Rightarrow> uuid \<Rightarrow> approval_decision \<Rightarrow> (world, approval) op" where
  "decide_approval py approval_id p w =
     (case get_approval w approval_id of
        None \<Rightarrow> (Inl (ApprovalError ''Approval not found''), w)
      | Some a \<Rightarrow>
          if ap_status a \<noteq> Appr_PENDING
          then (Inl (ApprovalError ''Approval has already been decided''), w)
          else let (now, w1) = utc_now w in
            if as_utc (ap_expires_at a) < now
            then (Inl (ApprovalError ''Approval has expired''), w1)
            else if ad_decision p \<notin> {Appr_APPROVED, Appr_REJECTED}
            then (Inl (ApprovalError ''Decision must be approved or rejected''), w1)
            else if action_digest py (ap_action_type a) (ap_parameters a) (ap_run a) \<noteq> ap_action_hash a
            then (Inl (ApprovalError ''Approval action integrity check failed''), w1)
            else let a' = a\<lparr>ap_status := ad_decision p, ap_decided_by := Some (ad_decided_by p),
                            ap_decision_reason := ad_reason p, ap_decided_at := Some now\<rparr>;
                     w2 = set_approval a' w1
              in (case get_run w2 (ap_run a) of
                    None \<Rightarrow> (Inr a', w2)
                  | Some run \<Rightarrow>
                      (case get_incident w2 (run_incident run) of
                         None \<Rightarrow> (Inr a', w2)
                       | Some i \<Rightarrow>
                           (Inr a', add_event (inc_id i) APPROVAL_DECIDED
                              (''Approval '' @ approval_status_value (ad_decision p) @ '' by '' @ ad_decided_by p @ ''.'')
                              [(''approval_id'', JStr (uuid_text py (ap_id a)))]
                              (set_incident (i\<lparr>inc_status := (if ad_decision p = Appr_APPROVED then APPROVED
                                 else REJECTED)\<rparr>) w2)))))"

subsection \<open>The policy check\<close>

definition compute_action_hash :: "pylib \<Rightarrow> str \<Rightarrow> (str \<times> json) list \<Rightarrow> uuid \<Rightarrow> str" where
  "compute_action_hash py action_type parameters agent_run_id =
     sha256_hex py (dumps (float_text py) (JObj
       [(''action_type'', JStr action_type), (''parameters'', JObj parameters),
        (''agent_run_id'', JStr (uuid_text py agent_run_id))]))"

definition blocked :: "str \<Rightarrow> exn" where
  "blocked msg = RemediationSecurityError (''MUTATING ACTION BLOCKED: '' @ msg)"

definition verify_backend_approval ::
    "pylib \<Rightarrow> approval option \<Rightarrow> str \<Rightarrow> (str \<times> json) list \<Rightarrow> uuid \<Rightarrow> time option \<Rightarrow> (world, unit) op" where
  "verify_backend_approval py appr action_type parameters agent_run_id now w =
     (case appr of
        None \<Rightarrow> (Inl (blocked (''No approval record exists for '' @ [CHR 0x27] @ action_type @ [CHR 0x27] @ ''.'')), w)
      | Some a \<Rightarrow>
          if action_type \<notin> set ALLOWED_ACTIONS
          then (Inl (blocked (''Action '' @ [CHR 0x27] @ action_type @ [CHR 0x27] @ '' is not in ALLOWED_ACTIONS.'')), w)
          else if ap_run a \<noteq> agent_run_id
          then (Inl (blocked (''Approval '' @ uuid_text py (ap_id a) @ '' belongs to run '' @
                 uuid_text py (ap_run a) @ '', not current run '' @ uuid_text py agent_run_id @ ''.'')), w)
          else if ap_status a \<noteq> Appr_APPROVED
          then (Inl (blocked (''Approval status is '' @ [CHR 0x27] @ approval_status_value (ap_status a) @
                 [CHR 0x27] @ '', must be '' @ [CHR 0x27] @ ''approved'' @ [CHR 0x27] @ ''.'')), w)
          else let (current_time, w1) = (case now of Some t \<Rightarrow> (t, w) | None \<Rightarrow> utc_now w) in
            if as_utc (ap_expires_at a) < current_time
            then (Inl (blocked (''Backend approval '' @ uuid_text py (ap_id a) @ '' expired at '' @
                   datetime_text py (utc (as_utc (ap_expires_at a))) @ ''.'')), w1)
            else if ap_executed_at a \<noteq> None
            then (Inl (blocked (''Approval '' @ uuid_text py (ap_id a) @ '' has already been executed.'')), w1)
            else let expected_hash = compute_action_hash py action_type parameters agent_run_id in
              if ap_action_hash a \<noteq> expected_hash
              then (Inl (blocked (''Action hash mismatch! Recorded '' @ [CHR 0x27] @ ap_action_hash a @ [CHR 0x27] @
                     '', calculated '' @ [CHR 0x27] @ expected_hash @ [CHR 0x27] @
                     ''. Parameters were tampered or do not match approval.'')), w1)
              else (Inr (), w1))"

subsection \<open>The digest binds an approval to its action\<close>

lemma canon_action:
  "canon (JObj [(''action_type'', JStr t), (''parameters'', JObj ps), (''agent_run_id'', JStr r)]) =
     JObj [(''action_type'', JStr t), (''agent_run_id'', JStr r), (''parameters'', canon (JObj ps))]"
proof -
  have "\<not> ''parameters'' \<le> ''agent_run_id''" "''action_type'' \<le> ''agent_run_id''" "''action_type'' \<le> ''parameters''"
    by code_simp+
  then show ?thesis by simp
qed

lemma canonical_action_inj:
  assumes "pylib_ok py" "canonical_action py t ps r = canonical_action py t' ps' r'"
  shows "t = t' \<and> canon (JObj ps) = canon (JObj ps') \<and> r = r'"
proof -
  let ?j = "\<lambda>t ps r. JObj [(''action_type'', JStr t), (''parameters'', JObj ps), (''agent_run_id'', JStr (uuid_text py r))]"
  have "canon (?j t ps r) = canon (?j t' ps' r')"
    using assms unfolding canonical_action_def by (intro dumps_inj) (simp_all add: pylib_ok_def)
  then have "t = t'" "uuid_text py r = uuid_text py r'" "canon (JObj ps) = canon (JObj ps')"
    unfolding canon_action by auto
  then show ?thesis using assms(1) by (simp add: pylib_ok_def inj_eq)
qed

lemma digest_binds:
  assumes "pylib_ok py" "action_digest py t ps r = action_digest py t' ps' r'"
  shows "(t = t' \<and> canon (JObj ps) = canon (JObj ps') \<and> r = r') \<or>
    (canonical_action py t ps r \<noteq> canonical_action py t' ps' r' \<and>
     sha256_hex py (canonical_action py t ps r) = sha256_hex py (canonical_action py t' ps' r'))"
  using canonical_action_inj [OF assms(1), of t ps r t' ps' r'] assms(2) unfolding action_digest_def by blast

subsection \<open>What holds of every stored approval\<close>

definition approval_good :: "pylib \<Rightarrow> time \<Rightarrow> db \<Rightarrow> approval \<Rightarrow> bool" where
  "approval_good py now d a \<longleftrightarrow>
     (\<exists>r \<in> set (recommendations d). rec_id r = ap_recommendation a \<and> rec_run r = ap_run a \<and>
        rec_action_type r = ap_action_type a \<and> rec_parameters r = ap_parameters a) \<and>
     ap_action_hash a = action_digest py (ap_action_type a) (ap_parameters a) (ap_run a) \<and>
     (case ap_decided_at a of
        None \<Rightarrow> ap_status a = Appr_PENDING \<and> ap_executed_at a = None
      | Some t \<Rightarrow> ap_status a \<noteq> Appr_PENDING \<and> ap_decided_by a \<noteq> None \<and>
          t \<le> as_utc (ap_expires_at a) \<and> t \<le> now) \<and>
     (case ap_executed_at a of
        None \<Rightarrow> ap_execution_status a = None
      | Some x \<Rightarrow> ap_status a = Appr_APPROVED \<and> ap_action_type a = ''simulated_rollback'' \<and> x \<le> now \<and>
          (\<exists>t. ap_decided_at a = Some t \<and> t \<le> x) \<and>
          ap_execution_status a \<in> {Some ''succeeded'', Some ''failed''})"

definition now_of :: "world \<Rightarrow> time" where
  "now_of w = clock w (clock_reads w)"

definition approvals_inv :: "pylib \<Rightarrow> world \<Rightarrow> bool" where
  "approvals_inv py w \<longleftrightarrow> records_ok w \<and>
     (\<forall>a \<in> set (approvals (work w)). approval_good py (now_of w) (work w) a) \<and>
     (\<forall>a \<in> set (approvals (saved w)). approval_good py (now_of w) (saved w) a)"

lemma approval_good_mono:
  assumes "approval_good py now d a" "now \<le> now'" "set (recommendations d) \<subseteq> set (recommendations d')"
  shows "approval_good py now' d' a"
  using assms by (fastforce simp: approval_good_def split: option.splits)

lemma approvals_inv_step:
  assumes "approvals_inv py w" "records_ok w'" "now_of w \<le> now_of w'"
    "approvals (work w') = approvals (work w)" "set (recommendations (work w)) \<subseteq> set (recommendations (work w'))"
    "approvals (saved w') = approvals (saved w)" "set (recommendations (saved w)) \<subseteq> set (recommendations (saved w'))"
  shows "approvals_inv py w'"
  using assms(1-3) approval_good_mono [OF _ assms(3,5)] approval_good_mono [OF _ assms(3,7)]
  by (simp add: approvals_inv_def assms(4,6))

lemma approvals_inv_commit: "approvals_inv py w \<Longrightarrow> approvals_inv py (commit w)"
  by (simp add: approvals_inv_def records_ok_def commit_ok now_of_def) (simp add: commit_def)

lemma approvals_inv_rollback: "approvals_inv py w \<Longrightarrow> approvals_inv py (rollback w)"
  by (simp add: approvals_inv_def records_ok_def rollback_ok now_of_def) (simp add: rollback_def)

lemma utc_now_tick:
  assumes "utc_now w = (t, w1)" "world_ok w"
  shows "t = now_of w" "t \<le> now_of w1" "w1 = w\<lparr>clock_reads := Suc (clock_reads w)\<rparr>"
  using assms by (auto simp: utc_now_def now_of_def world_ok_def monoD)

lemma records_ok_utc_now: "utc_now w = (t, w1) \<Longrightarrow> records_ok w \<Longrightarrow> records_ok w1"
  using utc_now_ok [of w] by (auto simp: records_ok_def utc_now_def)

lemma approvals_inv_utc_now:
  assumes "utc_now w = (t, w1)" "approvals_inv py w" shows "approvals_inv py w1"
proof (rule approvals_inv_step [OF assms(2)])
  have r: "records_ok w" using assms(2) by (simp add: approvals_inv_def)
  show "records_ok w1" using records_ok_utc_now [OF assms(1) r] .
  show "now_of w \<le> now_of w1" using utc_now_tick [OF assms(1)] r by (auto simp: records_ok_def)
qed (use assms(1) in \<open>auto simp: utc_now_def\<close>)

lemma approvals_inv_event:
  assumes "approvals_inv py w" "i \<in> keys inc_id (incidents (work w))"
  shows "approvals_inv py (add_event i ty m md w)"
proof (rule approvals_inv_step [OF assms(1)])
  show "records_ok (add_event i ty m md w)"
    using assms add_event_ok [of w i ty m md]
    by (simp add: approvals_inv_def records_ok_def add_event_def new_uuid_def with_work_def trail_ok_def)
qed (simp_all add: add_event_def new_uuid_def with_work_def now_of_def)

lemma approvals_inv_set_incident:
  assumes "approvals_inv py w" "inc_service i \<in> keys sv_id (services (work w))"
  shows "approvals_inv py (set_incident i w)"
proof (rule approvals_inv_step [OF assms(1)])
  show "records_ok (set_incident i w)"
    using assms set_incident_ok [of w i]
    by (simp add: approvals_inv_def records_ok_def set_incident_def with_work_def trail_ok_def)
qed (simp_all add: set_incident_def with_work_def now_of_def)

text \<open>The status of the incident and the event that tells of it.\<close>

lemma get_incident_service:
  assumes "get_incident w k = Some i" "world_ok w"
  shows "inc_id i = k" "k \<in> keys inc_id (incidents (work w))" "inc_service i \<in> keys sv_id (services (work w))"
  using assms row_get_SomeD [OF assms(1)] world_okD [OF assms(2)]
  by (auto simp: db_ok_def incidents_ok_def dest: row_get_in_keys)

lemma approvals_inv_status_event:
  assumes "approvals_inv py w" "get_incident w k = Some i"
  shows "approvals_inv py (add_event k ty m md (set_incident (i\<lparr>inc_status := st\<rparr>) w))"
proof -
  have w: "world_ok w" using assms(1) by (simp add: approvals_inv_def records_ok_def)
  note g = get_incident_service [OF assms(2) w]
  have "approvals_inv py (set_incident (i\<lparr>inc_status := st\<rparr>) w)"
    using approvals_inv_set_incident [OF assms(1)] g(3) by simp
  then show ?thesis
    by (rule approvals_inv_event) (use g in \<open>simp add: set_incident_def with_work_def keys_row_set\<close>)
qed

subsection \<open>Request and decision, case by case\<close>

lemma find_approval_None:
  "List.find (\<lambda>a. ap_recommendation a = k) t = None \<longleftrightarrow> k \<notin> keys ap_recommendation t"
  by (auto simp: find_None_iff keys_def)

lemma approvals_inv_parts:
  assumes "approvals_inv py w"
  shows "world_ok w" "db_ok (work w)" "records_ok w"
  using assms by (auto simp: approvals_inv_def records_ok_def world_okD)

lemma run_of_recommendation:
  assumes "db_ok d" "r \<in> set (recommendations d)"
  obtains run where "row_get run_id (rec_run r) (runs d) = Some run"
    "run_incident run \<in> keys inc_id (incidents d)"
proof -
  have "(rec_hypothesis r, rec_run r) \<in> hyp_runs d"
    using assms by (auto simp: db_ok_def recommendations_ok_def)
  then have "rec_run r \<in> keys run_id (runs d)"
    using assms(1) by (auto simp: db_ok_def hypotheses_ok_def keys_def)
  then obtain run where run: "row_get run_id (rec_run r) (runs d) = Some run"
    using row_get_None_iff by (metis option.exhaust)
  then have "run \<in> set (runs d)" by (auto dest: row_get_SomeD)
  then have "run_incident run \<in> keys inc_id (incidents d)"
    using assms(1) by (auto simp: db_ok_def runs_ok_def run_ok_def)
  then show thesis using that run by blast
qed

lemma request_approval_cases:
  assumes "request_approval py il k w = (out, w')" "approvals_inv py w"
  obtains (missing) "out = Inl (ApprovalError ''Recommendation not found'')" "w' = w"
      "k \<notin> keys rec_id (recommendations (work w))"
  | (refused) r where "out = Inl (ApprovalError ''Action is not allow-listed'')" "w' = w"
      "get_recommendation w k = Some r" "rec_action_type r \<notin> set ALLOWED_ACTIONS"
  | (existing) a where "out = Inr a" "w' = w" "a \<in> set (approvals (work w))" "ap_recommendation a = k"
      "List.find (\<lambda>a. ap_recommendation a = k) (approvals (work w)) = Some a"
  | (new) r run a i w2 md where "out = Inr a" "get_recommendation w k = Some r"
      "rec_action_type r \<in> set ALLOWED_ACTIONS" "k \<notin> keys ap_recommendation (approvals (work w))"
      "get_run w (rec_run r) = Some run"
      "a = approval_row py r (now_of w) (db_now w) (uuids w (uuid_count w))"
      "w2 = snd (add_approval (approval_row py r (now_of w) (db_now w)) (snd (utc_now w)))"
      "get_incident w2 (run_incident run) = Some i"
      "w' = add_event (run_incident run) APPROVAL_REQUESTED
         ''Remediation recommendation is waiting for human approval.'' md
         (set_incident (i\<lparr>inc_status := NEEDS_APPROVAL\<rparr>) w2)"
proof (cases "get_recommendation w k")
  case None
  have "k \<notin> keys rec_id (recommendations (work w))" using None row_get_None_iff by metis
  then show thesis using assms(1) missing None by (simp add: request_approval_def)
next
  case (Some r)
  note d = approvals_inv_parts(2) [OF assms(2)]
  show thesis
  proof (cases "rec_action_type r \<in> set ALLOWED_ACTIONS")
    case False
    then show thesis using assms(1) Some refused by (simp add: request_approval_def)
  next
    case allowed: True
    show thesis
    proof (cases "List.find (\<lambda>a. ap_recommendation a = k) (approvals (work w))")
      case (Some a)
      then show thesis
        using assms(1) \<open>get_recommendation w k = Some r\<close> allowed existing [OF _ _ _ _ Some] find_SomeD [OF Some]
        by (simp add: request_approval_def)
    next
      case None
      have "r \<in> set (recommendations (work w))" using Some by (auto dest: row_get_SomeD)
      then obtain run where run: "get_run w (rec_run r) = Some run"
        "run_incident run \<in> keys inc_id (incidents (work w))" using run_of_recommendation [OF d] by blast
      let ?w2 = "snd (add_approval (approval_row py r (now_of w) (db_now w)) (snd (utc_now w)))"
      have "get_incident ?w2 (run_incident run) = get_incident w (run_incident run)"
        by (simp add: write_defs)
      then obtain i where i: "get_incident ?w2 (run_incident run) = Some i"
        using run(2) row_get_None_iff by (metis option.exhaust)
      show thesis
        using assms(1) Some allowed None run(1) i
        by (intro new [of "approval_row py r (now_of w) (db_now w) (uuids w (uuid_count w))" r run ?w2 i])
          (auto simp: request_approval_def find_approval_None Let_def now_of_def utc_now_def add_approval_def
            new_uuid_def with_work_def split: prod.splits)
    qed
  qed
qed

lemma add_approval_inv:
  assumes "approvals_inv py w" "get_recommendation w k = Some r" "rec_action_type r \<in> set ALLOWED_ACTIONS"
    "k \<notin> keys ap_recommendation (approvals (work w))"
  shows "approvals_inv py (snd (add_approval (approval_row py r now c) w))"
proof -
  let ?mk = "approval_row py r now c" and ?w = "snd (add_approval (approval_row py r now c) w)"
  note d = approvals_inv_parts [OF assms(1)]
  have r: "r \<in> set (recommendations (work w))" "rec_id r = k" using assms(2) by (auto dest: row_get_SomeD)
  obtain run where "row_get run_id (rec_run r) (runs (work w)) = Some run"
    using run_of_recommendation [OF d(2) r(1)] .
  then have "world_ok ?w"
    using d(1) r assms(3,4) in_keysI [OF r(1), of rec_id]
    by (intro add_approval_ok) (auto simp: approval_row_def dest: row_get_in_keys)
  then have ok: "records_ok ?w"
    using d(3) by (simp add: records_ok_def add_approval_def new_uuid_def with_work_def trail_ok_def)
  have "approval_good py (now_of w) (work ?w) (?mk u)" for u
    using r by (auto simp: approval_good_def approval_row_def add_approval_def new_uuid_def with_work_def)
  moreover have "approval_good py (now_of w) (work ?w) a" if "a \<in> set (approvals (work w))" for a
    using that assms(1) approval_good_mono [of py "now_of w" "work w" a "now_of w" "work ?w"]
    by (simp add: approvals_inv_def add_approval_def new_uuid_def with_work_def)
  ultimately show ?thesis
    using ok assms(1)
    by (auto simp: approvals_inv_def add_approval_def new_uuid_def with_work_def now_of_def)
qed

lemma request_approval_inv:
  assumes "approvals_inv py w"
  shows "approvals_inv py (snd (request_approval py il k w))"
proof (cases "request_approval py il k w")
  case (Pair out w')
  show ?thesis
  proof (cases rule: request_approval_cases [OF Pair assms, case_names missing refused existing new])
    case (new r run a i w2 md)
    have u: "approvals_inv py (snd (utc_now w))"
      using approvals_inv_utc_now [OF _ assms] by (metis prod.collapse)
    have "approvals_inv py w2" unfolding new(7)
      by (rule add_approval_inv [OF u, of k]) (use new in \<open>simp_all add: utc_now_def\<close>)
    then show ?thesis using approvals_inv_status_event [OF _ new(8)] by (simp add: Pair new(9))
  qed (use assms Pair in auto)
qed

text \<open>The approval a decision writes.\<close>

definition decided :: "approval \<Rightarrow> approval_decision \<Rightarrow> time \<Rightarrow> approval" where
  "decided a p now = a\<lparr>ap_status := ad_decision p, ap_decided_by := Some (ad_decided_by p),
     ap_decision_reason := ad_reason p, ap_decided_at := Some now\<rparr>"

definition decidable :: "world \<Rightarrow> uuid \<Rightarrow> approval_decision \<Rightarrow> approval \<Rightarrow> bool" where
  "decidable w k p a \<longleftrightarrow> get_approval w k = Some a \<and> ap_status a = Appr_PENDING \<and>
     \<not> as_utc (ap_expires_at a) < now_of w \<and> ad_decision p \<in> {Appr_APPROVED, Appr_REJECTED}"

lemma approval_run:
  assumes "approvals_inv py w" "a \<in> set (approvals (work w))"
  obtains run i where "get_run w (ap_run a) = Some run" "get_incident w (run_incident run) = Some i"
proof -
  have d: "db_ok (work w)" by (rule approvals_inv_parts(2) [OF assms(1)])
  then have "ap_run a \<in> keys run_id (runs (work w))"
    using assms(2) by (auto simp: db_ok_def approvals_ok_def)
  then obtain run where run: "get_run w (ap_run a) = Some run"
    using row_get_None_iff by (metis option.exhaust)
  then have "run \<in> set (runs (work w))" by (auto dest: row_get_SomeD)
  then have "run_incident run \<in> keys inc_id (incidents (work w))"
    using d by (auto simp: db_ok_def runs_ok_def run_ok_def)
  then obtain i where "get_incident w (run_incident run) = Some i"
    using row_get_None_iff by (metis option.exhaust)
  then show thesis using that run by blast
qed

lemma approval_digest:
  assumes "approvals_inv py w" "get_approval w k = Some a"
  shows "ap_action_hash a = action_digest py (ap_action_type a) (ap_parameters a) (ap_run a)" "ap_id a = k"
  using assms row_get_SomeD [OF assms(2)] by (auto simp: approvals_inv_def approval_good_def)

lemma decide_approval_cases:
  assumes "decide_approval py k p w = (out, w')" "approvals_inv py w"
  obtains (refused) e where "out = Inl (ApprovalError e)" "w' = w \<or> w' = snd (utc_now w)"
      "\<not> (\<exists>a. decidable w k p a)"
      "\<forall>a. get_approval w k = Some a \<longrightarrow> ap_status a \<noteq> Appr_PENDING \<longrightarrow>
         e = ''Approval has already been decided'' \<and> w' = w"
  | (decides) a run i md where "out = Inr (decided a p (now_of w))" "decidable w k p a"
      "get_run w (ap_run a) = Some run" "get_incident w (run_incident run) = Some i"
      "w' = add_event (inc_id i) APPROVAL_DECIDED
         (''Approval '' @ approval_status_value (ad_decision p) @ '' by '' @ ad_decided_by p @ ''.'') md
         (set_incident (i\<lparr>inc_status := (if ad_decision p = Appr_APPROVED then APPROVED else REJECTED)\<rparr>)
           (set_approval (decided a p (now_of w)) (snd (utc_now w))))"
proof (cases "get_approval w k")
  case None
  then show thesis
    using assms(1) by (intro refused [of "''Approval not found''"]) (auto simp: decide_approval_def decidable_def)
next
  case (Some a)
  have inst: "a \<in> set (approvals (work w))" using Some by (auto dest: row_get_SomeD)
  show thesis
  proof (cases "decidable w k p a")
    case False
    then consider "ap_status a \<noteq> Appr_PENDING" | "ap_status a = Appr_PENDING" "as_utc (ap_expires_at a) < now_of w"
      | "ap_status a = Appr_PENDING" "\<not> as_utc (ap_expires_at a) < now_of w" "ad_decision p \<notin> {Appr_APPROVED, Appr_REJECTED}"
      using Some unfolding decidable_def by blast
    then show thesis
    proof cases
      case 1
      then show thesis
        using assms(1) Some False
        by (intro refused [of "''Approval has already been decided''"]) (simp_all add: decide_approval_def decidable_def)
    next
      case 2
      then show thesis
        using assms(1) Some False
        by (intro refused [of "''Approval has expired''"])
          (simp_all add: decide_approval_def decidable_def now_of_def utc_now_def)
    next
      case 3
      then show thesis
        using assms(1) Some False
        by (intro refused [of "''Decision must be approved or rejected''"])
          (simp_all add: decide_approval_def decidable_def now_of_def utc_now_def)
    qed
  next
    case True
    obtain run i where ri: "get_run w (ap_run a) = Some run" "get_incident w (run_incident run) = Some i"
      using approval_run [OF assms(2) inst] .
    show thesis
      using assms(1) Some True ri approval_digest [OF assms(2) Some]
      by (intro decides [of a run i "[(''approval_id'', JStr (uuid_text py (ap_id a)))]"])
        (auto simp: decide_approval_def decidable_def decided_def Let_def now_of_def write_defs)
  qed
qed

lemma set_approval_inv:
  assumes "approvals_inv py w" "get_approval w (ap_id b) = Some a" "ap_recommendation b = ap_recommendation a"
    "ap_run b = ap_run a" "ap_action_type b = ap_action_type a"
    "approval_good py (now_of w) (work w) b"
  shows "approvals_inv py (set_approval b w)"
proof -
  note d = approvals_inv_parts [OF assms(1)]
  have "world_ok (set_approval b w)" using d(1) assms(2-5) by (intro set_approval_ok) auto
  then have "records_ok (set_approval b w)"
    using d(3) by (simp add: records_ok_def set_approval_def with_work_def trail_ok_def)
  moreover have "approval_good py (now_of w) (work (set_approval b w)) x" if "approval_good py (now_of w) (work w) x" for x
    using approval_good_mono [OF that, of "now_of w" "work (set_approval b w)"]
    by (simp add: set_approval_def with_work_def)
  ultimately show ?thesis
    using assms(1,6) set_row_set_subset [of ap_id b "approvals (work w)"]
    by (auto simp: approvals_inv_def set_approval_def with_work_def now_of_def)
qed

lemma decide_approval_inv:
  assumes "approvals_inv py w"
  shows "approvals_inv py (snd (decide_approval py k p w))"
proof (cases "decide_approval py k p w")
  case (Pair out w')
  have u: "approvals_inv py (snd (utc_now w))"
    using approvals_inv_utc_now [OF _ assms] by (metis prod.collapse)
  have t: "now_of w \<le> now_of (snd (utc_now w))"
    using utc_now_tick(1,2) [of w] approvals_inv_parts(1) [OF assms] by (metis prod.collapse)
  show ?thesis
  proof (cases rule: decide_approval_cases [OF Pair assms, case_names refused decides])
    case (refused e)
    then show ?thesis using Pair u assms by auto
  next
    case (decides a run i md)
    let ?b = "decided a p (now_of w)" and ?w1 = "snd (utc_now w)"
    have a: "get_approval w k = Some a" "ap_status a = Appr_PENDING" "now_of w \<le> as_utc (ap_expires_at a)"
      "ad_decision p \<noteq> Appr_PENDING"
      using decides(2) by (auto simp: decidable_def)
    then have "a \<in> set (approvals (work w))" "ap_id a = k" by (auto dest: row_get_SomeD)
    then have g: "approval_good py (now_of w) (work w) a" using assms by (simp add: approvals_inv_def)
    have "approval_good py (now_of ?w1) (work ?w1) ?b"
      using g a t by (auto simp: approval_good_def decided_def utc_now_def split: option.splits)
    then have s: "approvals_inv py (set_approval ?b ?w1)"
      using a \<open>ap_id a = k\<close> by (intro set_approval_inv [OF u, where a = a]) (simp_all add: decided_def utc_now_def)
    have "inc_id i = run_incident run"
      using get_incident_service(1) [OF decides(4)] approvals_inv_parts(1) [OF assms] by simp
    then have i: "get_incident (set_approval ?b ?w1) (inc_id i) = Some i"
      using decides(4) by (simp add: write_defs)
    show ?thesis using approvals_inv_status_event [OF s i] by (simp add: Pair decides(5))
  qed
qed

subsection \<open>The life of an approval\<close>

text \<open>
  \<open>b\<close> is a later state of \<open>a\<close>: the action, its digest, its owner and its deadline never
  change, a decision is never taken back and an execution is never undone.
\<close>

definition evolves :: "approval \<Rightarrow> approval \<Rightarrow> bool" where
  "evolves a b \<longleftrightarrow> ap_id b = ap_id a \<and> ap_recommendation b = ap_recommendation a \<and> ap_run b = ap_run a \<and>
     ap_action_type b = ap_action_type a \<and> ap_parameters b = ap_parameters a \<and>
     ap_action_hash b = ap_action_hash a \<and> ap_expires_at b = ap_expires_at a \<and>
     (ap_status a \<noteq> Appr_PENDING \<longrightarrow> ap_status b = ap_status a \<and> ap_decided_by b = ap_decided_by a \<and>
        ap_decision_reason b = ap_decision_reason a \<and> ap_decided_at b = ap_decided_at a) \<and>
     (ap_executed_at a \<noteq> None \<longrightarrow> b = a)"

lemma evolves_refl: "evolves a a"
  by (simp add: evolves_def)

lemma evolves_trans: "evolves a b \<Longrightarrow> evolves b c \<Longrightarrow> evolves a c"
  unfolding evolves_def by metis

definition approvals_evolve :: "db \<Rightarrow> db \<Rightarrow> bool" where
  "approvals_evolve d d' \<longleftrightarrow> (\<forall>a \<in> set (approvals d). \<exists>b \<in> set (approvals d'). evolves a b)"

lemma approvals_evolve_refl: "approvals_evolve d d"
  using evolves_refl by (auto simp: approvals_evolve_def)

lemma approvals_evolve_trans: "approvals_evolve d e \<Longrightarrow> approvals_evolve e f \<Longrightarrow> approvals_evolve d f"
  unfolding approvals_evolve_def using evolves_trans by blast

lemma approvals_evolve_same: "approvals d' = approvals d \<Longrightarrow> approvals_evolve d d'"
  using evolves_refl by (auto simp: approvals_evolve_def)

lemma approvals_evolve_set:
  assumes "distinct (map ap_id (approvals d))" "row_get ap_id (ap_id b) (approvals d) = Some a" "evolves a b"
    "approvals d' = row_set ap_id b (approvals d)"
  shows "approvals_evolve d d'"
  unfolding approvals_evolve_def
proof
  fix x assume x: "x \<in> set (approvals d)"
  have a: "a \<in> set (approvals d)" "ap_id a = ap_id b" using row_get_SomeD [OF assms(2)] by auto
  have k: "ap_id b \<in> keys ap_id (approvals d)" using assms(2) by (rule row_get_in_keys)
  show "\<exists>y \<in> set (approvals d'). evolves x y"
  proof (cases "ap_id x = ap_id b")
    case True
    then have "x = a" using same_key [OF assms(1) x a(1)] a(2) by simp
    then show ?thesis using assms(3) k by (auto simp: assms(4) set_row_set)
  next
    case False
    then have "x \<in> set (approvals d')" using x by (simp add: assms(4) set_row_set)
    then show ?thesis using evolves_refl by blast
  qed
qed

lemma request_approval_evolve:
  assumes "approvals_inv py w"
  shows "approvals_evolve (work w) (work (snd (request_approval py il k w)))"
    "saved (snd (request_approval py il k w)) = saved w"
proof -
  obtain out w' where p: "request_approval py il k w = (out, w')" by fastforce
  have "approvals_evolve (work w) (work w') \<and> saved w' = saved w"
  proof (cases rule: request_approval_cases [OF p assms, case_names missing refused existing new])
    case (new r run a i w2 md)
    have "approvals (work w') = approvals (work w) @ [a]" "saved w' = saved w"
      using new(6,7,9) by (auto simp: write_defs)
    then show ?thesis using evolves_refl by (auto simp: approvals_evolve_def)
  qed (auto simp: approvals_evolve_refl)
  then show "approvals_evolve (work w) (work (snd (request_approval py il k w)))"
    "saved (snd (request_approval py il k w)) = saved w" by (simp_all add: p)
qed

lemma decide_approval_evolve:
  assumes "approvals_inv py w"
  shows "approvals_evolve (work w) (work (snd (decide_approval py k p w)))"
    "saved (snd (decide_approval py k p w)) = saved w"
proof -
  obtain out w' where o: "decide_approval py k p w = (out, w')" by fastforce
  have "approvals_evolve (work w) (work w') \<and> saved w' = saved w"
  proof (cases rule: decide_approval_cases [OF o assms, case_names refused decides])
    case (refused e)
    then show ?thesis using approvals_evolve_same by (auto simp: utc_now_def)
  next
    case (decides a run i md)
    have a: "get_approval w k = Some a" "ap_status a = Appr_PENDING" using decides(2) by (auto simp: decidable_def)
    then have m: "a \<in> set (approvals (work w))" "ap_id a = k" by (auto dest: row_get_SomeD)
    then have "ap_executed_at a = None"
      using assms a(2) by (auto simp: approvals_inv_def approval_good_def split: option.splits)
    then have e: "evolves a (decided a p (now_of w))" using a(2) by (simp add: evolves_def decided_def)
    have "distinct (map ap_id (approvals (work w)))"
      using approvals_inv_parts(2) [OF assms] by (simp add: db_ok_def approvals_ok_def)
    then have "approvals_evolve (work w) (work w')"
      by (rule approvals_evolve_set [OF _ _ e]) (use a m decides(5) in \<open>simp_all add: decided_def write_defs\<close>)
    then show ?thesis using decides(5) by (simp add: write_defs)
  qed
  then show "approvals_evolve (work w) (work (snd (decide_approval py k p w)))"
    "saved (snd (decide_approval py k p w)) = saved w" by (simp_all add: o)
qed

subsection \<open>The promises of the approval boundary\<close>

lemma demo_recommended_inv: "approvals_inv demo_pylib demo_recommended"
  by (simp add: approvals_inv_def demo_recommended_ok demo_recommended_rows)

text \<open>The digest binds an approval to its action: two actions with the same digest have the
  same action type, the same run and the same parameters up to the order of the members of their
  JSON objects, unless SHA-256 collides on the canonical texts of these two.\<close>

theorem action_digest_binds:
  assumes "pylib_ok py" "action_digest py t ps r = action_digest py t' ps' r'"
  shows "(t = t' \<and> canon (JObj ps) = canon (JObj ps') \<and> r = r') \<or>
    (canonical_action py t ps r \<noteq> canonical_action py t' ps' r' \<and>
     sha256_hex py (canonical_action py t ps r) = sha256_hex py (canonical_action py t' ps' r'))"
  by (rule digest_binds [OF assms])

theorem action_digest_binds_witness:
  "canon (JObj [(''a'', JInt 1), (''b'', JBool True)]) = canon (JObj [(''b'', JBool True), (''a'', JInt 1)])"
proof -
  have e: "canonical_action demo_pylib ''simulated_scale'' [(''a'', JInt 1), (''b'', JBool True)] 4 =
      canonical_action demo_pylib ''simulated_scale'' [(''b'', JBool True), (''a'', JInt 1)] 4"
    by code_simp
  then have "action_digest demo_pylib ''simulated_scale'' [(''a'', JInt 1), (''b'', JBool True)] 4 =
      action_digest demo_pylib ''simulated_scale'' [(''b'', JBool True), (''a'', JInt 1)] 4"
    by (simp add: action_digest_def)
  from action_digest_binds [OF demo_pylib_ok this] e show ?thesis by blast
qed

text \<open>The backend policy check lets a mutating action through exactly when there is a stored
  approval for it that is approved, not expired at the given time (or now), not yet executed, of
  the same run, with an allow-listed action type and with the digest of exactly this action type,
  these parameters and this run. In every other case it raises, and it never writes.\<close>

theorem verify_backend_approval_exact:
  "(fst (verify_backend_approval py appr t ps r now w) = Inr () \<longleftrightarrow>
     (\<exists>a. appr = Some a \<and> t \<in> set ALLOWED_ACTIONS \<and> ap_run a = r \<and> ap_status a = Appr_APPROVED \<and>
        (case now of Some u \<Rightarrow> u | None \<Rightarrow> now_of w) \<le> as_utc (ap_expires_at a) \<and>
        ap_executed_at a = None \<and> ap_action_hash a = action_digest py t ps r)) \<and>
   work (snd (verify_backend_approval py appr t ps r now w)) = work w \<and>
   saved (snd (verify_backend_approval py appr t ps r now w)) = saved w"
proof (cases appr)
  case None
  then show ?thesis by (simp add: verify_backend_approval_def)
next
  case (Some a)
  obtain u w1 where u: "(case now of Some t \<Rightarrow> (t, w) | None \<Rightarrow> utc_now w) = (u, w1)" by fastforce
  then have "u = (case now of Some u \<Rightarrow> u | None \<Rightarrow> now_of w)" "work w1 = work w" "saved w1 = saved w"
    by (auto simp: now_of_def utc_now_def split: option.splits)
  then show ?thesis
    by (simp add: Some verify_backend_approval_def u Let_def compute_action_hash_def action_digest_def canonical_action_def not_less
        del: not_None_eq)
qed

text \<open>C15: A tampered action is blocked: whatever action type, parameters and run the caller
  presents, if the policy check passes against a stored approval then they are the ones of the
  recommendation behind that approval, which rests on evidence of its own run: same type, same run,
  parameters equal up to the order of their members. The only way around it is a SHA-256 collision
  between two given texts, the canonical text of the presented action and that of the recommended one.\<close>

theorem verify_backend_approval_tamper_proof:
  assumes "pylib_ok py" "approvals_inv py w" "a \<in> set (approvals (work w))"
    and "fst (verify_backend_approval py (Some a) t ps r now w) = Inr ()"
  shows "\<exists>rc \<in> set (recommendations (work w)). rec_id rc = ap_recommendation a \<and>
    (\<exists>h e. provenance (work w) rc h e) \<and>
    (rec_action_type rc = t \<and> canon (JObj (rec_parameters rc)) = canon (JObj ps) \<and> rec_run rc = r \<or>
     (let presented = canonical_action py t ps r;
          recommended = canonical_action py (rec_action_type rc) (rec_parameters rc) (rec_run rc)
      in presented \<noteq> recommended \<and> sha256_hex py presented = sha256_hex py recommended))"
proof -
  have v: "ap_action_hash a = action_digest py t ps r"
    using assms(4) by (simp add: verify_backend_approval_def compute_action_hash_def action_digest_def
        canonical_action_def Let_def split: if_splits prod.splits)
  obtain rc where rc: "rc \<in> set (recommendations (work w))" "rec_id rc = ap_recommendation a" "rec_run rc = ap_run a"
    "rec_action_type rc = ap_action_type a" "rec_parameters rc = ap_parameters a"
    and h: "ap_action_hash a = action_digest py (ap_action_type a) (ap_parameters a) (ap_run a)"
    using assms(2,3) by (auto simp: approvals_inv_def approval_good_def)
  have "\<exists>h e. provenance (work w) rc h e"
    using provenance_exists rc(1) approvals_inv_parts [OF assms(2)] by (auto simp: records_ok_def)
  moreover have "action_digest py (rec_action_type rc) (rec_parameters rc) (rec_run rc) = action_digest py t ps r"
    using h v rc by simp
  from digest_binds [OF assms(1) this]
  have "rec_action_type rc = t \<and> canon (JObj (rec_parameters rc)) = canon (JObj ps) \<and> rec_run rc = r \<or>
     (let presented = canonical_action py t ps r;
          recommended = canonical_action py (rec_action_type rc) (rec_parameters rc) (rec_run rc)
      in presented \<noteq> recommended \<and> sha256_hex py presented = sha256_hex py recommended)"
    unfolding Let_def by (elim disjE conjE) auto
  ultimately show ?thesis using rc(1,2) by blast
qed

definition demo_requested :: world where
  "demo_requested = commit (snd (request_approval demo_pylib False 10 demo_recommended))"

definition demo_decision :: approval_decision where
  "demo_decision = \<lparr>ad_decision = Appr_APPROVED, ad_decided_by = ''alice'', ad_reason = None\<rparr>"

definition demo_approved :: world where
  "demo_approved = commit (snd (decide_approval demo_pylib 11 demo_decision demo_requested))"

lemma demo_approvals_inv: "approvals_inv demo_pylib demo_requested" "approvals_inv demo_pylib demo_approved"
  unfolding demo_requested_def demo_approved_def
  by (intro approvals_inv_commit decide_approval_inv request_approval_inv demo_recommended_inv)+

lemma demo_approval_rows:
  "map ap_status (approvals (work demo_requested)) = [Appr_PENDING]"
  "map ap_id (approvals (work demo_requested)) = [11]"
  "map ap_status (approvals (work demo_approved)) = [Appr_APPROVED]"
  by code_simp+

text \<open>The recommended action passes, and its canonical text is the recommendation's, so no collision is involved.\<close>

lemma demo_canonical:
  "\<forall>rc \<in> set (recommendations (work demo_approved)).
     canonical_action demo_pylib ''simulated_rollback'' [(''target_version'', JStr ''v1.4.1'')] 4 =
     canonical_action demo_pylib (rec_action_type rc) (rec_parameters rc) (rec_run rc)"
  by code_simp

theorem verify_backend_approval_tamper_proof_witness:
  "let a = hd (approvals (work demo_approved)) in
   fst (verify_backend_approval demo_pylib (Some a) ''simulated_rollback''
     [(''target_version'', JStr ''v1.4.1'')] 4 (Some 5) demo_approved) = Inr () \<and>
   (\<exists>rc \<in> set (recommendations (work demo_approved)). rec_id rc = ap_recommendation a \<and>
       rec_action_type rc = ''simulated_rollback'' \<and>
       canon (JObj (rec_parameters rc)) = canon (JObj [(''target_version'', JStr ''v1.4.1'')]) \<and> rec_run rc = 4 \<and>
       (\<exists>h e. provenance (work demo_approved) rc h e))"
proof -
  have v: "fst (verify_backend_approval demo_pylib (Some (hd (approvals (work demo_approved)))) ''simulated_rollback''
     [(''target_version'', JStr ''v1.4.1'')] 4 (Some 5) demo_approved) = Inr ()"
    by code_simp
  have m: "hd (approvals (work demo_approved)) \<in> set (approvals (work demo_approved))"
    using demo_approval_rows(3) by (metis list.set_sel(1) list.simps(8) not_Cons_self2)
  obtain rc where rc: "rc \<in> set (recommendations (work demo_approved))"
    "rec_id rc = ap_recommendation (hd (approvals (work demo_approved)))"
    "\<exists>h e. provenance (work demo_approved) rc h e"
    "rec_action_type rc = ''simulated_rollback'' \<and>
       canon (JObj (rec_parameters rc)) = canon (JObj [(''target_version'', JStr ''v1.4.1'')]) \<and> rec_run rc = 4"
    using verify_backend_approval_tamper_proof [OF demo_pylib_ok demo_approvals_inv(2) m v] demo_canonical
    unfolding Let_def by blast
  then show ?thesis using v unfolding Let_def by blast
qed

text \<open>C16: An approval is decided exactly once and in time. A decision goes through exactly when the
  approval exists, is still pending, its deadline has not passed and the decision is approve or
  reject; it then stands: every further decision on that approval is refused as already decided,
  and that refusal changes nothing.\<close>

theorem decide_approval_once:
  assumes "approvals_inv py w"
  shows "((\<exists>b. fst (decide_approval py k p w) = Inr b) \<longleftrightarrow>
      (\<exists>a. get_approval w k = Some a \<and> ap_status a = Appr_PENDING \<and> now_of w \<le> as_utc (ap_expires_at a) \<and>
         ad_decision p \<noteq> Appr_PENDING)) \<and>
    (\<forall>b. fst (decide_approval py k p w) = Inr b \<longrightarrow>
      ap_status b = ad_decision p \<and> ap_decided_by b = Some (ad_decided_by p) \<and>
      decide_approval py k q (snd (decide_approval py k p w)) =
        (Inl (ApprovalError ''Approval has already been decided''), snd (decide_approval py k p w)))"
proof -
  obtain out w' where o: "decide_approval py k p w = (out, w')" by fastforce
  have "((\<exists>b. out = Inr b) \<longleftrightarrow>
      (\<exists>a. get_approval w k = Some a \<and> ap_status a = Appr_PENDING \<and> now_of w \<le> as_utc (ap_expires_at a) \<and>
         ad_decision p \<noteq> Appr_PENDING)) \<and> (\<forall>b. out = Inr b \<longrightarrow> ap_status b = ad_decision p \<and>
      ap_decided_by b = Some (ad_decided_by p) \<and>
      decide_approval py k q w' = (Inl (ApprovalError ''Approval has already been decided''), w'))"
  proof (cases rule: decide_approval_cases [OF o assms, case_names refused decides])
    case (refused e)
    then show ?thesis
      using o approval_status.exhaust [of "ad_decision p"] by (auto simp: decidable_def not_less)
  next
    case (decides a run i md)
    let ?b = "decided a p (now_of w)"
    have a: "get_approval w k = Some a" "ad_decision p \<noteq> Appr_PENDING"
      using decides(2) by (auto simp: decidable_def)
    then have "k \<in> keys ap_id (approvals (work w))" "ap_id ?b = k"
      using row_get_in_keys row_get_SomeD [OF a(1)] by (auto simp: decided_def)
    then have "get_approval w' k = Some ?b"
      by (simp add: decides(5) write_defs row_get_row_set)
    then have "decide_approval py k q w' = (Inl (ApprovalError ''Approval has already been decided''), w')"
      using a(2) by (simp add: decide_approval_def decided_def)
    then show ?thesis using o decides(1,2) by (auto simp: decided_def decidable_def not_less)
  qed
  then show ?thesis by (simp add: o)
qed

theorem decide_approval_once_witness:
  "fst (decide_approval demo_pylib 11 demo_decision demo_requested) \<noteq> Inl (ApprovalError ''Approval has expired'') \<and>
   decide_approval demo_pylib 11 (demo_decision\<lparr>ad_decision := Appr_REJECTED\<rparr>)
     (snd (decide_approval demo_pylib 11 demo_decision demo_requested)) =
   (Inl (ApprovalError ''Approval has already been decided''),
    snd (decide_approval demo_pylib 11 demo_decision demo_requested))"
proof -
  have "case fst (decide_approval demo_pylib 11 demo_decision demo_requested) of Inr b \<Rightarrow> True | Inl e \<Rightarrow> False"
    by code_simp
  then obtain b where "fst (decide_approval demo_pylib 11 demo_decision demo_requested) = Inr b"
    by (cases "fst (decide_approval demo_pylib 11 demo_decision demo_requested)") auto
  with decide_approval_once [OF demo_approvals_inv(1)] show ?thesis by auto
qed

lemma find_append:
  "List.find P (xs @ ys) = (case List.find P xs of Some x \<Rightarrow> Some x | None \<Rightarrow> List.find P ys)"
  by (induction xs) auto

text \<open>C17: Requesting is idempotent: a second request for the same recommendation returns the
  approval of the first and changes nothing, whatever has been decided in between is not asked
  for again; so a recommendation never has two approvals.\<close>

theorem request_approval_idempotent:
  assumes "approvals_inv py w" "fst (request_approval py il k w) = Inr a"
  shows "ap_recommendation a = k \<and> ap_action_type a \<in> set ALLOWED_ACTIONS \<and>
    request_approval py il' k (snd (request_approval py il k w)) = (Inr a, snd (request_approval py il k w))"
proof -
  obtain w' where o: "request_approval py il k w = (Inr a, w')" using assms(2) by (metis prod.collapse)
  have inv: "approvals_inv py w'" using request_approval_inv [OF assms(1), of il k] by (simp add: o)
  have "a \<in> set (approvals (work w')) \<and> ap_recommendation a = k \<and>
      List.find (\<lambda>a. ap_recommendation a = k) (approvals (work w')) = Some a \<and>
      (\<exists>r. get_recommendation w' k = Some r \<and> rec_action_type r \<in> set ALLOWED_ACTIONS)"
  proof (cases rule: request_approval_cases [OF o assms(1), case_names missing refused existing new])
    case (existing b)
    then show ?thesis using o unfolding request_approval_def
      by (auto split: option.splits if_splits)
  next
    case (new r run b i w2 md)
    have aw: "approvals (work w') = approvals (work w) @ [a]" "recommendations (work w') = recommendations (work w)"
      using new(1,6,7,9) by (auto simp: write_defs)
    have "ap_recommendation a = k"
      using new(1,2,6) by (auto simp: approval_row_def dest: row_get_SomeD)
    moreover have "List.find (\<lambda>a. ap_recommendation a = k) (approvals (work w)) = None"
      using new(4) by (simp add: find_approval_None)
    then have "List.find (\<lambda>a. ap_recommendation a = k) (approvals (work w) @ [a]) = Some a"
      using \<open>ap_recommendation a = k\<close> by (simp add: find_append)
    ultimately show ?thesis using new(2,3) aw by simp
  qed auto
  then have f: "a \<in> set (approvals (work w'))" "ap_recommendation a = k" "request_approval py il' k w' = (Inr a, w')"
    by (auto simp: request_approval_def)
  then have "ap_action_type a \<in> set ALLOWED_ACTIONS"
    using approvals_inv_parts(2) [OF inv] unfolding db_ok_def approvals_ok_def by blast
  then show ?thesis using f by (simp add: o)
qed

theorem request_approval_idempotent_witness:
  "fst (request_approval demo_pylib False 10 demo_recommended) = Inr (hd (approvals (work demo_requested))) \<and>
   request_approval demo_pylib True 10 (snd (request_approval demo_pylib False 10 demo_recommended)) =
     (Inr (hd (approvals (work demo_requested))), snd (request_approval demo_pylib False 10 demo_recommended))"
proof -
  have "fst (request_approval demo_pylib False 10 demo_recommended) = Inr (hd (approvals (work demo_requested)))"
    by code_simp
  with request_approval_idempotent [OF demo_recommended_inv this] show ?thesis by simp
qed

end
