(* ===== verification/Http.thy ===== *)
theory Http
  imports Runtime
begin

section \<open>HTTP as the program sees it\<close>

text \<open>
  The httpx client and whatever answers it are not part of the program: they are one function
  \<open>'e http\<close>, from a request and the state \<open>'e\<close> of the outside world to a reply and the next
  state. A reply is an error of httpx (a timeout, another \<open>TransportError\<close>, or a body that cannot be
  decoded, which is no \<open>TransportError\<close>, each with its text)
  or a response: a status code and a body that parses to JSON or does not. \<open>get_json\<close> of
  \<open>packages/connectors/http.py\<close> is the retry loop over it.
\<close>

datatype http_error = Timed_out str | Transport_failed str | Decoding_failed str

record http_response =
  hr_status :: int
  hr_body :: "str + json"

datatype http_request =
    Get str "(str \<times> json) list"
  | Post str "(str \<times> json) list"

type_synonym 'e http = "http_request \<Rightarrow> 'e \<Rightarrow> (http_error + http_response) \<times> 'e"

definition is_success :: "http_response \<Rightarrow> bool" where
  "is_success r \<longleftrightarrow> 200 \<le> hr_status r \<and> hr_status r < 300"

subsection \<open>The bounded client of the connectors\<close>

record connector =
  cn_base_url :: str
  cn_max_retries :: nat

definition rstrip_slash :: "str \<Rightarrow> str" where
  "rstrip_slash s = rev (dropWhile (\<lambda>c. c = CHR ''/'') (rev s))"

definition new_connector :: "str \<Rightarrow> rat \<Rightarrow> int \<Rightarrow> exn + connector" where
  "new_connector base_url timeout_seconds max_retries =
     (if strip base_url = [] then Inl (ValueErr ''Connector base_url must not be blank'')
      else if timeout_seconds \<le> 0 then Inl (ValueErr ''Connector timeout must be positive'')
      else if \<not> (0 \<le> max_retries \<and> max_retries \<le> 3)
      then Inl (ValueErr ''Connector max_retries must be between 0 and 3'')
      else Inr \<lparr>cn_base_url = rstrip_slash base_url, cn_max_retries = nat max_retries\<rparr>)"

text \<open>What one attempt gives: the payload, an error that ends the loop at once, or a last error.\<close>

datatype attempt =
    Payload "(str \<times> json) list"
  | Fatal exn
  | Last_error str str bool

definition judge :: "http_error + http_response \<Rightarrow> attempt" where
  "judge reply =
     (case reply of
        Inl (Decoding_failed msg) \<Rightarrow> Fatal (DecodingErr msg)
      | Inl (Timed_out _) \<Rightarrow> Last_error ''SOURCE_TIMEOUT'' ''Source did not respond before the timeout.'' True
      | Inl (Transport_failed _) \<Rightarrow> Last_error ''SOURCE_UNAVAILABLE'' ''Source connection failed.'' True
      | Inr response \<Rightarrow>
          if 200 \<le> hr_status response \<and> hr_status response < 300
          then (case hr_body response of
                  Inl _ \<Rightarrow> Fatal (ConnectorError ''INVALID_SOURCE_RESPONSE'' ''Source returned invalid JSON.'' False)
                | Inr (JObj payload) \<Rightarrow> Payload payload
                | Inr _ \<Rightarrow> Fatal (ConnectorError ''INVALID_SOURCE_RESPONSE''
                    ''Source returned a JSON value instead of an object.'' False))
          else Last_error ''SOURCE_HTTP_ERROR'' (''Source returned HTTP '' @ str_int (hr_status response) @ ''.'')
                 (hr_status response \<ge> 500))"

text \<open>The loop over the attempts; \<open>left\<close> is \<open>max_retries - attempt\<close>.\<close>

fun get_json_loop :: "'e http \<Rightarrow> http_request \<Rightarrow> nat \<Rightarrow> 'e \<Rightarrow> (exn + (str \<times> json) list) \<times> 'e" where
  "get_json_loop http req left e =
     (case http req e of
        (reply, e1) \<Rightarrow>
          (case judge reply of
             Payload p \<Rightarrow> (Inr p, e1)
           | Fatal x \<Rightarrow> (Inl x, e1)
           | Last_error code msg retryable \<Rightarrow>
               if \<not> retryable \<or> left = 0 then (Inl (ConnectorError code msg retryable), e1)
               else get_json_loop http req (left - 1) e1))"

declare get_json_loop.simps [simp del]

definition get_json :: "'e http \<Rightarrow> connector \<Rightarrow> str \<Rightarrow> (str \<times> json) list \<Rightarrow> ('e, (str \<times> json) list) op" where
  "get_json http c path params e =
     get_json_loop http (Get (cn_base_url c @ path) params) (cn_max_retries c) e"

subsection \<open>The retry policy\<close>

text \<open>
  The replies a source would give to the same request again and again, and what the loop
  makes of one of them when it stops there.
\<close>

definition after :: "'e http \<Rightarrow> http_request \<Rightarrow> nat \<Rightarrow> 'e \<Rightarrow> 'e" where
  "after http req k e = ((\<lambda>s. snd (http req s)) ^^ k) e"

definition reply :: "'e http \<Rightarrow> http_request \<Rightarrow> nat \<Rightarrow> 'e \<Rightarrow> http_error + http_response" where
  "reply http req k e = fst (http req (after http req k e))"

definition retryable_reply :: "http_error + http_response \<Rightarrow> bool" where
  "retryable_reply r = (case r of Inl (Decoding_failed _) \<Rightarrow> False | Inl _ \<Rightarrow> True | Inr resp \<Rightarrow> hr_status resp \<ge> 500)"

definition verdict :: "http_error + http_response \<Rightarrow> exn + (str \<times> json) list" where
  "verdict r = (case judge r of Payload p \<Rightarrow> Inr p | Fatal x \<Rightarrow> Inl x
     | Last_error c m b \<Rightarrow> Inl (ConnectorError c m b))"

lemma judge_retryable: "judge r = Last_error c m b \<Longrightarrow> b = retryable_reply r"
  by (auto simp: judge_def retryable_reply_def split: sum.splits http_error.splits if_splits json.splits)

lemma judge_not_retryable:
  "judge r = Payload p \<Longrightarrow> \<not> retryable_reply r" "judge r = Fatal x \<Longrightarrow> \<not> retryable_reply r"
proof -
  have "retryable_reply r \<Longrightarrow> \<exists>c m b. judge r = Last_error c m b"
    by (auto simp: judge_def retryable_reply_def split: sum.splits http_error.splits)
  then show "judge r = Payload p \<Longrightarrow> \<not> retryable_reply r" "judge r = Fatal x \<Longrightarrow> \<not> retryable_reply r"
    by auto
qed

lemma after_Suc: "after http req (Suc k) e = after http req k (snd (http req e))"
  by (simp add: after_def funpow_Suc_right del: funpow.simps)

lemma reply_Suc: "reply http req (Suc k) e = reply http req k (snd (http req e))"
  by (simp add: reply_def after_Suc)

lemma get_json_loop_runs:
  "\<exists>k \<le> left. get_json_loop http req left e = (verdict (reply http req k e), after http req (Suc k) e) \<and>
     (\<forall>j < k. retryable_reply (reply http req j e)) \<and>
     (k < left \<longrightarrow> \<not> retryable_reply (reply http req k e))"
proof (induction left arbitrary: e)
  case 0
  obtain r e1 where r: "http req e = (r, e1)" by fastforce
  then show ?case
    by (auto simp: get_json_loop.simps [of _ _ 0] reply_def after_def verdict_def split: attempt.splits)
next
  case (Suc n)
  obtain r e1 where r: "http req e = (r, e1)" by fastforce
  have r0: "reply http req 0 e = r" by (simp add: reply_def after_def r)
  show ?case
  proof (cases "retryable_reply r")
    case False
    then have "get_json_loop http req (Suc n) e = (verdict r, e1)"
      using judge_retryable [of r] by (auto simp: get_json_loop.simps [of _ _ "Suc n"] r verdict_def split: attempt.splits)
    then show ?thesis using False r0 by (intro exI [of _ 0]) (simp add: after_def r)
  next
    case True
    then obtain c m where "judge r = Last_error c m True"
      using judge_retryable judge_not_retryable by (cases "judge r") auto
    then have l: "get_json_loop http req (Suc n) e = get_json_loop http req n e1"
      by (simp add: get_json_loop.simps [of _ _ "Suc n"] r)
    obtain k where k: "k \<le> n" "get_json_loop http req n e1 = (verdict (reply http req k e1), after http req (Suc k) e1)"
      "\<forall>j < k. retryable_reply (reply http req j e1)" "k < n \<longrightarrow> \<not> retryable_reply (reply http req k e1)"
      using Suc.IH [of e1] by blast
    have "retryable_reply (reply http req j e)" if "j < Suc k" for j
      using that True r0 k(3) by (cases j) (simp_all add: reply_Suc r)
    then show ?thesis
      using k l by (intro exI [of _ "Suc k"]) (simp add: reply_Suc after_Suc r)
  qed
qed

text \<open>C18: The connector's HTTP client sends at least one and at most \<open>max_retries + 1\<close> requests, the
  same request each time, and always returns. It goes on only after a timeout, a transport
  failure or a 5xx status; its result is the verdict on the last reply: the JSON object of a 2xx
  response, or a connector error (httpx's own error when the body cannot be decoded). A 4xx, an
  undecodable, a malformed or a non-object body is never retried.\<close>

theorem get_json_retry_policy:
  "\<exists>k \<le> cn_max_retries c.
     get_json http c path params e =
       (verdict (reply http (Get (cn_base_url c @ path) params) k e),
        after http (Get (cn_base_url c @ path) params) (Suc k) e) \<and>
     (\<forall>j < k. retryable_reply (reply http (Get (cn_base_url c @ path) params) j e)) \<and>
     (k < cn_max_retries c \<longrightarrow> \<not> retryable_reply (reply http (Get (cn_base_url c @ path) params) k e))"
  unfolding get_json_def by (rule get_json_loop_runs)

text \<open>A connector that two timeouts and then a 404 meet: three requests, the last one decides.\<close>

fun scripted :: "(http_error + http_response) list http" where
  "scripted _ [] = (Inl (Transport_failed ''no reply''), [])"
| "scripted _ (r # rs) = (r, rs)"

theorem get_json_retry_policy_witness:
  "\<exists>k \<le> 2. get_json scripted \<lparr>cn_base_url = ''u'', cn_max_retries = 2\<rparr> ''/p'' []
       [Inl (Timed_out []), Inl (Timed_out []), Inr \<lparr>hr_status = 404, hr_body = Inl []\<rparr>, Inl (Timed_out [])] =
     (verdict (reply scripted (Get ''u/p'' []) k
        [Inl (Timed_out []), Inl (Timed_out []), Inr \<lparr>hr_status = 404, hr_body = Inl []\<rparr>, Inl (Timed_out [])]),
      after scripted (Get ''u/p'' []) (Suc k)
        [Inl (Timed_out []), Inl (Timed_out []), Inr \<lparr>hr_status = 404, hr_body = Inl []\<rparr>, Inl (Timed_out [])])"
  using get_json_retry_policy [of "\<lparr>cn_base_url = ''u'', cn_max_retries = 2\<rparr>" scripted "''/p''" "[]"]
  by fastforce

end
