(* ===== verification/Demo_Service.thy ===== *)
theory Demo_Service
  imports Http
begin

section \<open>The demo checkout service\<close>

text \<open>
  \<open>services/demo-checkout-service/main.py\<close>: the service the remediation acts on. Its state is the
  fault mode and version, and the gauges, counters and log it emits; \<open>checkout\<close>,
  \<open>set_fault_mode\<close> and \<open>health\<close> are its handlers. The random numbers, the latency and the wall
  clock of a request are arguments. \<open>demo_http\<close> routes HTTP requests to the handlers, so the
  remediation can be run against the model of its real target.
\<close>

datatype fault_mode = NORMAL | HIGH_LATENCY | ERROR_SPIKE | DATABASE_TIMEOUT | DEPLOYMENT_REGRESSION

fun fault_mode_value :: "fault_mode \<Rightarrow> str" where
  "fault_mode_value NORMAL = ''normal''"
| "fault_mode_value HIGH_LATENCY = ''high_latency''"
| "fault_mode_value ERROR_SPIKE = ''error_spike''"
| "fault_mode_value DATABASE_TIMEOUT = ''database_timeout''"
| "fault_mode_value DEPLOYMENT_REGRESSION = ''deployment_regression''"

definition fault_mode_of :: "str \<Rightarrow> fault_mode option" where
  "fault_mode_of s = List.find (\<lambda>m. fault_mode_value m = s)
     [NORMAL, HIGH_LATENCY, ERROR_SPIKE, DATABASE_TIMEOUT, DEPLOYMENT_REGRESSION]"

definition SERVICE_NAME :: str where "SERVICE_NAME = ''checkout-api''"

definition DB_POOL_MAX :: int where "DB_POOL_MAX = 50"

record demo_state =
  ds_mode :: fault_mode
  ds_version :: str
  ds_db_active :: int
  ds_version_info :: "str \<rightharpoonup> nat"
  ds_requests :: "str \<Rightarrow> nat"
  ds_durations :: "rat list"
  ds_log :: "(str \<times> json) list list"

definition initial_demo :: demo_state where
  "initial_demo = \<lparr>ds_mode = NORMAL, ds_version = ''v1.4.1'', ds_db_active = 4,
     ds_version_info = [''v1.4.1'' \<mapsto> 1], ds_requests = (\<lambda>_. 0), ds_durations = [], ds_log = []\<rparr>"

definition log_event :: "str \<Rightarrow> str \<Rightarrow> str \<Rightarrow> (str \<times> json) list \<Rightarrow> demo_state \<Rightarrow> demo_state" where
  "log_event timestamp level event extra s =
     s\<lparr>ds_log := ds_log s @ [[(''timestamp'', JStr timestamp), (''level'', JStr level),
        (''service'', JStr SERVICE_NAME), (''version'', JStr (ds_version s)), (''event'', JStr event)] @ extra]\<rparr>"

text \<open>
  \<open>draw\<close> is \<open>random.random()\<close>, \<open>busy\<close> and \<open>idle\<close> the two \<open>random.randint\<close> (46 to 50, 3 to 8).
\<close>

record draws =
  dr_draw :: rat
  dr_busy :: int
  dr_idle :: int
  dr_elapsed :: rat
  dr_latency_ms :: int

definition draws_ok :: "draws \<Rightarrow> bool" where
  "draws_ok r \<longleftrightarrow> 0 \<le> dr_draw r \<and> dr_draw r < 1 \<and> 46 \<le> dr_busy r \<and> dr_busy r \<le> DB_POOL_MAX \<and>
     3 \<le> dr_idle r \<and> dr_idle r \<le> 8 \<and> 0 \<le> dr_elapsed r"

text \<open>The failure decision with the gauge it sets: \<open>Some detail\<close> is a failed checkout.\<close>

definition checkout_outcome :: "draws \<Rightarrow> demo_state \<Rightarrow> str option \<times> demo_state" where
  "checkout_outcome r s =
     (let mode = ds_mode s in
      if mode = ERROR_SPIKE \<and> dr_draw r < fl (35 / 100)
      then (Some ''upstream payment provider returned 502'', s)
      else if mode = DATABASE_TIMEOUT \<or> mode = DEPLOYMENT_REGRESSION
      then (if dr_draw r < fl (35 / 100) then Some ''database connection timeout after 5000ms'' else None,
            s\<lparr>ds_db_active := dr_busy r\<rparr>)
      else (None, s\<lparr>ds_db_active := dr_idle r\<rparr>))"

definition checkout :: "str \<Rightarrow> draws \<Rightarrow> demo_state \<Rightarrow> http_response \<times> demo_state" where
  "checkout timestamp r s =
     (case checkout_outcome r s of
        (failed, s1) \<Rightarrow>
          let s2 = s1\<lparr>ds_durations := ds_durations s1 @ [dr_elapsed r]\<rparr> in
          (case failed of
             Some detail \<Rightarrow>
               (\<lparr>hr_status = 500, hr_body = Inr (JObj [(''error'', JStr detail)])\<rparr>,
                log_event timestamp ''ERROR'' ''checkout_failed''
                  [(''error'', JStr detail), (''latency_ms'', JInt (dr_latency_ms r))]
                  (s2\<lparr>ds_requests := (ds_requests s2)(''500'' := Suc (ds_requests s2 ''500''))\<rparr>))
           | None \<Rightarrow>
               (\<lparr>hr_status = 200, hr_body = Inr (JObj [(''status'', JStr ''ok''), (''version'', JStr (ds_version s2))])\<rparr>,
                log_event timestamp ''INFO'' ''checkout_completed'' [(''latency_ms'', JInt (dr_latency_ms r))]
                  (s2\<lparr>ds_requests := (ds_requests s2)(''200'' := Suc (ds_requests s2 ''200''))\<rparr>))))"

definition set_fault_mode :: "str \<Rightarrow> fault_mode \<Rightarrow> demo_state \<Rightarrow> json \<times> demo_state" where
  "set_fault_mode timestamp mode s =
     (let previous_mode = ds_mode s; previous_version = ds_version s;
          s1 = s\<lparr>ds_mode := mode\<rparr>;
          s2 = (if mode = DEPLOYMENT_REGRESSION then s1\<lparr>ds_version := ''v1.4.2''\<rparr>
                else if mode = NORMAL then s1\<lparr>ds_version := ''v1.4.1'', ds_db_active := 4\<rparr>
                else s1);
          s3 = (if ds_version s2 \<noteq> previous_version
                then log_event timestamp ''INFO'' ''deployment_completed''
                       [(''previous_version'', JStr previous_version), (''version'', JStr (ds_version s2))]
                       (s2\<lparr>ds_version_info := (ds_version_info s2)(previous_version \<mapsto> 0, ds_version s2 \<mapsto> 1)\<rparr>)
                else s2);
          s4 = log_event timestamp ''INFO'' ''fault_mode_changed''
                 [(''previous'', JStr (fault_mode_value previous_mode)), (''current'', JStr (fault_mode_value (ds_mode s3)))] s3
      in (JObj [(''mode'', JStr (fault_mode_value (ds_mode s4))), (''version'', JStr (ds_version s4))], s4))"

definition health :: "demo_state \<Rightarrow> json" where
  "health s = JObj [(''status'', JStr ''ok''), (''mode'', JStr (fault_mode_value (ds_mode s))),
     (''version'', JStr (ds_version s))]"

text \<open>Routing; a body that is not a fault mode is refused with 422, an unknown path with 404.\<close>

fun demo_http :: "str \<Rightarrow> str \<Rightarrow> demo_state http" where
  "demo_http base timestamp (Post url body) s =
     (if url = base @ ''/internal/fault-mode''
      then (case obj_get body ''mode'' of
              Some (JStr m) \<Rightarrow> (case fault_mode_of m of
                  Some mode \<Rightarrow> (case set_fault_mode timestamp mode s of
                      (j, s1) \<Rightarrow> (Inr \<lparr>hr_status = 200, hr_body = Inr j\<rparr>, s1))
                | None \<Rightarrow> (Inr \<lparr>hr_status = 422, hr_body = Inr JNull\<rparr>, s))
            | _ \<Rightarrow> (Inr \<lparr>hr_status = 422, hr_body = Inr JNull\<rparr>, s))
      else (Inr \<lparr>hr_status = 404, hr_body = Inr JNull\<rparr>, s))"
| "demo_http base timestamp (Get url params) s =
     (if url = base @ ''/health'' then (Inr \<lparr>hr_status = 200, hr_body = Inr (health s)\<rparr>, s)
      else (Inr \<lparr>hr_status = 404, hr_body = Inr JNull\<rparr>, s))"

subsection \<open>The state stays consistent\<close>

text \<open>
  The regression runs v1.4.2, the normal mode v1.4.1, exactly the running version is marked
  active, and the pool gauge stays within the pool.
\<close>

definition demo_ok :: "demo_state \<Rightarrow> bool" where
  "demo_ok s \<longleftrightarrow>
     ds_version s \<in> {''v1.4.1'', ''v1.4.2''} \<and>
     (ds_mode s = NORMAL \<longrightarrow> ds_version s = ''v1.4.1'') \<and>
     (ds_mode s = DEPLOYMENT_REGRESSION \<longrightarrow> ds_version s = ''v1.4.2'') \<and>
     (\<forall>v. ds_version_info s v = Some 1 \<longleftrightarrow> v = ds_version s) \<and>
     0 \<le> ds_db_active s \<and> ds_db_active s \<le> DB_POOL_MAX"

inductive demo_reachable :: "demo_state \<Rightarrow> bool" where
  start: "demo_reachable initial_demo"
| checkout: "demo_reachable s \<Longrightarrow> draws_ok r \<Longrightarrow> demo_reachable (snd (checkout t r s))"
| fault: "demo_reachable s \<Longrightarrow> demo_reachable (snd (set_fault_mode t m s))"

lemma initial_demo_ok: "demo_ok initial_demo"
  by (simp add: demo_ok_def initial_demo_def DB_POOL_MAX_def)

lemma log_event_ok [simp]: "demo_ok (log_event t l ev fs s) = demo_ok s"
  by (simp add: demo_ok_def log_event_def)

lemma checkout_ok: "demo_ok s \<Longrightarrow> draws_ok r \<Longrightarrow> demo_ok (snd (checkout t r s))"
  by (auto simp: checkout_def checkout_outcome_def Let_def demo_ok_def log_event_def draws_ok_def DB_POOL_MAX_def)

lemma set_fault_mode_ok: "demo_ok s \<Longrightarrow> demo_ok (snd (set_fault_mode t m s))"
  by (cases m) (auto simp: set_fault_mode_def Let_def demo_ok_def log_event_def DB_POOL_MAX_def)

lemma demo_reachable_ok: "demo_reachable s \<Longrightarrow> demo_ok s"
  by (induction rule: demo_reachable.induct) (simp_all add: initial_demo_ok checkout_ok set_fault_mode_ok)

text \<open>C21: In every state the demo service can reach, by any sequence of checkouts and fault-mode
  changes, the reported version is v1.4.1 in normal mode and v1.4.2 under the deployment
  regression, exactly the running version is marked active in \<open>service_version_info\<close>, the
  connection gauge is between 0 and the pool size, and switching to normal makes the health check
  report a healthy normal mode at v1.4.1.\<close>

theorem demo_service_consistent:
  assumes "demo_reachable s"
  shows "(ds_mode s = NORMAL \<longrightarrow> ds_version s = ''v1.4.1'') \<and>
    (ds_mode s = DEPLOYMENT_REGRESSION \<longrightarrow> ds_version s = ''v1.4.2'') \<and>
    (\<forall>v. ds_version_info s v = Some 1 \<longleftrightarrow> v = ds_version s) \<and>
    0 \<le> ds_db_active s \<and> ds_db_active s \<le> DB_POOL_MAX \<and>
    health (snd (set_fault_mode t NORMAL s)) =
      JObj [(''status'', JStr ''ok''), (''mode'', JStr ''normal''), (''version'', JStr ''v1.4.1'')]"
proof -
  have "demo_ok s" using assms by (rule demo_reachable_ok)
  moreover have "health (snd (set_fault_mode t NORMAL s)) =
      JObj [(''status'', JStr ''ok''), (''mode'', JStr ''normal''), (''version'', JStr ''v1.4.1'')]"
    by (simp add: set_fault_mode_def Let_def log_event_def health_def)
  ultimately show ?thesis by (simp add: demo_ok_def)
qed

theorem demo_service_consistent_witness:
  "(let s = snd (set_fault_mode ''t'' DEPLOYMENT_REGRESSION initial_demo) in
    ds_mode s = DEPLOYMENT_REGRESSION \<and> ds_version s = ''v1.4.2'' \<and>
    ds_version_info s ''v1.4.1'' \<noteq> Some 1 \<and> ds_db_active s \<le> DB_POOL_MAX)"
proof -
  let ?s = "snd (set_fault_mode ''t'' DEPLOYMENT_REGRESSION initial_demo)"
  have "demo_reachable ?s" by (intro demo_reachable.fault demo_reachable.start)
  moreover have "ds_mode ?s = DEPLOYMENT_REGRESSION"
    by (simp add: set_fault_mode_def Let_def log_event_def)
  ultimately show ?thesis using demo_service_consistent [of ?s] by (simp add: Let_def)
qed

end
