(* ===== verification/Remediation.thy ===== *)
theory Remediation
  imports Approval Demo_Service
begin

section \<open>Remediation service: executing an approved action\<close>

text \<open>
  \<open>apps/api/app/services/remediation_service.py\<close>. The guards come first, then the incident is
  marked executing, the demo service is switched to normal and its health verified. The outside
  world is the state \<open>'e\<close> of the HTTP function. A failed verification is written to the
  approval and the incident and then raised; whether it survives is the caller's doing.
\<close>

datatype probe = Healthy | Caught str | Uncaught exn

fun transport_text :: "http_error \<Rightarrow> str" where
  "transport_text (Timed_out m) = m"
| "transport_text (Transport_failed m) = m"
| "transport_text (Decoding_failed m) = m"

text \<open>The body of the \<open>try\<close>: what it raises is caught when it is an HTTPError or a ValueError.\<close>

definition verify_health :: "json \<Rightarrow> probe" where
  "verify_health j =
     (case j of
        JObj o' \<Rightarrow>
          if obj_get o' ''status'' \<noteq> Some (JStr ''ok'') \<or> obj_get o' ''mode'' \<noteq> Some (JStr ''normal'')
          then Caught ''Demo service health verification did not confirm normal mode''
          else Healthy
      | _ \<Rightarrow> Uncaught (AttributeErr ''get''))"

definition probe_demo_service :: "pylib \<Rightarrow> 'e http \<Rightarrow> settings \<Rightarrow> 'e \<Rightarrow> probe \<times> 'e" where
  "probe_demo_service py http st e =
     (let post_url = demo_service_url st @ ''/internal/fault-mode'';
          health_url = demo_service_url st @ ''/health'' in
      case http (Post post_url [(''mode'', JStr ''normal'')]) e of
        (Inl err, e1) \<Rightarrow> (Caught (transport_text err), e1)
      | (Inr response, e1) \<Rightarrow>
          if \<not> is_success response then (Caught (status_error_text py post_url (hr_status response)), e1)
          else (case http (Get health_url []) e1 of
              (Inl err, e2) \<Rightarrow> (Caught (transport_text err), e2)
            | (Inr h, e2) \<Rightarrow>
                if \<not> is_success h then (Caught (status_error_text py health_url (hr_status h)), e2)
                else (case hr_body h of
                    Inl msg \<Rightarrow> (Caught msg, e2)
                  | Inr j \<Rightarrow> (verify_health j, e2))))"

definition execute_approval :: "pylib \<Rightarrow> 'e http \<Rightarrow> settings \<Rightarrow> uuid \<Rightarrow> (world \<times> 'e, approval) op" where
  "execute_approval py http st approval_id = (\<lambda>(w, e).
     (case get_approval w approval_id of
        None \<Rightarrow> (Inl (RemediationError ''Approval not found''), w, e)
      | Some a \<Rightarrow>
          if ap_status a \<noteq> Appr_APPROVED
          then (Inl (RemediationError ''Only approved actions can be executed''), w, e)
          else if ap_executed_at a \<noteq> None
          then (Inl (RemediationError ''Approval has already been executed''), w, e)
          else if ap_action_type a \<notin> set ALLOWED_ACTIONS
          then (Inl (RemediationError ''Action is not allow-listed''), w, e)
          else if action_digest py (ap_action_type a) (ap_parameters a) (ap_run a) \<noteq> ap_action_hash a
          then (Inl (RemediationError ''Approval action integrity check failed''), w, e)
          else if ap_action_type a \<noteq> ''simulated_rollback''
          then (Inl (RemediationError ''Only simulated_rollback is implemented in this demo''), w, e)
          else (case get_run w (ap_run a) of
              None \<Rightarrow> (Inl (RemediationError ''Agent run not found''), w, e)
            | Some run \<Rightarrow>
                (case get_incident w (run_incident run) of
                   None \<Rightarrow> (Inl (RemediationError ''Incident not found''), w, e)
                 | Some i \<Rightarrow>
                     let w1 = set_incident (i\<lparr>inc_status := EXECUTING\<rparr>) w in
                     (case probe_demo_service py http st e of
                        (Uncaught x, e1) \<Rightarrow> (Inl x, w1, e1)
                      | (Caught msg, e1) \<Rightarrow>
                          let (now, w2) = utc_now w1;
                              a' = a\<lparr>ap_execution_status := Some ''failed'', ap_execution_error := Some msg,
                                     ap_executed_at := Some now\<rparr>
                          in (Inl (RemediationError ''Rollback completed without a healthy recovery verification''),
                              set_incident (i\<lparr>inc_status := FAILED\<rparr>) (set_approval a' w2), e1)
                      | (Healthy, e1) \<Rightarrow>
                          let (now, w2) = utc_now w1;
                              a' = a\<lparr>ap_execution_status := Some ''succeeded'', ap_execution_error := None,
                                     ap_executed_at := Some now\<rparr>;
                              w3 = set_incident (i\<lparr>inc_status := RESOLVED, inc_resolved_at := Some now\<rparr>)
                                     (set_approval a' w2)
                          in (Inr a', add_event (inc_id i) REMEDIATION_EXECUTED
                                ''Approved simulated rollback executed and recovery was verified.''
                                [(''approval_id'', JStr (uuid_text py (ap_id a))),
                                 (''action_type'', JStr (ap_action_type a))] w3, e1))))))"

subsection \<open>When it goes ahead\<close>

definition executable :: "world \<Rightarrow> uuid \<Rightarrow> approval \<Rightarrow> bool" where
  "executable w k a \<longleftrightarrow> get_approval w k = Some a \<and> ap_status a = Appr_APPROVED \<and>
     ap_executed_at a = None \<and> ap_action_type a = ''simulated_rollback''"

definition executed :: "approval \<Rightarrow> str \<Rightarrow> str option \<Rightarrow> time \<Rightarrow> approval" where
  "executed a status error now = a\<lparr>ap_execution_status := Some status, ap_execution_error := error,
     ap_executed_at := Some now\<rparr>"

lemma execute_approval_cases:
  assumes "execute_approval py http st k (w, e) = (out, w', e')" "approvals_inv py w"
  obtains (refused) x where "out = Inl (RemediationError x)" "w' = w" "e' = e" "\<not> (\<exists>a. executable w k a)"
  | (crashed) a run i x where "executable w k a" "get_run w (ap_run a) = Some run"
      "get_incident w (run_incident run) = Some i"
      "probe_demo_service py http st e = (Uncaught x, e')" "out = Inl x"
      "w' = set_incident (i\<lparr>inc_status := EXECUTING\<rparr>) w"
  | (failed) a run i msg where "executable w k a" "get_run w (ap_run a) = Some run"
      "get_incident w (run_incident run) = Some i"
      "probe_demo_service py http st e = (Caught msg, e')"
      "out = Inl (RemediationError ''Rollback completed without a healthy recovery verification'')"
      "w' = set_incident (i\<lparr>inc_status := FAILED\<rparr>) (set_approval (executed a ''failed'' (Some msg) (now_of w))
         (snd (utc_now (set_incident (i\<lparr>inc_status := EXECUTING\<rparr>) w))))"
  | (succeeded) a run i md where "executable w k a" "get_run w (ap_run a) = Some run"
      "get_incident w (run_incident run) = Some i"
      "probe_demo_service py http st e = (Healthy, e')"
      "out = Inr (executed a ''succeeded'' None (now_of w))"
      "w' = add_event (inc_id i) REMEDIATION_EXECUTED
         ''Approved simulated rollback executed and recovery was verified.'' md
         (set_incident (i\<lparr>inc_status := RESOLVED, inc_resolved_at := Some (now_of w)\<rparr>)
           (set_approval (executed a ''succeeded'' None (now_of w))
             (snd (utc_now (set_incident (i\<lparr>inc_status := EXECUTING\<rparr>) w)))))"
proof (cases "\<exists>a. executable w k a")
  case False
  show thesis
  proof (cases "get_approval w k")
    case None
    then show thesis
      using assms(1) False by (intro refused [of "''Approval not found''"]) (auto simp: execute_approval_def)
  next
    case (Some a)
    have inst: "a \<in> set (approvals (work w))" using Some by (auto dest: row_get_SomeD)
    have "ap_action_type a \<in> set ALLOWED_ACTIONS"
      using inst approvals_inv_parts(2) [OF assms(2)] by (auto simp: db_ok_def approvals_ok_def)
    then show thesis
      using assms(1) False Some approval_digest(1) [OF assms(2) Some] refused
      by (auto simp: execute_approval_def executable_def split: if_splits)
  qed
next
  case True
  then obtain a where x: "executable w k a" by blast
  then have a: "get_approval w k = Some a" "ap_status a = Appr_APPROVED" "ap_executed_at a = None"
    "ap_action_type a = ''simulated_rollback''" by (auto simp: executable_def)
  have inst: "a \<in> set (approvals (work w))" using a(1) by (auto dest: row_get_SomeD)
  have al: "''simulated_rollback'' \<in> set ALLOWED_ACTIONS" by (simp add: ALLOWED_ACTIONS_def)
  obtain run i where ri: "get_run w (ap_run a) = Some run" "get_incident w (run_incident run) = Some i"
    using approval_run [OF assms(2) inst] .
  have n: "utc_now (set_incident r w) = (now_of w, snd (utc_now (set_incident r w)))" for r
    by (simp add: utc_now_def set_incident_def with_work_def now_of_def)
  note d = approval_digest(1) [OF assms(2) a(1)]
  note base = assms(1) [unfolded execute_approval_def prod.case a(1) option.case Let_def]
  obtain pr e1 where p: "probe_demo_service py http st e = (pr, e1)" by fastforce
  show thesis
  proof (cases pr)
    case Healthy
    show thesis
      using base a al ri d p Healthy x
      by (intro succeeded [of a run i "[(''approval_id'', JStr (uuid_text py (ap_id a))),
            (''action_type'', JStr (ap_action_type a))]"])
        (simp_all add: executed_def, (subst (asm) n, simp add: executed_def)+)
  next
    case (Caught msg)
    show thesis
      using base a al ri d p Caught x
      by (intro failed [of a run i msg]) (simp_all add: executed_def, (subst (asm) n, simp add: executed_def)+)
  next
    case (Uncaught y)
    show thesis
      using base a al ri d p Uncaught x by (intro crashed [of a run i y]) simp_all
  qed
qed

subsection \<open>Execution keeps the approvals good\<close>

lemma executed_inv:
  assumes "approvals_inv py w" "executable w k a" "status \<in> {''succeeded'', ''failed''}" "now_of w0 = now_of w"
    "w1 = snd (utc_now w)"
  shows "approvals_inv py (set_approval (executed a status err (now_of w0)) w1)"
proof -
  have a: "get_approval w k = Some a" "ap_status a = Appr_APPROVED" "ap_executed_at a = None"
    "ap_action_type a = ''simulated_rollback''" using assms(2) by (auto simp: executable_def)
  then have m: "a \<in> set (approvals (work w))" "ap_id a = k" by (auto dest: row_get_SomeD)
  have u: "approvals_inv py w1" using approvals_inv_utc_now [OF _ assms(1)] assms(5) by (metis prod.collapse)
  have t: "now_of w \<le> now_of w1"
    using utc_now_tick(1,2) [of w] approvals_inv_parts(1) [OF assms(1)] assms(5) by (metis prod.collapse)
  have g: "approval_good py (now_of w) (work w) a" using assms(1) m by (simp add: approvals_inv_def)
  then obtain d where d: "ap_decided_at a = Some d" "d \<le> now_of w"
    using a(2) by (auto simp: approval_good_def split: option.splits)
  have "approval_good py (now_of w1) (work w1) (executed a status err (now_of w0))"
    using g a d t assms(3,4,5) by (auto simp: approval_good_def executed_def utc_now_def)
  then show ?thesis
    using a m(2) assms(5) by (intro set_approval_inv [OF u, where a = a]) (simp_all add: executed_def utc_now_def)
qed

lemma execute_approval_inv:
  assumes "approvals_inv py w"
  shows "approvals_inv py (fst (snd (execute_approval py http st k (w, e))))"
proof -
  obtain out w' e' where o: "execute_approval py http st k (w, e) = (out, w', e')" by (metis prod.collapse)
  have ex: "approvals_inv py (set_incident (i\<lparr>inc_status := EXECUTING\<rparr>) w)"
    if "get_incident w r = Some i" for r i
    using approvals_inv_set_incident [OF assms, of "i\<lparr>inc_status := EXECUTING\<rparr>"]
      get_incident_service(3) [OF that] approvals_inv_parts(1) [OF assms] by simp
  have "approvals_inv py w'"
  proof (cases rule: execute_approval_cases [OF o assms, case_names refused crashed failed succeeded])
    case (failed a run i msg)
    let ?wx = "set_incident (i\<lparr>inc_status := EXECUTING\<rparr>) w"
    have "approvals_inv py (set_approval (executed a ''failed'' (Some msg) (now_of w)) (snd (utc_now ?wx)))"
      by (rule executed_inv [OF ex [OF failed(3)], of k])
        (use failed in \<open>auto simp: executable_def set_incident_def with_work_def now_of_def\<close>)
    then show ?thesis unfolding failed(6)
      by (rule approvals_inv_set_incident)
        (use get_incident_service(3) [OF failed(3)] approvals_inv_parts(1) [OF assms] in
          \<open>simp add: write_defs\<close>)
  next
    case (succeeded a run i md)
    let ?wx = "set_incident (i\<lparr>inc_status := EXECUTING\<rparr>) w"
    let ?w1 = "set_approval (executed a ''succeeded'' None (now_of w)) (snd (utc_now ?wx))"
    let ?i = "i\<lparr>inc_status := RESOLVED, inc_resolved_at := Some (now_of w)\<rparr>"
    note g = get_incident_service [OF succeeded(3)] approvals_inv_parts(1) [OF assms]
    have "approvals_inv py ?w1"
      by (rule executed_inv [OF ex [OF succeeded(3)], of k])
        (use succeeded in \<open>auto simp: executable_def set_incident_def with_work_def now_of_def\<close>)
    then have "approvals_inv py (set_incident ?i ?w1)"
      by (rule approvals_inv_set_incident) (use g in \<open>simp add: write_defs\<close>)
    then show ?thesis unfolding succeeded(6)
      by (rule approvals_inv_event) (use g in \<open>simp add: write_defs keys_row_set\<close>)
  qed (use assms ex in auto)
  then show ?thesis by (simp add: o)
qed

lemma execute_approval_evolve:
  assumes "approvals_inv py w" "execute_approval py http st k (w, e) = (out, w', e')"
  shows "approvals_evolve (work w) (work w') \<and> saved w' = saved w"
proof -
  have ev: "approvals_evolve (work w) d" if "executable w k a"
    "approvals d = row_set ap_id (executed a s m t) (approvals (work w))" for a s m t d
  proof -
    have a: "get_approval w k = Some a" "ap_id a = k" "ap_executed_at a = None" "ap_status a = Appr_APPROVED"
      using that(1) by (auto simp: executable_def dest: row_get_SomeD)
    have "distinct (map ap_id (approvals (work w)))"
      using approvals_inv_parts(2) [OF assms(1)] by (simp add: db_ok_def approvals_ok_def)
    then show ?thesis
      by (rule approvals_evolve_set [of _ "executed a s m t" a])
        (use a that(2) in \<open>simp_all add: executed_def evolves_def\<close>)
  qed
  show ?thesis
  proof (cases rule: execute_approval_cases [OF assms(2,1), case_names refused crashed failed succeeded])
    case (refused x)
    then show ?thesis by (simp add: approvals_evolve_refl)
  next
    case (crashed a run i x)
    then show ?thesis by (simp add: set_incident_def with_work_def approvals_evolve_same)
  next
    case (failed a run i msg)
    then show ?thesis using ev [OF failed(1), of "work w'"] by (simp add: write_defs)
  next
    case (succeeded a run i md)
    then show ?thesis using ev [OF succeeded(1), of "work w'"] by (simp add: write_defs)
  qed
qed

subsection \<open>Against the demo service\<close>

lemma probe_demo_healthy:
  "\<exists>s'. probe_demo_service py (demo_http (demo_service_url st) t) st s = (Healthy, s') \<and> ds_mode s' = NORMAL \<and>
     ds_version s' = ''v1.4.1''"
proof -
  have m: "fault_mode_of ''normal'' = Some NORMAL" by code_simp
  have u: "demo_service_url st @ ''/internal/fault-mode'' = demo_service_url st @ ''/internal/fault-mode''" by simp
  show ?thesis
    by (simp add: probe_demo_service_def Let_def obj_get_def m is_success_def set_fault_mode_def log_event_def
        verify_health_def health_def)
qed

subsection \<open>The promises of the remediation\<close>

lemma executableD:
  assumes "executable w k a" "approvals_inv py w"
  obtains t where "ap_decided_at a = Some t" "t \<le> as_utc (ap_expires_at a)" "t \<le> now_of w"
    "ap_action_hash a = action_digest py (ap_action_type a) (ap_parameters a) (ap_run a)"
    "a \<in> set (approvals (work w))" "ap_action_type a \<in> set ALLOWED_ACTIONS"
proof -
  have a: "a \<in> set (approvals (work w))" "ap_status a = Appr_APPROVED" "ap_action_type a = ''simulated_rollback''"
    using assms(1) by (auto simp: executable_def dest: row_get_SomeD)
  have g: "approval_good py (now_of w) (work w) a" using assms(2) a(1) by (simp add: approvals_inv_def)
  then obtain t where "ap_decided_at a = Some t" using a(2) by (auto simp: approval_good_def split: option.splits)
  then show thesis using that a g by (auto simp: approval_good_def ALLOWED_ACTIONS_def)
qed

text \<open>The guards of the code, on the stored row alone.\<close>

definition cleared :: "pylib \<Rightarrow> world \<Rightarrow> uuid \<Rightarrow> approval \<Rightarrow> bool" where
  "cleared py w k a \<longleftrightarrow> get_approval w k = Some a \<and> ap_status a = Appr_APPROVED \<and> ap_executed_at a = None \<and>
     ap_action_type a \<in> set ALLOWED_ACTIONS \<and>
     action_digest py (ap_action_type a) (ap_parameters a) (ap_run a) = ap_action_hash a \<and>
     ap_action_type a = ''simulated_rollback''"

lemma execute_approval_guards:
  assumes "execute_approval py http st k (w, e) = (out, w', e')"
  shows "(w', e') = (w, e) \<and> (\<exists>m. out = Inl (RemediationError m)) \<or>
    (\<exists>a. cleared py w k a \<and> e' = snd (probe_demo_service py http st e))"
  using assms unfolding execute_approval_def cleared_def
  by (auto simp: Let_def split: option.splits if_splits probe.splits prod.splits)

text \<open>C9: Nothing is executed without a human's approval, whatever the database holds. For any stored
  rows, tampered ones included, and however the network behaves, the demo service is contacted only
  when the stored approval is approved, not executed, allow-listed, carries the digest of its own
  action and is the implemented rollback; otherwise the request is refused with the database, the
  session and the outside world exactly as they were. An approved action that is not allow-listed, is
  tampered with or is not implemented is refused with the message that says so. When the rows also
  satisfy the invariant of the approvals, the decision was made before its deadline and by now.\<close>

theorem execute_approval_needs_approval:
  assumes "execute_approval py http st k (w, e) = (out, w', e')"
  shows "((w', e') = (w, e) \<and> (\<exists>m. out = Inl (RemediationError m)) \<or>
      (\<exists>a. get_approval w k = Some a \<and> ap_status a = Appr_APPROVED \<and> ap_executed_at a = None \<and>
         ap_action_type a \<in> set ALLOWED_ACTIONS \<and>
         ap_action_hash a = action_digest py (ap_action_type a) (ap_parameters a) (ap_run a) \<and>
         ap_action_type a = ''simulated_rollback'' \<and> e' = snd (probe_demo_service py http st e) \<and>
         (approvals_inv py w \<longrightarrow>
            (\<exists>t. ap_decided_at a = Some t \<and> t \<le> as_utc (ap_expires_at a) \<and> t \<le> now_of w)))) \<and>
    (\<forall>a. get_approval w k = Some a \<and> ap_status a = Appr_APPROVED \<and> ap_executed_at a = None \<longrightarrow>
       (if ap_action_type a \<notin> set ALLOWED_ACTIONS
        then (out, w', e') = (Inl (RemediationError ''Action is not allow-listed''), w, e)
        else if ap_action_hash a \<noteq> action_digest py (ap_action_type a) (ap_parameters a) (ap_run a)
        then (out, w', e') = (Inl (RemediationError ''Approval action integrity check failed''), w, e)
        else ap_action_type a \<noteq> ''simulated_rollback'' \<longrightarrow>
          (out, w', e') = (Inl (RemediationError ''Only simulated_rollback is implemented in this demo''), w, e)))"
    (is "?safe \<and> ?messages")
proof
  have t: "\<exists>t. ap_decided_at a = Some t \<and> t \<le> as_utc (ap_expires_at a) \<and> t \<le> now_of w"
    if "cleared py w k a" "approvals_inv py w" for a
    using executableD [of w k a py] that unfolding cleared_def executable_def by metis
  show ?safe using execute_approval_guards [OF assms] t unfolding cleared_def by metis
  show ?messages using assms by (auto simp: execute_approval_def)
qed

lemma execute_approval_success:
  assumes "approvals_inv py w" "execute_approval py http st k (w, e) = (Inr b, w', e')"
  shows "get_approval w' k = Some b \<and> ap_status b = Appr_APPROVED \<and> ap_executed_at b = Some (now_of w) \<and>
    ap_execution_status b = Some ''succeeded'' \<and>
    (\<exists>run i. get_run w' (ap_run b) = Some run \<and> get_incident w' (run_incident run) = Some i \<and>
       inc_status i = RESOLVED \<and> inc_resolved_at i = Some (now_of w))"
proof (cases rule: execute_approval_cases [OF assms(2,1), case_names refused crashed failed succeeded])
  case (succeeded a run i md)
  have a: "get_approval w k = Some a" "ap_id a = k" "ap_status a = Appr_APPROVED"
    using succeeded(1) by (auto simp: executable_def dest: row_get_SomeD)
  have b: "b = executed a ''succeeded'' None (now_of w)" using succeeded(5) by simp
  have i: "inc_id i = run_incident run"
    using get_incident_service(1) [OF succeeded(3)] approvals_inv_parts(1) [OF assms(1)] by simp
  have "get_approval w' k = Some b"
    using a row_get_in_keys [OF a(1)] by (simp add: succeeded(6) b executed_def write_defs row_get_row_set)
  moreover have "get_run w' (ap_run b) = Some run"
    using succeeded(2) by (simp add: succeeded(6) b executed_def write_defs)
  moreover have "get_incident w' (run_incident run) = Some (i\<lparr>inc_status := RESOLVED, inc_resolved_at := Some (now_of w)\<rparr>)"
    using i row_get_in_keys [OF succeeded(3)] by (simp add: succeeded(6) write_defs row_get_row_set keys_row_set)
  moreover have "ap_status b = Appr_APPROVED" "ap_executed_at b = Some (now_of w)" "ap_execution_status b = Some ''succeeded''"
    using a(3) by (simp_all add: b executed_def)
  ultimately show ?thesis by simp
qed auto

text \<open>C10: An approval is executed at most once: after a successful execution the approval is
  marked executed at the current time, its incident is resolved at that time, and every further
  execution of it is refused without contacting the demo service.\<close>

theorem execute_approval_once:
  assumes "approvals_inv py w" "execute_approval py http st k (w, e) = (Inr b, w', e')"
  shows "get_approval w' k = Some b \<and> ap_executed_at b = Some (now_of w) \<and>
    ap_execution_status b = Some ''succeeded'' \<and>
    (\<exists>run i. get_run w' (ap_run b) = Some run \<and> get_incident w' (run_incident run) = Some i \<and>
       inc_status i = RESOLVED \<and> inc_resolved_at i = Some (now_of w)) \<and>
    execute_approval py http' st' k (w', e'') =
      (Inl (RemediationError ''Approval has already been executed''), w', e'')"
  using execute_approval_success [OF assms] by (auto simp: execute_approval_def)

text \<open>C11: Against the demo service the remediation always recovers: executing an approved rollback
  succeeds whatever fault mode the service is in, leaves it in normal mode at v1.4.1, records the
  success on the stored approval and resolves the incident of its run at that time.\<close>

theorem execute_approval_recovers_demo:
  assumes "approvals_inv py w" "get_approval w k = Some a" "ap_status a = Appr_APPROVED"
    "ap_executed_at a = None" "ap_action_type a = ''simulated_rollback''"
  shows "\<exists>b w' s'. execute_approval py (demo_http (demo_service_url st) ts) st k (w, s) = (Inr b, w', s') \<and>
    ds_mode s' = NORMAL \<and> ds_version s' = ''v1.4.1'' \<and>
    get_approval w' k = Some b \<and> ap_execution_status b = Some ''succeeded'' \<and> ap_executed_at b = Some (now_of w) \<and>
    (\<exists>run i. get_run w' (ap_run a) = Some run \<and> get_incident w' (run_incident run) = Some i \<and>
       inc_status i = RESOLVED \<and> inc_resolved_at i = Some (now_of w))"
proof -
  obtain s' where p: "probe_demo_service py (demo_http (demo_service_url st) ts) st s = (Healthy, s')"
    "ds_mode s' = NORMAL" "ds_version s' = ''v1.4.1''" using probe_demo_healthy by blast
  obtain out w' s2 where o: "execute_approval py (demo_http (demo_service_url st) ts) st k (w, s) = (out, w', s2)"
    by (metis prod.collapse)
  have x: "executable w k a" using assms(2-) by (simp add: executable_def)
  have "\<exists>b. out = Inr b \<and> ap_run b = ap_run a \<and> s2 = s'"
  proof (cases rule: execute_approval_cases [OF o assms(1), case_names refused crashed failed succeeded])
    case (refused y)
    then show ?thesis using x by blast
  next
    case (succeeded a' run i md)
    then have "a' = a" using x by (simp add: executable_def)
    then show ?thesis using succeeded p by (auto simp: executed_def)
  qed (use p in auto)
  then obtain b where b: "out = Inr b" "ap_run b = ap_run a" "s2 = s'" by blast
  show ?thesis
    using execute_approval_success [OF assms(1) o [unfolded b(1)]] o p(2,3) b by auto
qed

text \<open>The runs of these theorems on the concrete approved rollback.\<close>

definition demo_faulty :: demo_state where
  "demo_faulty = snd (set_fault_mode ''t'' DEPLOYMENT_REGRESSION initial_demo)"

definition demo_client :: "demo_state http" where
  "demo_client = demo_http ''http://localhost:8001'' ''t''"

lemma demo_approved_row:
  "case get_approval demo_approved 11 of None \<Rightarrow> False
   | Some a \<Rightarrow> ap_status a = Appr_APPROVED \<and> ap_executed_at a = None \<and> ap_action_type a = ''simulated_rollback''"
  by code_simp

lemma demo_approved_executable: "\<exists>a. executable demo_approved 11 a"
  using demo_approved_row by (auto simp: executable_def split: option.splits)

theorem execute_approval_recovers_demo_witness:
  "\<exists>b w' s'. execute_approval demo_pylib demo_client default_settings 11 (demo_approved, demo_faulty) =
      (Inr b, w', s') \<and> ds_mode s' = NORMAL \<and> ds_version s' = ''v1.4.1'' \<and> ap_execution_status b = Some ''succeeded'' \<and>
     (\<exists>m i. get_incident w' m = Some i \<and> inc_status i = RESOLVED \<and> inc_resolved_at i = Some (now_of demo_approved))"
proof -
  obtain a where "executable demo_approved 11 a" using demo_approved_executable ..
  then show ?thesis
    using execute_approval_recovers_demo [OF demo_approvals_inv(2), of 11 a default_settings "''t''" demo_faulty]
    by (simp add: executable_def demo_client_def default_settings_def) blast
qed

lemma demo_execution:
  "\<exists>b w' s'. execute_approval demo_pylib demo_client default_settings 11 (demo_approved, demo_faulty) = (Inr b, w', s')"
proof -
  have "case fst (execute_approval demo_pylib demo_client default_settings 11 (demo_approved, demo_faulty)) of
    Inr _ \<Rightarrow> True | Inl _ \<Rightarrow> False"
    by code_simp
  then show ?thesis by (metis old.sum.simps(5) obj_sumE prod.collapse)
qed

theorem execute_approval_once_witness:
  "\<exists>b w' s'. execute_approval demo_pylib demo_client default_settings 11 (demo_approved, demo_faulty) = (Inr b, w', s') \<and>
     execute_approval demo_pylib demo_client default_settings 11 (w', s') =
       (Inl (RemediationError ''Approval has already been executed''), w', s')"
proof -
  obtain b w' s' where x: "execute_approval demo_pylib demo_client default_settings 11 (demo_approved, demo_faulty) = (Inr b, w', s')"
    using demo_execution by blast
  from execute_approval_once [OF demo_approvals_inv(2) x, of demo_client default_settings s'] x show ?thesis by blast
qed

text \<open>The approved row with a digest that is not its own, with an action of the allow-list that is not
  implemented, and with an action outside of the list; and the request before it is approved.\<close>

definition rewritten :: "(approval \<Rightarrow> approval) \<Rightarrow> world" where
  "rewritten f = demo_approved\<lparr>work := (work demo_approved)\<lparr>approvals := map f (approvals (work demo_approved))\<rparr>\<rparr>"

definition other_action :: "str \<Rightarrow> approval \<Rightarrow> approval" where
  "other_action t a = a\<lparr>ap_action_type := t, ap_action_hash := action_digest demo_pylib t (ap_parameters a) (ap_run a)\<rparr>"

lemma rewritten_get:
  assumes "\<And>a. ap_id (f a) = ap_id a"
  shows "get_approval (rewritten f) k = map_option f (get_approval demo_approved k)"
proof -
  have "row_get ap_id k (map f t) = map_option f (row_get ap_id k t)" for t
    by (induction t) (simp_all add: row_get_def assms)
  then show ?thesis by (simp add: rewritten_def)
qed

lemma demo_digest_brace: "\<exists>s. action_digest demo_pylib t ps r = CHR ''{'' # s"
  by (simp add: action_digest_def canonical_action_def demo_pylib_def dumps_def)

lemma demo_requested_row: "case get_approval demo_requested 11 of None \<Rightarrow> False | Some a \<Rightarrow> ap_status a = Appr_PENDING"
  by code_simp

theorem execute_approval_needs_approval_witness:
  "execute_approval demo_pylib demo_client default_settings 11 (rewritten (ap_action_hash_update (\<lambda>_. ''0'')), demo_faulty) =
     (Inl (RemediationError ''Approval action integrity check failed''), rewritten (ap_action_hash_update (\<lambda>_. ''0'')), demo_faulty) \<and>
   execute_approval demo_pylib demo_client default_settings 11 (rewritten (other_action ''simulated_restart''), demo_faulty) =
     (Inl (RemediationError ''Only simulated_rollback is implemented in this demo''), rewritten (other_action ''simulated_restart''), demo_faulty) \<and>
   execute_approval demo_pylib demo_client default_settings 11 (rewritten (other_action ''drop_database''), demo_faulty) =
     (Inl (RemediationError ''Action is not allow-listed''), rewritten (other_action ''drop_database''), demo_faulty) \<and>
   (\<exists>m. execute_approval demo_pylib demo_client default_settings 11 (demo_requested, demo_faulty) =
     (Inl (RemediationError m), demo_requested, demo_faulty))"
proof -
  obtain a where a: "get_approval demo_approved 11 = Some a" "ap_status a = Appr_APPROVED" "ap_executed_at a = None"
    "ap_action_type a = ''simulated_rollback''"
    using demo_approved_executable by (auto simp: executable_def)
  let ?run = "\<lambda>w. execute_approval demo_pylib demo_client default_settings 11 (w, demo_faulty)"
  have "?run w = (fst (?run w), fst (snd (?run w)), snd (snd (?run w)))" for w by simp
  note t = execute_approval_needs_approval [OF this]
  note m = conjunct2 [OF t, rule_format, unfolded prod.collapse]
  let ?bad = "rewritten (ap_action_hash_update (\<lambda>_. ''0''))"
  have "get_approval ?bad 11 = Some (a\<lparr>ap_action_hash := ''0''\<rparr>)" using a(1) by (simp add: rewritten_get)
  then have "?run ?bad = (Inl (RemediationError ''Approval action integrity check failed''), ?bad, demo_faulty)"
    using m [of ?bad "a\<lparr>ap_action_hash := ''0''\<rparr>"] a(2-4) demo_digest_brace [of "ap_action_type a" "ap_parameters a" "ap_run a"]
    by (auto simp: ALLOWED_ACTIONS_def)
  moreover have g: "get_approval (rewritten (other_action y)) 11 = Some (other_action y a)" for y
    using a(1) by (simp add: rewritten_get other_action_def)
  have "?run (rewritten (other_action ''simulated_restart'')) =
      (Inl (RemediationError ''Only simulated_rollback is implemented in this demo''), rewritten (other_action ''simulated_restart''), demo_faulty)"
    using m [OF conjI [OF g]] a(2-4) by (simp add: other_action_def ALLOWED_ACTIONS_def)
  moreover have "?run (rewritten (other_action ''drop_database'')) =
      (Inl (RemediationError ''Action is not allow-listed''), rewritten (other_action ''drop_database''), demo_faulty)"
    using m [OF conjI [OF g]] a(2-4) by (simp add: other_action_def ALLOWED_ACTIONS_def)
  moreover have "\<exists>m. ?run demo_requested = (Inl (RemediationError m), demo_requested, demo_faulty)"
    using conjunct1 [OF t, of demo_requested] demo_requested_row by (auto split: option.splits simp: prod_eq_iff)
  ultimately show ?thesis by blast
qed

text \<open>C12: Execution does not look at the deadline: an approved, unexecuted rollback is executed however
  long ago its approval expired, although the policy check of \<open>safety.py\<close>, which the
  executor does not call, blocks the very same action at that time.\<close>

theorem execute_approval_ignores_deadline:
  assumes "approvals_inv py w" "executable w k a" "as_utc (ap_expires_at a) < now_of w"
    and "probe_demo_service py http st e = (Healthy, e')"
  shows "(\<exists>b w'. execute_approval py http st k (w, e) = (Inr b, w', e')) \<and>
    fst (verify_backend_approval py (Some a) (ap_action_type a) (ap_parameters a) (ap_run a) None w) \<noteq> Inr ()"
proof -
  obtain out w' s2 where o: "execute_approval py http st k (w, e) = (out, w', s2)" by (metis prod.collapse)
  have "\<exists>b w'. execute_approval py http st k (w, e) = (Inr b, w', e')"
  proof (cases rule: execute_approval_cases [OF o assms(1), case_names refused crashed failed succeeded])
    case (refused y)
    then show ?thesis using assms(2) by blast
  next
    case (succeeded a' run i md)
    then show ?thesis using o assms(4) by auto
  qed (use assms(4) in auto)
  moreover have "ap_run a = ap_run a \<and> ap_action_type a \<in> set ALLOWED_ACTIONS \<and> ap_status a = Appr_APPROVED"
    using executableD [OF assms(2,1)] assms(2) by (metis executable_def)
  then have "fst (verify_backend_approval py (Some a) (ap_action_type a) (ap_parameters a) (ap_run a) None w) \<noteq> Inr ()"
    using assms(3) by (simp add: verify_backend_approval_def utc_now_def now_of_def Let_def)
  ultimately show ?thesis by blast
qed

definition demo_late :: world where
  "demo_late = demo_approved\<lparr>clock := \<lambda>n. seconds (1000000 + int n)\<rparr>"

lemma demo_late_inv: "approvals_inv demo_pylib demo_late"
proof (rule approvals_inv_step [OF demo_approvals_inv(2)])
  have w: "records_ok demo_approved" using demo_approvals_inv(2) by (simp add: approvals_inv_def)
  have "mono (\<lambda>n. seconds (1000000 + int n))" by (intro monoI) (simp add: seconds_def)
  then show "records_ok demo_late" using w by (simp add: demo_late_def records_ok_def world_ok_def ids_ok_def)
  have "now_of demo_approved \<le> seconds 1000000" by code_simp
  also have "\<dots> \<le> now_of demo_late" by (simp add: now_of_def demo_late_def seconds_def)
  finally show "now_of demo_approved \<le> now_of demo_late" .
qed (simp_all add: demo_late_def)

theorem execute_approval_ignores_deadline_witness:
  "\<exists>a b w' s'. get_approval demo_late 11 = Some a \<and> as_utc (ap_expires_at a) < now_of demo_late \<and>
     execute_approval demo_pylib demo_client default_settings 11 (demo_late, demo_faulty) = (Inr b, w', s')"
proof -
  have "case get_approval demo_late 11 of None \<Rightarrow> False | Some a \<Rightarrow> as_utc (ap_expires_at a) < now_of demo_late"
    by code_simp
  then obtain a where a: "get_approval demo_late 11 = Some a" "as_utc (ap_expires_at a) < now_of demo_late"
    by (auto split: option.splits)
  have x: "executable demo_late 11 a"
    using demo_approved_executable a(1) by (auto simp: executable_def demo_late_def)
  obtain s' where p: "probe_demo_service demo_pylib demo_client default_settings demo_faulty = (Healthy, s')"
    using probe_demo_healthy [of demo_pylib default_settings "''t''" demo_faulty]
    by (auto simp: demo_client_def default_settings_def)
  show ?thesis using execute_approval_ignores_deadline [OF demo_late_inv x a(2) p] a by blast
qed

end
