(* ===== verification/Connectors.thy ===== *)
theory Connectors
  imports Investigation Http "HOL-Library.Multiset"
begin

section \<open>Connectors: Prometheus, Loki and the deployment history\<close>

text \<open>
  \<open>packages/connectors\<close>: three sources of evidence. Each one checks its arguments, asks its
  source and turns the answer into a \<open>connector_result\<close>. The state is the world, whose clock they
  read and whose deployments the third one queries, with the outside world of the HTTP function.
  \<open>evidence_source\<close> is what the collection pass relies on: an answer is ready to be persisted,
  and asking changes nothing of the database. The three sources are interpretations of it.
\<close>

record connector_result =
  cx_source_type :: source_type
  cx_source_name :: str
  cx_query :: str
  cx_query_params :: "(str \<times> json) list"
  cx_summary :: str
  cx_raw_data :: "(str \<times> json) list"
  cx_range_start :: time
  cx_range_end :: time
  cx_collected :: time

definition connector_result_ok :: "connector_result \<Rightarrow> bool" where
  "connector_result_ok r \<longleftrightarrow> len_between 1 128 (cx_source_name r) \<and> 1 \<le> length (cx_query r) \<and>
     1 \<le> length (cx_summary r) \<and> obj_finite (cx_query_params r) \<and> obj_finite (cx_raw_data r)"

definition make_result :: "connector_result \<Rightarrow> exn + connector_result" where
  "make_result r = (if connector_result_ok r then Inr r else Inl ValidationErr)"

text \<open>Python compares an aware with a naive datetime by raising TypeError.\<close>

definition precedes :: "datetime \<Rightarrow> datetime \<Rightarrow> exn + bool" where
  "precedes a b = (if is_aware a \<noteq> is_aware b then Inl (TypeErr ''compare'') else Inr (as_utc a < as_utc b))"

type_synonym 'e source = "(world \<times> 'e, connector_result) op"

definition tz_error :: exn where
  "tz_error = ValueErr ''Connector timestamps must include a timezone''"

subsection \<open>Prometheus\<close>

definition invalid_response :: "str \<Rightarrow> exn" where
  "invalid_response m = ConnectorError ''INVALID_SOURCE_RESPONSE'' m False"

text \<open>The payload of a range query: the data object and its list of series.\<close>

definition prometheus_payload :: "(str \<times> json) list \<Rightarrow> exn + (str \<times> json) list \<times> json list" where
  "prometheus_payload payload =
     (case (obj_get payload ''status'', obj_get payload ''data'') of
        (Some (JStr s), Some (JObj data)) \<Rightarrow>
          if s \<noteq> ''success'' then Inl (invalid_response ''Prometheus returned an unsuccessful query.'')
          else (case obj_get data ''result'' of
              Some (JList result) \<Rightarrow> Inr (data, result)
            | _ \<Rightarrow> Inl (invalid_response ''Prometheus response has no result list.''))
      | _ \<Rightarrow> Inl (invalid_response ''Prometheus returned an unsuccessful query.''))"

definition prometheus_query_range ::
    "pylib \<Rightarrow> 'e http \<Rightarrow> connector \<Rightarrow> str \<Rightarrow> datetime \<Rightarrow> datetime \<Rightarrow> int \<Rightarrow> 'e source" where
  "prometheus_query_range py http c query start until step_seconds = (\<lambda>(w, e).
     if strip query = [] then (Inl (ValueErr ''PromQL query must not be blank''), w, e)
     else (case precedes until start of
        Inl x \<Rightarrow> (Inl x, w, e)
      | Inr True \<Rightarrow> (Inl (ValueErr ''Prometheus query end must not precede start''), w, e)
      | Inr False \<Rightarrow>
          if step_seconds < 1 then (Inl (ValueErr ''Prometheus query step must be positive''), w, e)
          else if \<not> is_aware start \<or> \<not> is_aware until then (Inl tz_error, w, e)
          else let s = as_utc start; t = as_utc until;
                   query_params = [(''query'', JStr query), (''start'', JStr (iso_text py (utc s))),
                     (''end'', JStr (iso_text py (utc t))), (''step'', JInt step_seconds)]
            in (case get_json http c ''/api/v1/query_range'' query_params e of
                  (Inl x, e1) \<Rightarrow> (Inl x, w, e1)
                | (Inr payload, e1) \<Rightarrow>
                    (case prometheus_payload payload of
                       Inl x \<Rightarrow> (Inl x, w, e1)
                     | Inr (data, result) \<Rightarrow>
                         let raw_data = [(''status'', JStr ''success''), (''data'', JObj data)] @
                               (case obj_get payload ''warnings'' of None \<Rightarrow> [] | Some x \<Rightarrow> [(''warnings'', x)]);
                             (now, w1) = utc_now w
                         in (make_result \<lparr>cx_source_type = METRIC, cx_source_name = ''prometheus'',
                               cx_query = query, cx_query_params = query_params,
                               cx_summary = ''Prometheus returned '' @ str_nat (length result) @ '' time series.'',
                               cx_raw_data = raw_data, cx_range_start = s, cx_range_end = t,
                               cx_collected = now\<rparr>, w1, e1)))))"

definition escape_label :: "str \<Rightarrow> str" where
  "escape_label s = replace_char CHR 0x22 [CHR 0x5C, CHR 0x22] (replace_char CHR 0x5C [CHR 0x5C, CHR 0x5C] s)"

definition quoted :: "str \<Rightarrow> str" where
  "quoted s = [CHR 0x22] @ s @ [CHR 0x22]"

definition checkout_error_rate_query :: "str \<Rightarrow> str" where
  "checkout_error_rate_query service_name =
     (let label = ''service_name='' @ quoted (escape_label service_name) in
      ''sum(rate(http_requests_total{'' @ label @ '',status=~'' @ quoted ''5..'' @ ''}[5m])) '' @
      ''/ clamp_min(sum(rate(http_requests_total{'' @ label @ ''}[5m])), 0.001)'')"

subsection \<open>Loki\<close>

text \<open>
  \<open>str(int(value.timestamp() * 1_000_000_000))\<close>: the timestamp is a float, rounded, and so is
  the product; \<open>int\<close> truncates.
\<close>

definition truncate :: "rat \<Rightarrow> int" where
  "truncate x = (if x < 0 then - \<lfloor>- x\<rfloor> else \<lfloor>x\<rfloor>)"

definition nanoseconds :: "time \<Rightarrow> int" where
  "nanoseconds t = truncate (fmul (fl (of_int t / 1000000)) 1000000000)"

fun stream_lines :: "json \<Rightarrow> nat" where
  "stream_lines (JObj stream) = (case obj_get stream ''values'' of Some (JList vs) \<Rightarrow> length vs | _ \<Rightarrow> 0)"
| "stream_lines _ = 0"

definition loki_payload :: "(str \<times> json) list \<Rightarrow> exn + json list" where
  "loki_payload payload =
     (case (obj_get payload ''status'', obj_get payload ''data'') of
        (Some (JStr s), Some (JObj data)) \<Rightarrow>
          if s \<noteq> ''success'' then Inl (invalid_response ''Loki returned an unsuccessful query.'')
          else (case obj_get data ''result'' of
              Some (JList streams) \<Rightarrow> Inr streams
            | _ \<Rightarrow> Inl (invalid_response ''Loki response has no result list.''))
      | _ \<Rightarrow> Inl (invalid_response ''Loki returned an unsuccessful query.''))"

definition loki_query_range ::
    "pylib \<Rightarrow> 'e http \<Rightarrow> connector \<Rightarrow> str \<Rightarrow> datetime \<Rightarrow> datetime \<Rightarrow> int \<Rightarrow> 'e source" where
  "loki_query_range py http c query start until limit = (\<lambda>(w, e).
     if strip query = [] then (Inl (ValueErr ''LogQL query must not be blank''), w, e)
     else if \<not> is_aware start \<or> \<not> is_aware until then (Inl tz_error, w, e)
     else if as_utc until < as_utc start then (Inl (ValueErr ''Loki query end must not precede start''), w, e)
     else if limit < 1 \<or> limit > 5000 then (Inl (ValueErr ''Loki query limit must be between 1 and 5000''), w, e)
     else let s = as_utc start; t = as_utc until;
              query_params = [(''query'', JStr query), (''start'', JStr (str_int (nanoseconds s))),
                (''end'', JStr (str_int (nanoseconds t))), (''limit'', JInt limit), (''direction'', JStr ''backward'')]
       in (case get_json http c ''/loki/api/v1/query_range'' query_params e of
             (Inl x, e1) \<Rightarrow> (Inl x, w, e1)
           | (Inr payload, e1) \<Rightarrow>
               (case loki_payload payload of
                  Inl x \<Rightarrow> (Inl x, w, e1)
                | Inr streams \<Rightarrow>
                    let line_count = sum_list (map stream_lines streams); (now, w1) = utc_now w
                    in (make_result \<lparr>cx_source_type = LOG, cx_source_name = ''loki'', cx_query = query,
                          cx_query_params = query_params,
                          cx_summary = ''Loki returned '' @ str_nat line_count @ '' log lines across '' @
                            str_nat (length streams) @ '' streams.'',
                          cx_raw_data = payload, cx_range_start = s, cx_range_end = t,
                          cx_collected = now\<rparr>, w1, e1))))"

definition checkout_log_query :: "str \<Rightarrow> str" where
  "checkout_log_query service_name =
     ''{service_name='' @ quoted (escape_label service_name) @ ''} |~ '' @
     quoted ''(?i)(error|timeout|failed|exception)''"

subsection \<open>Deployment history\<close>

definition opt_json :: "str option \<Rightarrow> json" where
  "opt_json x = (case x of None \<Rightarrow> JNull | Some s \<Rightarrow> JStr s)"

definition serialize_deployment :: "pylib \<Rightarrow> deployment_event \<Rightarrow> json" where
  "serialize_deployment py r = JObj
     [(''id'', JStr (uuid_text py (dp_id r))), (''service_id'', JStr (uuid_text py (dp_service r))),
      (''version'', JStr (dp_version r)), (''previous_version'', opt_json (dp_previous_version r)),
      (''commit_sha'', opt_json (dp_commit_sha r)), (''deployed_by'', opt_json (dp_deployed_by r)),
      (''status'', JStr (deployment_status_value (dp_status r))),
      (''deployed_at'', JStr (iso_text py (utc (dp_deployed_at r)))), (''metadata'', JObj (dp_metadata r))]"

definition deployments_in_range :: "db \<Rightarrow> uuid \<Rightarrow> time \<Rightarrow> time \<Rightarrow> deployment_event list" where
  "deployments_in_range d service_id s t =
     sort_key (\<lambda>r. (dp_deployed_at r, dp_id r))
       (filter (\<lambda>r. dp_service r = service_id \<and> dp_deployed_at r \<ge> s \<and> dp_deployed_at r \<le> t) (deployments d))"

definition deployment_query_range :: "pylib \<Rightarrow> uuid \<Rightarrow> datetime \<Rightarrow> datetime \<Rightarrow> 'e source" where
  "deployment_query_range py service_id start until = (\<lambda>(w, e).
     if \<not> is_aware start \<or> \<not> is_aware until then (Inl tz_error, w, e)
     else if as_utc until < as_utc start
     then (Inl (ValueErr ''Deployment query end must not precede start''), w, e)
     else let s = as_utc start; t = as_utc until;
              rows = map (serialize_deployment py) (deployments_in_range (work w) service_id s t);
              (now, w1) = utc_now w
       in (make_result \<lparr>cx_source_type = DEPLOYMENT, cx_source_name = ''postgresql'',
             cx_query = ''deployment_events by service_id and deployed_at range'',
             cx_query_params = [(''service_id'', JStr (uuid_text py service_id)),
               (''start'', JStr (iso_text py (utc s))), (''end'', JStr (iso_text py (utc t)))],
             cx_summary = (if rows \<noteq> [] then ''Deployment history returned '' @ str_nat (length rows) @ '' records.''
               else ''No deployment records were found in the incident window.''),
             cx_raw_data = [(''deployments'', JList rows)], cx_range_start = s, cx_range_end = t,
             cx_collected = now\<rparr>, w1, e))"

subsection \<open>The contract of a source\<close>

text \<open>Reading the clock is all that asking does to the world.\<close>

definition ticked :: "world \<Rightarrow> world \<Rightarrow> bool" where
  "ticked w w' \<longleftrightarrow> (\<exists>n. w' = w\<lparr>clock_reads := clock_reads w + n\<rparr>)"

definition result_ready :: "connector_result \<Rightarrow> bool" where
  "result_ready r \<longleftrightarrow> connector_result_ok r \<and> not_blank (cx_source_name r) \<and> not_blank (cx_query r) \<and>
     not_blank (cx_summary r) \<and> cx_range_start r \<le> cx_range_end r"

locale evidence_source =
  fixes ask :: "(world \<times> 'e, connector_result) op" and kind :: source_type
  assumes ask_ticks: "ask (w, e) = (out, w', e') \<Longrightarrow> ticked w w'"
    and ask_ready: "ask (w, e) = (Inr r, w', e') \<Longrightarrow> result_ready r"
    and ask_kind: "ask (w, e) = (Inr r, w', e') \<Longrightarrow> cx_source_type r = kind"
    and ask_message: "ask (w, e) = (Inl (ConnectorError c m b), w', e') \<Longrightarrow> not_blank m"
begin

lemma ask_database:
  "ask (w, e) = (out, w', e') \<Longrightarrow> work w' = work w \<and> saved w' = saved w"
  using ask_ticks [of w e out w' e'] by (auto simp: ticked_def)

text \<open>An answer makes a valid evidence payload for whatever tool call it is filed under.\<close>

lemma ask_evidence_ok:
  assumes "ask (w, e) = (Inr r, w', e')"
  shows "evidence_create_ok \<lparr>ec_tool_call = k, ec_source_type = cx_source_type r,
     ec_source_name = cx_source_name r, ec_query = cx_query r, ec_query_params = cx_query_params r,
     ec_summary = cx_summary r, ec_raw_data = cx_raw_data r, ec_range_start = Some (cx_range_start r),
     ec_range_end = Some (cx_range_end r), ec_collected = cx_collected r\<rparr>"
  using ask_ready [OF assms]
  by (auto simp: result_ready_def connector_result_ok_def evidence_create_ok_def time_range_ok_def)

end

subsection \<open>The three sources keep the contract\<close>

lemma ticked_refl [simp]: "ticked w w"
  unfolding ticked_def by (rule exI [of _ 0]) simp

lemma ticked_now: "utc_now w = (t, w') \<Longrightarrow> ticked w w'"
  unfolding ticked_def by (rule exI [of _ 1]) (simp add: utc_now_def)

lemma ticked_trans: "ticked a b \<Longrightarrow> ticked b c \<Longrightarrow> ticked a c"
  unfolding ticked_def by (metis (no_types, lifting) ab_semigroup_add_class.add_ac(1) world.simps(6)
    world.surjective world.update_convs(6))

lemma make_result_Inr: "make_result x = Inr r \<Longrightarrow> r = x \<and> connector_result_ok x"
  by (auto simp: make_result_def split: if_splits)

lemma not_blank_text:
  "not_blank (''Prometheus'' @ s)" "not_blank (''Loki'' @ s)" "not_blank (''Deployment'' @ s)"
  "not_blank (''No'' @ s)" "not_blank (''prometheus'' @ s)" "not_blank (''loki'' @ s)"
  "not_blank (''postgresql'' @ s)" "not_blank (''deployment_events'' @ s)"
  by (simp_all add: not_blank_start is_space_def)

lemma not_blank_words:
  "not_blank ''prometheus''" "not_blank ''loki''" "not_blank ''postgresql''"
  "not_blank ''deployment_events by service_id and deployed_at range''"
  "not_blank ''No deployment records were found in the incident window.''"
  by (simp_all add: not_blank_start is_space_def)

lemma prometheus_ask:
  assumes "prometheus_query_range py http c q s t step (w, e) = (out, w', e')"
  shows "ticked w w'" "out = Inr r \<Longrightarrow> result_ready r"
proof -
  have "ticked w w' \<and> (out = Inr r \<longrightarrow> result_ready r)"
  proof (cases "strip q = []")
    case True
    then show ?thesis using assms by (auto simp: prometheus_query_range_def)
  next
    case False
    have "not_blank q" using False by (simp add: not_blank_def)
    then show ?thesis
      using assms False ticked_now
      by (auto simp: prometheus_query_range_def precedes_def Let_def result_ready_def not_blank_words
          not_blank_start is_space_def
          split: if_splits prod.splits sum.splits bool.splits dest!: make_result_Inr)
  qed
  then show "ticked w w'" "out = Inr r \<Longrightarrow> result_ready r" by auto
qed

lemma loki_ask:
  assumes "loki_query_range py http c q s t limit (w, e) = (out, w', e')"
  shows "ticked w w'" "out = Inr r \<Longrightarrow> result_ready r"
proof -
  have "ticked w w' \<and> (out = Inr r \<longrightarrow> result_ready r)"
  proof (cases "strip q = []")
    case True
    then show ?thesis using assms by (auto simp: loki_query_range_def)
  next
    case False
    have "not_blank q" using False by (simp add: not_blank_def)
    then show ?thesis
      using assms False ticked_now
      by (auto simp: loki_query_range_def Let_def result_ready_def not_blank_words not_blank_start is_space_def
          split: if_splits prod.splits sum.splits dest!: make_result_Inr)
  qed
  then show "ticked w w'" "out = Inr r \<Longrightarrow> result_ready r" by auto
qed

lemma deployment_ask:
  assumes "deployment_query_range py k s t (w, e) = (out, w', e')"
  shows "ticked w w'" "out = Inr r \<Longrightarrow> result_ready r"
proof -
  have "ticked w w' \<and> (out = Inr r \<longrightarrow> result_ready r)"
    using assms ticked_now
    by (auto simp: deployment_query_range_def Let_def result_ready_def not_blank_words not_blank_start is_space_def
        split: if_splits prod.splits dest!: make_result_Inr)
  then show "ticked w w'" "out = Inr r \<Longrightarrow> result_ready r" by auto
qed

text \<open>The messages of the connector errors are texts of the source, none of them blank.\<close>

lemma verdict_message: "verdict r = Inl (ConnectorError c m b) \<Longrightarrow> not_blank m"
  by (auto simp: verdict_def judge_def not_blank_start is_space_def
      split: sum.splits http_error.splits if_splits json.splits)

lemma get_json_message: "get_json http cn path ps e = (Inl (ConnectorError c m b), e') \<Longrightarrow> not_blank m"
proof -
  assume g: "get_json http cn path ps e = (Inl (ConnectorError c m b), e')"
  obtain k where "get_json http cn path ps e = (verdict (reply http (Get (cn_base_url cn @ path) ps) k e),
      after http (Get (cn_base_url cn @ path) ps) (Suc k) e)"
    using get_json_loop_runs [of "cn_max_retries cn" http "Get (cn_base_url cn @ path) ps" e]
    unfolding get_json_def by blast
  then have "verdict (reply http (Get (cn_base_url cn @ path) ps) k e) = Inl (ConnectorError c m b)" using g by simp
  then show ?thesis by (rule verdict_message)
qed

lemma payload_message:
  "prometheus_payload p = Inl (ConnectorError c m b) \<Longrightarrow> not_blank m"
  "loki_payload p = Inl (ConnectorError c m b) \<Longrightarrow> not_blank m"
  by (auto simp: prometheus_payload_def loki_payload_def invalid_response_def not_blank_start is_space_def
      split: option.splits json.splits if_splits)

lemma make_result_message: "make_result r \<noteq> Inl (ConnectorError c m b)"
  by (simp add: make_result_def)

lemma prometheus_message:
  "prometheus_query_range py http cn q s t step (w, e) = (Inl (ConnectorError c m b), w', e') \<Longrightarrow> not_blank m"
  using get_json_message payload_message(1) make_result_message
  by (fastforce simp: prometheus_query_range_def precedes_def tz_error_def Let_def
      split: if_splits prod.splits sum.splits bool.splits)

lemma loki_message:
  "loki_query_range py http cn q s t limit (w, e) = (Inl (ConnectorError c m b), w', e') \<Longrightarrow> not_blank m"
  using get_json_message payload_message(2) make_result_message
  by (fastforce simp: loki_query_range_def tz_error_def Let_def split: if_splits prod.splits sum.splits)

lemma deployment_message:
  "deployment_query_range py k s t (w, e) = (Inl (ConnectorError c m b), w', e') \<Longrightarrow> not_blank m"
  using make_result_message
  by (fastforce simp: deployment_query_range_def tz_error_def Let_def split: if_splits prod.splits)

lemma prometheus_kind: "prometheus_query_range py http c q s t step (w, e) = (Inr r, w', e') \<Longrightarrow> cx_source_type r = METRIC"
  by (auto simp: prometheus_query_range_def Let_def split: if_splits prod.splits sum.splits bool.splits
      dest!: make_result_Inr)

lemma loki_kind: "loki_query_range py http c q s t limit (w, e) = (Inr r, w', e') \<Longrightarrow> cx_source_type r = LOG"
  by (auto simp: loki_query_range_def Let_def split: if_splits prod.splits sum.splits dest!: make_result_Inr)

lemma deployment_kind: "deployment_query_range py k s t (w, e) = (Inr r, w', e') \<Longrightarrow> cx_source_type r = DEPLOYMENT"
  by (auto simp: deployment_query_range_def Let_def split: if_splits prod.splits dest!: make_result_Inr)

interpretation prometheus: evidence_source "prometheus_query_range py http c q s t step" METRIC
  for py http c q s t step
  by unfold_locales (auto dest: prometheus_ask(1) prometheus_ask(2) [OF _ refl] prometheus_kind prometheus_message)

interpretation loki: evidence_source "loki_query_range py http c q s t limit" LOG
  for py http c q s t limit
  by unfold_locales (auto dest: loki_ask(1) loki_ask(2) [OF _ refl] loki_kind loki_message)

interpretation deployment: evidence_source "deployment_query_range py k s t" DEPLOYMENT
  for py k s t
  by unfold_locales (auto dest: deployment_ask(1) deployment_ask(2) [OF _ refl] deployment_kind deployment_message)

subsection \<open>What the queries ask\<close>

text \<open>How PromQL and LogQL read the rest of a string literal: up to the first unescaped quote.\<close>

fun scan_string :: "str \<Rightarrow> (str \<times> str) option" where
  "scan_string [] = None"
| "scan_string (c # r) =
     (if c = CHR 0x22 then Some ([], r)
      else if c = CHR 0x5C
      then (case r of [] \<Rightarrow> None | d # r' \<Rightarrow> map_option (\<lambda>(s, t). (d # s, t)) (scan_string r'))
      else map_option (\<lambda>(s, t). (c # s, t)) (scan_string r))"

lemma escape_label_Cons:
  "escape_label (c # s) = (if c = CHR 0x22 \<or> c = CHR 0x5C then [CHR 0x5C, c] else [c]) @ escape_label s"
  by (simp add: escape_label_def replace_char_def)

lemma scan_escaped: "scan_string (escape_label s @ CHR 0x22 # rest) = Some (s, rest)"
proof (induction s)
  case Nil
  then show ?case by (simp add: escape_label_def replace_char_def)
next
  case (Cons c s)
  then show ?case by (auto simp: escape_label_Cons)
qed

text \<open>C19: A service name cannot break out of the queries: whatever characters it holds, quotes and
  backslashes included, the metric and the log query carry it as one string literal that PromQL
  and LogQL read back as exactly that name, followed by the fixed rest of the query.\<close>

theorem service_name_cannot_inject:
  "(\<exists>rest. checkout_log_query name = ''{service_name='' @ [CHR 0x22] @ rest \<and>
      scan_string rest = Some (name, ''} |~ '' @ quoted ''(?i)(error|timeout|failed|exception)'')) \<and>
   (\<exists>rest tail. checkout_error_rate_query name =
        ''sum(rate(http_requests_total{service_name='' @ [CHR 0x22] @ rest \<and>
      scan_string rest = Some (name, '',status=~'' @ quoted ''5..'' @ ''}[5m])) / clamp_min(sum(rate(http_requests_total{service_name='' @
        [CHR 0x22] @ tail) \<and>
      scan_string tail = Some (name, ''}[5m])), 0.001)''))"
proof -
  have l: "checkout_log_query name = ''{service_name='' @ [CHR 0x22] @
      (escape_label name @ CHR 0x22 # ''} |~ '' @ quoted ''(?i)(error|timeout|failed|exception)'')"
    by (simp add: checkout_log_query_def quoted_def)
  let ?tail = "escape_label name @ CHR 0x22 # ''}[5m])), 0.001)''"
  have m: "checkout_error_rate_query name = ''sum(rate(http_requests_total{service_name='' @ [CHR 0x22] @
      (escape_label name @ CHR 0x22 # '',status=~'' @ quoted ''5..'' @
        ''}[5m])) / clamp_min(sum(rate(http_requests_total{service_name='' @ [CHR 0x22] @ ?tail)"
    by (simp add: checkout_error_rate_query_def quoted_def Let_def)
  show ?thesis using l m scan_escaped by blast
qed

lemma truncate_mono: "x \<le> y \<Longrightarrow> truncate x \<le> truncate y"
proof -
  assume le: "x \<le> y"
  have "- \<lfloor>- x\<rfloor> \<le> \<lfloor>y\<rfloor>" if "x < 0" "\<not> y < 0"
    using that zero_le_floor [of "- x"] zero_le_floor [of y] by linarith
  then show ?thesis
    using le floor_mono [OF le] floor_mono [of "- y" "- x"] by (auto simp: truncate_def)
qed

lemma nanoseconds_mono: "s \<le> t \<Longrightarrow> 0 \<le> s \<Longrightarrow> nanoseconds s \<le> nanoseconds t"
  unfolding nanoseconds_def
  by (intro truncate_mono fmul_mono fl_mono fl_nonneg) (simp_all add: divide_right_mono)

text \<open>What the result holds of the rows is finite JSON exactly when their metadata is.\<close>

lemma serialized_finite:
  "obj_finite [(''deployments'', JList (map (serialize_deployment py) rows))] \<longleftrightarrow> (\<forall>r \<in> set rows. obj_finite (dp_metadata r))"
  by (auto simp: obj_finite_def serialize_deployment_def opt_json_def split: option.splits)

lemma deployments_in_range_rows:
  "mset (deployments_in_range d k s t) =
     filter_mset (\<lambda>r. dp_service r = k \<and> s \<le> dp_deployed_at r \<and> dp_deployed_at r \<le> t) (mset (deployments d))"
  "sorted (map (\<lambda>r. (dp_deployed_at r, dp_id r)) (deployments_in_range d k s t))"
  by (simp_all add: deployments_in_range_def)

text \<open>C20: The deployment history is exact: for an ordered aware window the connector succeeds and answers
  with precisely the deployments of that service whose time lies in the window, bounds included,
  each once, ordered by time and then id: the raw data is their serialisation in that order, the
  summary counts them and the range is the window. It fails in three cases only, each with its own
  error: a naive bound, an end before the start, and a selected row whose metadata holds NaN or an
  infinity.\<close>

theorem deployment_history_exact:
  "let found = (\<lambda>r. dp_service r = k \<and> as_utc a \<le> dp_deployed_at r \<and> dp_deployed_at r \<le> as_utc b);
       answer = fst (deployment_query_range py k a b (w, e)) in
   if \<not> (is_aware a \<and> is_aware b)
   then answer = Inl (ValueErr ''Connector timestamps must include a timezone'')
   else if as_utc b < as_utc a
   then answer = Inl (ValueErr ''Deployment query end must not precede start'')
   else if \<exists>r \<in> set (deployments (work w)). found r \<and> \<not> obj_finite (dp_metadata r)
   then answer = Inl ValidationErr
   else \<exists>rows r. answer = Inr r \<and>
     mset rows = filter_mset found (mset (deployments (work w))) \<and>
     sorted (map (\<lambda>r. (dp_deployed_at r, dp_id r)) rows) \<and>
     cx_source_type r = DEPLOYMENT \<and> cx_range_start r = as_utc a \<and> cx_range_end r = as_utc b \<and>
     cx_raw_data r = [(''deployments'', JList (map (serialize_deployment py) rows))] \<and>
     cx_summary r = (if rows = [] then ''No deployment records were found in the incident window.''
       else ''Deployment history returned '' @ str_nat (length rows) @ '' records.'')"
proof -
  define rows where "rows = deployments_in_range (work w) k (as_utc a) (as_utc b)"
  note m = deployments_in_range_rows [of "work w" k "as_utc a" "as_utc b", folded rows_def]
  have f: "set rows = {r \<in> set (deployments (work w)). dp_service r = k \<and> as_utc a \<le> dp_deployed_at r \<and> dp_deployed_at r \<le> as_utc b}"
    using arg_cong [OF m(1), of set_mset] by simp
  have q: "obj_finite [(''service_id'', JStr x), (''start'', JStr y), (''end'', JStr z)]" for x y z
    by (simp add: obj_finite_def)
  have ok: "connector_result_ok r \<longleftrightarrow> (\<forall>d \<in> set rows. obj_finite (dp_metadata d))"
    if "cx_source_name r = ''postgresql''" "cx_query r = ''deployment_events by service_id and deployed_at range''"
      "cx_summary r = (if map (serialize_deployment py) rows \<noteq> [] then ''Deployment history returned '' @ str_nat (length rows) @ '' records.''
               else ''No deployment records were found in the incident window.'')"
      "obj_finite (cx_query_params r)" "cx_raw_data r = [(''deployments'', JList (map (serialize_deployment py) rows))]" for r
    using that by (simp add: connector_result_ok_def len_between_def serialized_finite)
  show ?thesis
    using m ok
    by (auto simp: deployment_query_range_def tz_error_def make_result_def Let_def q f
        simp flip: rows_def split: prod.splits)
qed

text \<open>Five deployments: two at the bounds of the window, written out of order, two outside of it and
  one of another service.\<close>

definition demo_release :: "uuid \<Rightarrow> uuid \<Rightarrow> time \<Rightarrow> deployment_event" where
  "demo_release u service t = \<lparr>dp_id = u, dp_service = service, dp_version = ''v'' @ str_nat u, dp_previous_version = None,
     dp_commit_sha = None, dp_deployed_by = None, dp_status = Dep_SUCCEEDED, dp_deployed_at = t, dp_metadata = []\<rparr>"

definition released_world :: world where
  "released_world = start_world\<lparr>work := empty_db\<lparr>deployments :=
     [demo_release 1 7 5, demo_release 2 7 2, demo_release 3 7 6, demo_release 4 8 3, demo_release 5 7 1]\<rparr>\<rparr>"

theorem deployment_history_exact_witness:
  "\<exists>rows r. fst (deployment_query_range demo_pylib 7 (utc 2) (utc 5) (released_world, ())) = Inr r \<and>
     mset rows = {#demo_release 1 7 5, demo_release 2 7 2#} \<and>
     sorted (map (\<lambda>r. (dp_deployed_at r, dp_id r)) rows) \<and>
     cx_raw_data r = [(''deployments'', JList (map (serialize_deployment demo_pylib) rows))]"
proof -
  have d: "deployments (work released_world) =
      [demo_release 1 7 5, demo_release 2 7 2, demo_release 3 7 6, demo_release 4 8 3, demo_release 5 7 1]"
    by (simp add: released_world_def)
  from deployment_history_exact [of 7 "utc 2" "utc 5" demo_pylib released_world "()"] show ?thesis
    by (auto simp: Let_def d demo_release_def obj_finite_def)
qed

end
