(* ===== verification/Invariant.thy ===== *)
theory Invariant
  imports Approval
begin

section \<open>The invariant of the system\<close>

text \<open>
  \<open>system_inv\<close> joins what the components promise of a world: the schema's constraints
  (\<open>world_ok\<close>), the trail of the investigations, good approvals, the grouping of the alerts, and
  runs that did not start in the future. It speaks of the session's view and of the committed
  state alike. Each operation of the components keeps it; those that follow compose them.
\<close>

definition runs_past :: "time \<Rightarrow> agent_run list \<Rightarrow> bool" where
  "runs_past now t \<longleftrightarrow> (\<forall>r \<in> set t. \<forall>s. run_started_at r = Some s \<longrightarrow> s \<le> now)"

definition system_inv :: "pylib \<Rightarrow> world \<Rightarrow> bool" where
  "system_inv py w \<longleftrightarrow> approvals_inv py w \<and> grouping_ok (work w) \<and> grouping_ok (saved w) \<and>
     runs_past (now_of w) (runs (work w)) \<and> runs_past (now_of w) (runs (saved w))"

lemma system_invD:
  assumes "system_inv py w"
  shows "approvals_inv py w" "records_ok w" "world_ok w" "db_ok (work w)" "groups_ok w" "trail_ok (work w)"
  using assms approvals_inv_parts by (auto simp: system_inv_def groups_ok_def records_ok_def approvals_inv_def)

text \<open>The grouping only looks at the alerts, their links and three columns of the incidents.\<close>

definition same_groups :: "db \<Rightarrow> db \<Rightarrow> bool" where
  "same_groups d d' \<longleftrightarrow> alerts d' = alerts d \<and> incident_alerts d' = incident_alerts d \<and>
     map (\<lambda>i. (inc_id i, inc_service i, inc_severity i)) (incidents d') =
     map (\<lambda>i. (inc_id i, inc_service i, inc_severity i)) (incidents d)"

lemma same_groups_refl [simp]: "same_groups d d"
  by (simp add: same_groups_def)

lemma same_groups_trans: "same_groups a b \<Longrightarrow> same_groups b c \<Longrightarrow> same_groups a c"
  by (simp add: same_groups_def)

lemma same_groups_core:
  assumes "same_groups d d'" "i' \<in> set (incidents d')"
  obtains i where "i \<in> set (incidents d)" "inc_id i = inc_id i'" "inc_service i = inc_service i'"
    "inc_severity i = inc_severity i'"
proof -
  let ?f = "\<lambda>i. (inc_id i, inc_service i, inc_severity i)"
  have "?f i' \<in> set (map ?f (incidents d'))" using assms(2) by simp
  then have "?f i' \<in> set (map ?f (incidents d))" using assms(1) unfolding same_groups_def by metis
  then obtain i where "i \<in> set (incidents d)" "?f i = ?f i'" by auto
  then show thesis using that by auto
qed

lemma same_groups_sym: "same_groups d d' \<Longrightarrow> same_groups d' d"
  by (simp add: same_groups_def)

lemma same_groups_linked:
  assumes "same_groups d d'" "linked d' i' a"
  shows "\<exists>i. linked d i a \<and> inc_id i = inc_id i' \<and> inc_service i = inc_service i' \<and> inc_severity i = inc_severity i'"
proof -
  have "i' \<in> set (incidents d')" using assms(2) by (simp add: linked_def)
  then obtain i where "i \<in> set (incidents d)" "inc_id i = inc_id i'" "inc_service i = inc_service i'"
    "inc_severity i = inc_severity i'" using same_groups_core [OF assms(1)] by blast
  then show ?thesis using assms unfolding linked_def same_groups_def by auto
qed

lemma grouping_ok_same:
  assumes "same_groups d d'" "grouping_ok d"
  shows "grouping_ok d'"
proof -
  have g: "distinct (map ia_alert (incident_alerts d))" "keys ia_alert (incident_alerts d) = keys al_id (alerts d)"
    "\<And>j b. linked d j b \<Longrightarrow> al_service b = inc_service j \<and> al_severity b \<le> inc_severity j"
    "\<And>j b c. linked d j b \<Longrightarrow> linked d j c \<Longrightarrow> al_type b = al_type c"
    "\<And>j. j \<in> set (incidents d) \<Longrightarrow> \<exists>b. linked d j b \<and> al_severity b = inc_severity j"
    using assms(2) unfolding grouping_ok_def by blast+
  have "al_service a = inc_service i' \<and> al_severity a \<le> inc_severity i'" if l: "linked d' i' a" for i' a
    using same_groups_linked [OF assms(1) l] g(3) by metis
  moreover have "al_type a = al_type b" if l: "linked d' i' a" "linked d' i' b" for i' a b
  proof -
    obtain i where i: "linked d i a" "inc_id i = inc_id i'" using same_groups_linked [OF assms(1) l(1)] by blast
    have "linked d i b" using l(2) i assms(1) by (simp add: linked_def same_groups_def)
    then show ?thesis using g(4) i(1) by blast
  qed
  moreover have "\<exists>a. linked d' i' a \<and> al_severity a = inc_severity i'" if m: "i' \<in> set (incidents d')" for i'
  proof -
    obtain i where i: "i \<in> set (incidents d)" "inc_id i = inc_id i'" "inc_severity i = inc_severity i'"
      using same_groups_core [OF assms(1) m] by metis
    obtain a where a: "linked d i a" "al_severity a = inc_severity i" using g(5) [OF i(1)] by blast
    have "linked d' i' a" using a(1) i m assms(1) by (simp add: linked_def same_groups_def)
    then show ?thesis using a(2) i(3) by auto
  qed
  moreover have "distinct (map ia_alert (incident_alerts d'))"
    "keys ia_alert (incident_alerts d') = keys al_id (alerts d')"
    using g(1,2) assms(1) by (simp_all add: same_groups_def)
  ultimately show ?thesis unfolding grouping_ok_def by blast
qed

lemma map_core_row_set:
  assumes "distinct (map inc_id t)" "row_get inc_id (inc_id r) t = Some i"
    "inc_service r = inc_service i" "inc_severity r = inc_severity i"
  shows "map (\<lambda>i. (inc_id i, inc_service i, inc_severity i)) (row_set inc_id r t) =
    map (\<lambda>i. (inc_id i, inc_service i, inc_severity i)) t"
proof -
  have "q = i" if "q \<in> set t" "inc_id q = inc_id r" for q
    using row_get_unique [OF assms(1) that(1)] that(2) assms(2) by simp
  then show ?thesis using assms(3,4) by (auto simp: row_set_def)
qed

lemma same_groups_set_incident:
  assumes "world_ok w" "get_incident w (inc_id r) = Some i" "inc_service r = inc_service i" "inc_severity r = inc_severity i"
  shows "same_groups (work w) (work (set_incident r w))"
  using map_core_row_set [OF _ assms(2-4)] world_okD [OF assms(1)]
  by (simp add: same_groups_def set_incident_def with_work_def db_ok_def incidents_ok_def)

lemma runs_past_mono: "runs_past n t \<Longrightarrow> n \<le> m \<Longrightarrow> runs_past m t"
  by (fastforce simp: runs_past_def)

text \<open>
  The frame rule: a step that keeps \<open>approvals_inv\<close> and neither regroups alerts nor starts runs
  in the future keeps the invariant.
\<close>

lemma system_inv_frame:
  assumes "system_inv py w" "approvals_inv py w'" "now_of w \<le> now_of w'"
    "same_groups (work w) (work w')" "saved w' = saved w \<or> saved w' = work w'"
    "runs_past (now_of w') (runs (work w'))"
  shows "system_inv py w'"
  using assms grouping_ok_same [OF assms(4)] runs_past_mono [OF _ assms(3)] unfolding system_inv_def by metis

subsection \<open>The elementary steps\<close>

lemma system_inv_commit [ok_intros]: "system_inv py w \<Longrightarrow> system_inv py (commit w)"
  using approvals_inv_commit by (auto simp: system_inv_def commit_def now_of_def)

lemma system_inv_rollback [ok_intros]: "system_inv py w \<Longrightarrow> system_inv py (rollback w)"
  using approvals_inv_rollback by (auto simp: system_inv_def rollback_def now_of_def)

lemma system_inv_utc_now: "utc_now w = (t, w1) \<Longrightarrow> system_inv py w \<Longrightarrow> system_inv py w1 \<and> t = now_of w \<and> t \<le> now_of w1"
proof -
  assume u: "utc_now w = (t, w1)" and i: "system_inv py w"
  note k = utc_now_tick [OF u system_invD(3) [OF i]]
  have d: "work w1 = work w" "saved w1 = saved w" by (simp_all add: k(3))
  have "system_inv py w1"
  proof (rule system_inv_frame [OF i approvals_inv_utc_now [OF u system_invD(1) [OF i]]])
    show "now_of w \<le> now_of w1" using k(1,2) by simp
    then show "runs_past (now_of w1) (runs (work w1))"
      using i runs_past_mono by (auto simp: d system_inv_def)
  qed (simp_all add: d)
  then show ?thesis using k by simp
qed

lemma system_inv_event [ok_intros]:
  assumes "system_inv py w" "i \<in> keys inc_id (incidents (work w))"
  shows "system_inv py (add_event i ty m md w)"
  by (rule system_inv_frame [OF assms(1) approvals_inv_event [OF system_invD(1) [OF assms(1)] assms(2)]])
    (use assms(1) in \<open>simp_all add: add_event_def new_uuid_def with_work_def now_of_def same_groups_def system_inv_def\<close>)

lemma system_inv_set_incident:
  assumes "system_inv py w" "get_incident w (inc_id r) = Some i" "inc_service r = inc_service i"
    "inc_severity r = inc_severity i"
  shows "system_inv py (set_incident r w)"
proof (rule system_inv_frame [OF assms(1)])
  note d = system_invD [OF assms(1)]
  show "approvals_inv py (set_incident r w)"
    using approvals_inv_set_incident [OF d(1)] get_incident_service(3) [OF assms(2) d(3)] assms(3) by simp
  show "same_groups (work w) (work (set_incident r w))" by (rule same_groups_set_incident [OF d(3) assms(2-)])
qed (use assms(1) in \<open>simp_all add: set_incident_def with_work_def now_of_def system_inv_def\<close>)

lemma system_inv_set_run:
  assumes "system_inv py w" "get_run w (run_id r) = Some q" "run_incident r = run_incident q"
    "0 \<le> run_input_tokens r" "0 \<le> run_output_tokens r"
    "case run_finished_at r of None \<Rightarrow> True | Some f \<Rightarrow> (case run_started_at r of None \<Rightarrow> False | Some s \<Rightarrow> s \<le> f)"
    "\<And>s. run_started_at r = Some s \<Longrightarrow> s \<le> now_of w"
  shows "system_inv py (set_run r w)"
proof (rule system_inv_frame [OF assms(1)])
  note d = system_invD [OF assms(1)]
  have "run_incident q \<in> keys inc_id (incidents (work w))"
    using d(4) row_get_SomeD [OF assms(2)] by (auto simp: db_ok_def runs_ok_def run_ok_def)
  then have "world_ok (set_run r w)"
    using set_run_ok [OF d(3) assms(2)] assms(3-6) by (simp add: run_ok_def)
  then have "records_ok (set_run r w)"
    using d(2) by (simp add: records_ok_def set_run_def with_work_def trail_ok_def)
  then show "approvals_inv py (set_run r w)"
    by (rule approvals_inv_step [OF d(1)]) (simp_all add: set_run_def with_work_def now_of_def)
  show "runs_past (now_of (set_run r w)) (runs (work (set_run r w)))"
    using assms(1,7) by (auto simp: system_inv_def runs_past_def set_run_def with_work_def now_of_def set_row_set)
qed (simp_all add: set_run_def with_work_def now_of_def same_groups_def)

subsection \<open>The records\<close>

lemma system_inv_record:
  assumes "system_inv py w" "records_ok w'" "same_outside w w'"
    "alerts (work w') = alerts (work w)" "incident_alerts (work w') = incident_alerts (work w)"
    "incidents (work w') = incidents (work w)" "approvals (work w') = approvals (work w)"
    "set (recommendations (work w)) \<subseteq> set (recommendations (work w'))"
    "\<And>r s. r \<in> set (runs (work w')) - set (runs (work w)) \<Longrightarrow> run_started_at r = None"
  shows "system_inv py w'"
proof (rule system_inv_frame [OF assms(1)])
  have n: "now_of w' = now_of w" using assms(3) by (simp add: same_outside_def now_of_def)
  then show "now_of w \<le> now_of w'" by simp
  show "approvals_inv py w'"
    by (rule approvals_inv_step [OF system_invD(1) [OF assms(1)] assms(2)])
      (use assms n in \<open>simp_all add: same_outside_def\<close>)
  show "runs_past (now_of w') (runs (work w'))"
    unfolding runs_past_def
  proof (intro ballI allI impI)
    fix r s assume r: "r \<in> set (runs (work w'))" "run_started_at r = Some s"
    then have "r \<in> set (runs (work w))" using assms(9) [of r] by fastforce
    then show "s \<le> now_of w'" using assms(1) r(2) by (simp add: n system_inv_def runs_past_def)
  qed
qed (use assms in \<open>simp_all add: same_groups_def same_outside_def\<close>)

lemma system_inv_create_run:
  assumes "create_agent_run py i p w = (out, w')" "system_inv py w"
  shows "system_inv py w'"
proof (cases out)
  case (Inl x)
  then show ?thesis using record_error(1) assms by blast
next
  case (Inr run)
  note e = create_agent_run_effect [OF assms(1) [unfolded Inr] system_invD(2) [OF assms(2)]]
  have t: "alerts (work w') = alerts (work w)" "incident_alerts (work w') = incident_alerts (work w)"
    "incidents (work w') = incidents (work w)" "approvals (work w') = approvals (work w)"
    "recommendations (work w') = recommendations (work w)" "runs (work w') = runs (work w) @ [run]"
    by (subst e(4), simp)+
  show ?thesis by (rule system_inv_record [OF assms(2) e(1,5) t(1-4)]) (auto simp: t e(3) run_row_def)
qed

lemma system_inv_tool_call:
  assumes "record_tool_call k p w = (out, w')" "system_inv py w" "tool_create_ok p"
  shows "system_inv py w'"
proof (cases out)
  case (Inl x)
  then show ?thesis using record_error(2) assms by blast
next
  case (Inr c)
  note e = record_tool_call_effect [OF assms(1) [unfolded Inr] system_invD(2) [OF assms(2)] assms(3)]
  show ?thesis by (rule system_inv_record [OF assms(2) e(1,5)]; simp add: e(4))
qed

lemma system_inv_evidence:
  assumes "record_evidence py k p w = (out, w')" "system_inv py w" "evidence_create_ok p"
  shows "system_inv py w'"
proof (cases out)
  case (Inl x)
  then show ?thesis using record_error(3) assms by blast
next
  case (Inr v)
  note e = record_evidence_effect [OF assms(1) [unfolded Inr] system_invD(2) [OF assms(2)] assms(3)]
  have t: "alerts (work w') = alerts (work w)" "incident_alerts (work w') = incident_alerts (work w)"
    "incidents (work w') = incidents (work w)" "approvals (work w') = approvals (work w)"
    "recommendations (work w') = recommendations (work w)" "runs (work w') = runs (work w)"
    by (subst e(4), simp)+
  show ?thesis by (rule system_inv_record [OF assms(2) e(1,5) t(1-4)]) (auto simp: t)
qed

lemma system_inv_hypothesis:
  assumes "record_hypothesis k p w = (out, w')" "system_inv py w" "hypothesis_create_ok p"
  shows "system_inv py w'"
proof (cases out)
  case (Inl x)
  then show ?thesis using record_error(4) assms by blast
next
  case (Inr h)
  note e = record_hypothesis_effect [OF assms(1) [unfolded Inr] system_invD(2) [OF assms(2)] assms(3)]
  show ?thesis by (rule system_inv_record [OF assms(2) e(1,6)]; simp add: e(5))
qed

lemma system_inv_recommendation:
  assumes "record_recommendation k p w = (out, w')" "system_inv py w" "recommendation_create_ok p"
  shows "system_inv py w'"
proof (cases out)
  case (Inl x)
  then show ?thesis using record_error(5) assms by blast
next
  case (Inr r)
  note e = record_recommendation_effect [OF assms(1) [unfolded Inr] system_invD(2) [OF assms(2)] assms(3)]
  show ?thesis by (rule system_inv_record [OF assms(2) e(1,6)]) (auto simp: e(5))
qed

subsection \<open>Ingestion, requests and decisions\<close>

lemma approvals_inv_investigations:
  assumes "approvals_inv py w" "records_ok w'" "now_of w' = now_of w"
    "same_investigations (work w) (work w') \<or> work w' = saved w" "saved w' = saved w \<or> saved w' = work w'"
  shows "approvals_inv py w'"
proof -
  have g: "approval_good py n d' a" if "approval_good py n d a" "same_investigations d d'" for n d d' a
    using approval_good_mono [OF that(1), of n d'] that(2) by (simp add: same_investigations_def)
  have w: "\<forall>a \<in> set (approvals (work w')). approval_good py (now_of w) (work w') a"
    using assms(1,4) g unfolding approvals_inv_def by (metis same_investigations_def)
  moreover have "\<forall>a \<in> set (approvals (saved w')). approval_good py (now_of w) (saved w') a"
    using assms(1,5) w unfolding approvals_inv_def by metis
  ultimately show ?thesis using assms(2,3) by (simp add: approvals_inv_def)
qed

lemma system_inv_ingest [ok_intros]:
  assumes "system_inv py w"
  shows "system_inv py (snd (ingest_alert py' p ws w))"
proof -
  note d = system_invD [OF assms]
  let ?w = "snd (ingest_alert py' p ws w)"
  note i = ingest_alert_investigations [OF d(5), of py' p ws]
  have n: "now_of ?w = now_of w" using ingest_alert_clock by (simp add: now_of_def)
  have g: "groups_ok ?w" by (rule ingest_alert_groups_ok [OF d(5)])
  have sw: "saved ?w = saved w \<or> saved ?w = work ?w" using i by auto
  have iw: "same_investigations (work w) (work ?w) \<or> work ?w = saved w" using i by auto
  have a: "approvals_inv py ?w"
    by (rule approvals_inv_investigations [OF d(1) ingest_alert_records [OF d(5,2)] n iw sw])
  have r: "runs_past (now_of w) (runs (work ?w))"
    using assms iw by (auto simp: system_inv_def same_investigations_def)
  then have "runs_past (now_of w) (runs (saved ?w))"
    using assms sw by (auto simp: system_inv_def)
  then show ?thesis using a g r n by (simp add: system_inv_def groups_ok_def)
qed

lemma same_groups_status:
  assumes "world_ok w" "get_incident w k = Some i" "work w = d"
  shows "same_groups d (work (set_incident (i\<lparr>inc_status := st, inc_resolved_at := t\<rparr>) w))"
    "same_groups d (work (set_incident (i\<lparr>inc_status := st\<rparr>) w))"
  using same_groups_set_incident [OF assms(1)] get_incident_service(1) [OF assms(2,1)] assms(2,3) by auto

lemma request_approval_frame:
  assumes "request_approval py il k w = (out, w')" "approvals_inv py w"
  shows "same_groups (work w) (work w')" "runs (work w') = runs (work w)" "now_of w \<le> now_of w'"
    "saved w' = saved w"
proof -
  note d = approvals_inv_parts [OF assms(2)]
  have "same_groups (work w) (work w') \<and> runs (work w') = runs (work w) \<and> now_of w \<le> now_of w' \<and> saved w' = saved w"
  proof (cases rule: request_approval_cases [OF assms, case_names missing refused existing new])
    case (new r run a i w2 md)
    let ?u = "snd (utc_now w)"
    have u: "approvals_inv py ?u" using approvals_inv_utc_now [OF _ assms(2)] by (metis prod.collapse)
    have w2: "approvals_inv py w2" unfolding new(7)
      by (rule add_approval_inv [OF u, of k]) (use new in \<open>simp_all add: utc_now_def\<close>)
    have "same_groups (work w2) (work (set_incident (i\<lparr>inc_status := NEEDS_APPROVAL\<rparr>) w2))"
      by (rule same_groups_status(2) [OF approvals_inv_parts(1) [OF w2] new(8) refl])
    moreover have "same_groups (work w) (work w2)" by (simp add: new(7) write_defs same_groups_def)
    ultimately have "same_groups (work w) (work w')"
      unfolding new(9) by (simp add: same_groups_def add_event_def new_uuid_def with_work_def)
    moreover have "now_of w \<le> now_of ?u" using utc_now_tick(1,2) [of w] d(1) by (metis prod.collapse)
    then have "now_of w \<le> now_of w'" by (simp add: new(7,9) write_defs now_of_def)
    ultimately show ?thesis by (simp add: new(7,9) write_defs)
  qed simp_all
  then show "same_groups (work w) (work w')" "runs (work w') = runs (work w)" "now_of w \<le> now_of w'"
    "saved w' = saved w" by auto
qed

lemma system_inv_request [ok_intros]:
  assumes "system_inv py w"
  shows "system_inv py (snd (request_approval py il k w))"
proof -
  obtain out w' where o: "request_approval py il k w = (out, w')" by fastforce
  note f = request_approval_frame [OF o system_invD(1) [OF assms]]
  have "approvals_inv py w'" using request_approval_inv [OF system_invD(1) [OF assms], of il k] by (simp add: o)
  then have "system_inv py w'"
    by (rule system_inv_frame [OF assms])
      (use f assms runs_past_mono in \<open>auto simp: system_inv_def\<close>)
  then show ?thesis by (simp add: o)
qed

lemma decide_approval_frame:
  assumes "decide_approval py k p w = (out, w')" "approvals_inv py w"
  shows "same_groups (work w) (work w')" "runs (work w') = runs (work w)" "now_of w \<le> now_of w'"
    "saved w' = saved w"
proof -
  note d = approvals_inv_parts [OF assms(2)]
  let ?u = "snd (utc_now w)"
  have n: "now_of w \<le> now_of ?u" using utc_now_tick(1,2) [of w] d(1) by (metis prod.collapse)
  have "same_groups (work w) (work w') \<and> runs (work w') = runs (work w) \<and> now_of w \<le> now_of w' \<and> saved w' = saved w"
  proof (cases rule: decide_approval_cases [OF assms, case_names refused decides])
    case (refused e)
    then show ?thesis using n by (auto simp: utc_now_def)
  next
    case (decides a run i md)
    let ?b = "decided a p (now_of w)" and ?st = "if ad_decision p = Appr_APPROVED then APPROVED else REJECTED"
    have "same_groups (work w) (work (set_incident (i\<lparr>inc_status := ?st\<rparr>) w))"
      by (rule same_groups_status(2) [OF d(1) decides(4) refl])
    then have "same_groups (work w) (work w')"
      unfolding decides(5) by (simp add: same_groups_def write_defs)
    moreover have "now_of w \<le> now_of w'" using n by (simp add: decides(5) write_defs now_of_def)
    ultimately show ?thesis by (simp add: decides(5) write_defs)
  qed
  then show "same_groups (work w) (work w')" "runs (work w') = runs (work w)" "now_of w \<le> now_of w'"
    "saved w' = saved w" by auto
qed

lemma system_inv_decide [ok_intros]:
  assumes "system_inv py w"
  shows "system_inv py (snd (decide_approval py k p w))"
proof -
  obtain out w' where o: "decide_approval py k p w = (out, w')" by fastforce
  note f = decide_approval_frame [OF o system_invD(1) [OF assms]]
  have "approvals_inv py w'" using decide_approval_inv [OF system_invD(1) [OF assms], of k p] by (simp add: o)
  then have "system_inv py w'"
    by (rule system_inv_frame [OF assms])
      (use f assms runs_past_mono in \<open>auto simp: system_inv_def\<close>)
  then show ?thesis by (simp add: o)
qed

subsection \<open>Services and deployments\<close>

lemma system_inv_service [ok_intros]:
  assumes "system_inv py w"
  shows "system_inv py (snd (get_or_create_service n e w))"
proof (cases "get_or_create_service n e w")
  case (Pair out w1)
  note d = system_invD [OF assms]
  show ?thesis
  proof (cases out)
    case (Inl x)
    then have "w1 = rollback w" using get_or_create_service_error Pair by blast
    then show ?thesis using system_inv_rollback [OF assms] Pair by simp
  next
    case (Inr s)
    note e = get_or_create_service_effect [OF Pair [unfolded Inr] d(3)]
    have t: "alerts (work w1) = alerts (work w)" "incident_alerts (work w1) = incident_alerts (work w)"
      "incidents (work w1) = incidents (work w)" "same_investigations (work w) (work w1)"
      by (subst e(6), simp add: same_investigations_def)+
    have n: "now_of w1 = now_of w"
      using Pair by (auto simp: get_or_create_service_def now_of_def write_defs split: option.splits if_splits)
    have "records_ok w1"
      using d(2) e(1,4) trail_ok_same [OF t(4)] by (simp add: records_ok_def)
    then have "approvals_inv py w1"
      by (rule approvals_inv_investigations [OF d(1)]) (use n t e(4) in auto)
    then have "system_inv py w1"
      by (rule system_inv_frame [OF assms])
        (use n t e(4) assms in \<open>simp_all add: same_groups_def same_investigations_def system_inv_def\<close>)
    then show ?thesis by (simp add: Pair)
  qed
qed

subsection \<open>The empty system\<close>

lemma start_system_inv: "system_inv py start_world"
proof -
  have "approvals_inv py start_world"
    using start_records_ok
    by (simp add: approvals_inv_def records_ok_def) (simp add: start_world_def empty_db_def)
  moreover have "grouping_ok (work start_world)" using start_groups_ok by (simp add: groups_ok_def)
  ultimately show ?thesis
    by (simp add: system_inv_def runs_past_def) (simp add: start_world_def empty_db_def)
qed

end
