(* ===== verification/Collection.thy ===== *)
theory Collection
  imports Connectors Invariant
begin

section \<open>Collection service: one bounded pass over the sources\<close>

text \<open>
  \<open>apps/api/app/services/collection_service.py\<close>. A pass opens a run and commits it, asks the
  three sources in turn and commits after each one, then closes the run. A source that answers
  leaves a successful tool call with its evidence; one that raises \<open>ConnectorError\<close> leaves a failed
  tool call; any other exception leaves the function with the run as last committed.
\<close>

record source_read =
  sr_source_type :: source_type
  sr_source_name :: str
  sr_status :: tool_status
  sr_tool_call :: uuid
  sr_evidence :: "uuid option"
  sr_error_code :: "str option"
  sr_retryable :: "bool option"
  sr_message :: "str option"

record collect_response =
  co_incident :: uuid
  co_run :: uuid
  co_status :: run_status
  co_range_start :: time
  co_range_end :: time
  co_sources :: "source_read list"
  co_evidence_ids :: "uuid list"

text \<open>A source as the loop has it: its names, the input to file when it fails, and the query.\<close>

record 'e query_spec =
  qs_type :: source_type
  qs_name :: str
  qs_input :: "(str \<times> json) list"
  qs_ask :: "'e source"

definition tool_name :: "source_type \<Rightarrow> str" where
  "tool_name t = ''query_'' @ source_type_value t @ ''s''"

definition success_call :: "source_type \<Rightarrow> connector_result \<Rightarrow> time \<Rightarrow> time \<Rightarrow> tool_create" where
  "success_call t r started finished =
     \<lparr>tc_tool_name = tool_name t, tc_status = Tool_SUCCEEDED, tc_input = cx_query_params r,
      tc_output = cx_raw_data r, tc_error = None, tc_started = started, tc_finished = finished\<rparr>"

definition failed_call :: "source_type \<Rightarrow> (str \<times> json) list \<Rightarrow> str \<Rightarrow> str \<Rightarrow> bool \<Rightarrow> time \<Rightarrow> time \<Rightarrow> tool_create" where
  "failed_call t input c m b started finished =
     \<lparr>tc_tool_name = tool_name t, tc_status = Tool_FAILED, tc_input = input,
      tc_output = [(''error_code'', JStr c), (''retryable'', JBool b)], tc_error = Some m,
      tc_started = started, tc_finished = finished\<rparr>"

definition result_evidence :: "uuid \<Rightarrow> connector_result \<Rightarrow> evidence_create" where
  "result_evidence k r = \<lparr>ec_tool_call = Some k, ec_source_type = cx_source_type r,
     ec_source_name = cx_source_name r, ec_query = cx_query r, ec_query_params = cx_query_params r,
     ec_summary = cx_summary r, ec_raw_data = cx_raw_data r, ec_range_start = Some (cx_range_start r),
     ec_range_end = Some (cx_range_end r), ec_collected = cx_collected r\<rparr>"

subsection \<open>One source\<close>

definition file_success ::
    "pylib \<Rightarrow> uuid \<Rightarrow> source_type \<Rightarrow> connector_result \<Rightarrow> time \<Rightarrow> (world, source_read \<times> uuid option) op" where
  "file_success py run t r started w =
     (case utc_now w of (finished, w1) \<Rightarrow>
        if \<not> tool_create_ok (success_call t r started finished) then (Inl ValidationErr, w1)
        else bind (record_tool_call run (success_call t r started finished) w1) (\<lambda>c w2.
          if \<not> evidence_create_ok (result_evidence (call_id c) r) then (Inl ValidationErr, w2)
          else bind (record_evidence py run (result_evidence (call_id c) r) w2) (\<lambda>ev w3.
            (Inr (\<lparr>sr_source_type = cx_source_type r, sr_source_name = cx_source_name r,
               sr_status = Tool_SUCCEEDED, sr_tool_call = call_id c, sr_evidence = Some (evd_id ev),
               sr_error_code = None, sr_retryable = None, sr_message = Some (cx_summary r)\<rparr>,
             Some (evd_id ev)), commit w3))))"

definition file_failure ::
    "uuid \<Rightarrow> source_type \<Rightarrow> str \<Rightarrow> (str \<times> json) list \<Rightarrow> str \<Rightarrow> str \<Rightarrow> bool \<Rightarrow> time \<Rightarrow>
     (world, source_read \<times> uuid option) op" where
  "file_failure run t name input c m b started w =
     (case utc_now (rollback w) of (finished, w1) \<Rightarrow>
        if \<not> tool_create_ok (failed_call t input c m b started finished) then (Inl ValidationErr, w1)
        else bind (record_tool_call run (failed_call t input c m b started finished) w1) (\<lambda>call w2.
          (Inr (\<lparr>sr_source_type = t, sr_source_name = name, sr_status = Tool_FAILED,
             sr_tool_call = call_id call, sr_evidence = None, sr_error_code = Some c,
             sr_retryable = Some b, sr_message = Some m\<rparr>, None), commit w2)))"

definition collect_source ::
    "pylib \<Rightarrow> uuid \<Rightarrow> 'e query_spec \<Rightarrow> (world \<times> 'e, source_read \<times> uuid option) op" where
  "collect_source py run q = (\<lambda>(w, e).
     case utc_now w of (started, w1) \<Rightarrow>
     (case qs_ask q (w1, e) of
        (Inr r, w2, e2) \<Rightarrow>
          (case file_success py run (qs_type q) r started w2 of (out, w3) \<Rightarrow> (out, w3, e2))
      | (Inl (ConnectorError c m b), w2, e2) \<Rightarrow>
          (case file_failure run (qs_type q) (qs_name q) (qs_input q) c m b started w2 of
             (out, w3) \<Rightarrow> (out, w3, e2))
      | (Inl x, w2, e2) \<Rightarrow> (Inl x, w2, e2)))"

fun collect_sources ::
    "pylib \<Rightarrow> uuid \<Rightarrow> 'e query_spec list \<Rightarrow> (world \<times> 'e, source_read list \<times> uuid list) op" where
  "collect_sources py run [] s = (Inr ([], []), s)"
| "collect_sources py run (q # qs) s =
     bind (collect_source py run q s) (\<lambda>(sr, ev) s1.
     bind (collect_sources py run qs s1) (\<lambda>(srs, evs) s2.
       (Inr (sr # srs, (case ev of None \<Rightarrow> [] | Some k \<Rightarrow> [k]) @ evs), s2)))"

subsection \<open>The pass\<close>

text \<open>
  \<open>end_at\<close> is taken as a UTC instant (another offset would show in the texts of the failed inputs).
  Reaching back from it overflows in the first day of the year 1, before a run is opened.
\<close>

definition collection_queries ::
    "pylib \<Rightarrow> 'e http \<Rightarrow> connector \<Rightarrow> connector \<Rightarrow> service \<Rightarrow> time \<Rightarrow> time \<Rightarrow> collect_request \<Rightarrow>
     'e query_spec list" where
  "collection_queries py http prom loki service start until request =
     (let metric_query = checkout_error_rate_query (sv_name service);
          log_query = checkout_log_query (sv_name service);
          from_text = JStr (iso_text py (utc start)); until_text = JStr (iso_text py (utc until))
      in [\<lparr>qs_type = METRIC, qs_name = ''prometheus'',
            qs_input = [(''query'', JStr metric_query), (''start'', from_text), (''end'', until_text),
              (''step'', JInt (cr_step_seconds request))],
            qs_ask = prometheus_query_range py http prom metric_query (utc start) (utc until)
              (cr_step_seconds request)\<rparr>,
          \<lparr>qs_type = LOG, qs_name = ''loki'',
            qs_input = [(''query'', JStr log_query), (''start'', from_text), (''end'', until_text),
              (''limit'', JInt (cr_log_limit request))],
            qs_ask = loki_query_range py http loki log_query (utc start) (utc until) (cr_log_limit request)\<rparr>,
          \<lparr>qs_type = DEPLOYMENT, qs_name = ''postgresql'',
            qs_input = [(''service_id'', JStr (uuid_text py (sv_id service))), (''start'', from_text),
              (''end'', until_text)],
            qs_ask = deployment_query_range py (sv_id service) (utc start) (utc until)\<rparr>])"

text \<open>Opening the run: it is RUNNING and committed before the first source is asked.\<close>

definition start_collection ::
    "pylib \<Rightarrow> settings \<Rightarrow> uuid \<Rightarrow> incident \<Rightarrow> (world, agent_run) op" where
  "start_collection py st incident_id incident w =
     (let p = \<lparr>rc_prompt_version = prompt_version st, rc_provider = Some ''connectors'', rc_model_name = None\<rparr> in
      if \<not> run_create_ok p then (Inl ValidationErr, w)
      else bind (create_agent_run py incident_id p w) (\<lambda>run w1.
        case utc_now w1 of (now, w2) \<Rightarrow>
          let run' = run\<lparr>run_status := Run_RUNNING, run_started_at := Some now\<rparr>;
              w3 = set_run run' w2;
              w4 = (if inc_status incident = NEW then set_incident (incident\<lparr>inc_status := COLLECTING_EVIDENCE\<rparr>) w3
                    else w3)
          in (Inr run', commit w4)))"

definition finish_collection :: "uuid \<Rightarrow> uuid list \<Rightarrow> (world, agent_run) op" where
  "finish_collection run evidence_ids w =
     (case get_run w run of
        None \<Rightarrow> (Inl (CollectionNotFoundError ''Collection run disappeared''), w)
      | Some completed \<Rightarrow>
          (case utc_now w of (now, w1) \<Rightarrow>
             let completed' = completed\<lparr>run_status := (if evidence_ids \<noteq> [] then Run_COMPLETED else Run_INSUFFICIENT_EVIDENCE),
                   run_finished_at := Some now,
                   run_error_message := (if evidence_ids = [] then Some ''No connector returned evidence.''
                                         else run_error_message completed)\<rparr>
             in (Inr completed', commit (set_run completed' w1))))"

definition collect_incident_evidence ::
    "pylib \<Rightarrow> 'e http \<Rightarrow> settings \<Rightarrow> uuid \<Rightarrow> collect_request \<Rightarrow> (world \<times> 'e, collect_response) op" where
  "collect_incident_evidence py http st incident_id request = (\<lambda>(w, e).
     case get_incident w incident_id of
       None \<Rightarrow> (Inl (CollectionNotFoundError ''Incident not found''), w, e)
     | Some incident \<Rightarrow>
     (case get_service w (inc_service incident) of
        None \<Rightarrow> (Inl (CollectionNotFoundError ''Incident service not found''), w, e)
      | Some service \<Rightarrow>
          let (until, w0) = (case cr_end_at request of Some t \<Rightarrow> (t, w) | None \<Rightarrow> utc_now w) in
          (case shift (utc until) (- seconds (cr_lookback_seconds request)) of
             Inl x \<Rightarrow> (Inl x, w0, e)
           | Inr earliest \<Rightarrow>
          let start = max (as_utc (inc_started_at incident)) earliest
          in (case start_collection py st incident_id incident w0 of
                (Inl x, w1) \<Rightarrow> (Inl x, w1, e)
              | (Inr run, w1) \<Rightarrow>
                 (case new_connector (prometheus_url st) (connector_timeout_seconds st) (connector_max_retries st) of
                    Inl x \<Rightarrow> (Inl x, w1, e)
                  | Inr prom \<Rightarrow>
                 (case new_connector (loki_url st) (connector_timeout_seconds st) (connector_max_retries st) of
                    Inl x \<Rightarrow> (Inl x, w1, e)
                  | Inr loki \<Rightarrow>
                      bind (collect_sources py (run_id run)
                          (collection_queries py http prom loki service start until request) (w1, e))
                        (\<lambda>(source_results, evidence_ids) (w2, e2).
                          case finish_collection (run_id run) evidence_ids w2 of
                            (Inl x, w3) \<Rightarrow> (Inl x, w3, e2)
                          | (Inr completed, w3) \<Rightarrow>
                              (Inr \<lparr>co_incident = incident_id, co_run = run_id completed,
                                 co_status = run_status completed, co_range_start = start,
                                 co_range_end = until, co_sources = source_results,
                                 co_evidence_ids = evidence_ids\<rparr>, w3, e2))))))))"

subsection \<open>What a filed source leaves behind\<close>

definition filed :: "db \<Rightarrow> uuid \<Rightarrow> source_read \<Rightarrow> uuid option \<Rightarrow> bool" where
  "filed d run sr ev \<longleftrightarrow>
     (\<exists>c \<in> set (tool_calls d). call_id c = sr_tool_call sr \<and> call_run c = run \<and> call_status c = sr_status sr) \<and>
     sr_evidence sr = ev \<and>
     (case ev of None \<Rightarrow> sr_status sr = Tool_FAILED \<and> sr_error_code sr \<noteq> None
      | Some k \<Rightarrow> sr_status sr = Tool_SUCCEEDED \<and>
          (\<exists>e \<in> set (evidences d). evd_id e = k \<and> evd_run e = run \<and>
             evd_tool_call e = Some (sr_tool_call sr) \<and> evd_source_type e = sr_source_type sr))"

lemma filed_mono:
  "filed d run sr ev \<Longrightarrow> set (tool_calls d) \<subseteq> set (tool_calls d') \<Longrightarrow> set (evidences d) \<subseteq> set (evidences d') \<Longrightarrow>
   filed d' run sr ev"
  by (auto simp: filed_def split: option.splits)

text \<open>The growth of the trail during a pass: nothing is lost, the runs and services stay.\<close>

definition trail_grows :: "db \<Rightarrow> db \<Rightarrow> bool" where
  "trail_grows d d' \<longleftrightarrow> set (tool_calls d) \<subseteq> set (tool_calls d') \<and> set (evidences d) \<subseteq> set (evidences d') \<and>
     runs d' = runs d \<and> services d' = services d \<and> incidents d' = incidents d"

lemma trail_grows_refl [simp]: "trail_grows d d"
  by (simp add: trail_grows_def)

lemma trail_grows_trans: "trail_grows a b \<Longrightarrow> trail_grows b c \<Longrightarrow> trail_grows a c"
  by (auto simp: trail_grows_def)

lemma system_inv_ticked:
  assumes "ticked w w'" "system_inv py w"
  shows "system_inv py w' \<and> now_of w \<le> now_of w'"
proof -
  obtain n where w': "w' = w\<lparr>clock_reads := clock_reads w + n\<rparr>" using assms(1) by (auto simp: ticked_def)
  note d = system_invD [OF assms(2)]
  have m: "now_of w \<le> now_of w'" using d(3) by (simp add: w' now_of_def world_ok_def monoD)
  have "records_ok w'" using d(2) by (simp add: w' records_ok_def world_ok_def ids_ok_def)
  then have "approvals_inv py w'"
    by (rule approvals_inv_step [OF d(1)]) (use m in \<open>simp_all add: w'\<close>)
  then have "system_inv py w'"
    by (rule system_inv_frame [OF assms(2)])
      (use m assms(2) runs_past_mono in \<open>auto simp: w' system_inv_def\<close>)
  then show ?thesis using m by simp
qed

lemma tool_name_ok: "len_between (Suc 0) 128 (tool_name t)" "not_blank (tool_name t)"
  by (cases t; simp add: tool_name_def len_between_def not_blank_start is_space_def)+

lemma success_call_ok:
  "result_ready r \<Longrightarrow> started \<le> finished \<Longrightarrow> tool_create_ok (success_call t r started finished)"
  by (simp add: tool_create_ok_def success_call_def tool_name_ok opt_ok_def result_ready_def connector_result_ok_def)

lemma not_blank_nonempty: "not_blank m \<Longrightarrow> \<exists>c s. m = c # s"
  by (cases m) (simp_all add: not_blank_def strip_def strip_by_def)

lemma failed_call_ok:
  assumes "not_blank m" "obj_finite input" "started \<le> finished"
  shows "tool_create_ok (failed_call t input c m b started finished)"
  using assms not_blank_nonempty [OF assms(1)]
  by (auto simp: tool_create_ok_def failed_call_def tool_name_ok opt_ok_def obj_finite_def)

lemma result_evidence_ok: "result_ready r \<Longrightarrow> evidence_create_ok (result_evidence k r)"
  by (auto simp: result_ready_def connector_result_ok_def evidence_create_ok_def time_range_ok_def result_evidence_def)

lemma require_run: "k \<in> keys run_id (runs (work w)) \<Longrightarrow> \<exists>run. require_agent_run k w = (Inr run, w)"
  using row_get_None_iff [of run_id k "runs (work w)"] by (auto simp: require_agent_run_def split: option.splits)

lemma record_tool_call_total:
  assumes "k \<in> keys run_id (runs (work w))"
  obtains c w' where "record_tool_call k p w = (Inr c, w')"
  using require_run [OF assms] that
  by (cases "add_tool_call (tool_call_row k p) w") (auto simp: record_tool_call_def)

lemma file_success_effect:
  assumes "system_inv py w" "result_ready r" "started \<le> now_of w" "run \<in> keys run_id (runs (work w))"
  shows "\<exists>sr k w'. file_success py run t r started w = (Inr (sr, Some k), w') \<and> system_inv py w' \<and>
    saved w' = work w' \<and> filed (work w') run sr (Some k) \<and> sr_source_type sr = cx_source_type r \<and>
    trail_grows (work w) (work w') \<and> now_of w \<le> now_of w'"
proof -
  obtain w1 where u: "utc_now w = (now_of w, w1)" by (simp add: utc_now_def now_of_def)
  have i1: "system_inv py w1" "now_of w \<le> now_of w1" "work w1 = work w"
    using system_inv_utc_now [OF u assms(1)] u by (auto simp: utc_now_def)
  let ?p = "success_call t r started (now_of w)"
  have p: "tool_create_ok ?p" using success_call_ok [OF assms(2,3)] .
  obtain c w2 where c: "record_tool_call run ?p w1 = (Inr c, w2)"
    using record_tool_call_total assms(4) i1(3) by metis
  note ce = record_tool_call_effect [OF c system_invD(2) [OF i1(1)] p]
  have i2: "system_inv py w2" by (rule system_inv_tool_call [OF c i1(1) p])
  let ?q = "result_evidence (call_id c) r"
  have q: "evidence_create_ok ?q" by (rule result_evidence_ok [OF assms(2)])
  have cr: "call_run c = run" "call_status c = Tool_SUCCEEDED" "c \<in> set (tool_calls (work w2))"
    by (simp_all add: ce(3,4) tool_call_row_def success_call_def)
  have dist: "distinct (map call_id (tool_calls (work w2)))"
    using system_invD(4) [OF i2] by (simp add: db_ok_def calls_ok_def)
  have us: "tool_call_usable w2 run (ec_tool_call ?q)"
    using row_get_unique [OF dist cr(3)] cr by (simp add: tool_call_usable_def result_evidence_def)
  have "run \<in> keys run_id (runs (work w2))" using assms(4) by (simp add: ce(4) i1(3))
  then obtain x where "require_agent_run run w2 = (Inr x, w2)" using require_run by blast
  then obtain ev w3 where v: "record_evidence py run ?q w2 = (Inr ev, w3)"
    using us that
    by (cases "add_evidence (evidence_row (run_incident x) run ?q (db_now w2)) w2") (simp add: record_evidence_def)
  note ve = record_evidence_effect [OF v system_invD(2) [OF i2] q]
  have i3: "system_inv py w3" by (rule system_inv_evidence [OF v i2 q])
  obtain x :: agent_run where ev: "ev = evidence_row (run_incident x) run ?q (db_now w2) (uuids w2 (uuid_count w2))"
    using ve(2) by blast
  have e3: "evidences (work w3) = evidences (work w2) @ [ev]" "tool_calls (work w3) = tool_calls (work w2)"
    "runs (work w3) = runs (work w2)" "services (work w3) = services (work w2)"
    "incidents (work w3) = incidents (work w2)" by (subst ve(4), simp)+
  let ?sr = "\<lparr>sr_source_type = cx_source_type r, sr_source_name = cx_source_name r,
       sr_status = Tool_SUCCEEDED, sr_tool_call = call_id c, sr_evidence = Some (evd_id ev),
       sr_error_code = None, sr_retryable = None, sr_message = Some (cx_summary r)\<rparr>"
  have f: "file_success py run t r started w = (Inr (?sr, Some (evd_id ev)), commit w3)"
    by (simp add: file_success_def u p c q v)
  have "filed (work (commit w3)) run ?sr (Some (evd_id ev))"
    using cr by (auto simp: filed_def commit_def e3 ev evidence_row_def result_evidence_def)
  moreover have "trail_grows (work w) (work (commit w3))"
    by (auto simp: trail_grows_def commit_def e3 ce(4) i1(3))
  moreover have "now_of w \<le> now_of (commit w3)"
    using i1(2) ce(5) ve(5) by (simp add: commit_def now_of_def same_outside_def)
  moreover have "system_inv py (commit w3)" "saved (commit w3) = work (commit w3)"
    using system_inv_commit [OF i3] by (simp_all add: commit_def)
  ultimately show ?thesis using f by fastforce
qed

lemma file_failure_effect:
  assumes "system_inv py w" "saved w = work w" "not_blank m" "obj_finite input" "started \<le> now_of w"
    "run \<in> keys run_id (runs (work w))"
  shows "\<exists>sr w'. file_failure run t name input c m b started w = (Inr (sr, None), w') \<and> system_inv py w' \<and>
    saved w' = work w' \<and> filed (work w') run sr None \<and> sr_source_type sr = t \<and>
    trail_grows (work w) (work w') \<and> now_of w \<le> now_of w'"
proof -
  have r: "rollback w = w" using assms(2) by (simp add: rollback_def)
  obtain w1 where u: "utc_now w = (now_of w, w1)" by (simp add: utc_now_def now_of_def)
  have i1: "system_inv py w1" "now_of w \<le> now_of w1" "work w1 = work w"
    using system_inv_utc_now [OF u assms(1)] u by (auto simp: utc_now_def)
  let ?p = "failed_call t input c m b started (now_of w)"
  have p: "tool_create_ok ?p" using failed_call_ok [OF assms(3,4,5)] .
  obtain call w2 where c: "record_tool_call run ?p w1 = (Inr call, w2)"
    using record_tool_call_total assms(6) i1(3) by metis
  note ce = record_tool_call_effect [OF c system_invD(2) [OF i1(1)] p]
  have i2: "system_inv py w2" by (rule system_inv_tool_call [OF c i1(1) p])
  let ?sr = "\<lparr>sr_source_type = t, sr_source_name = name, sr_status = Tool_FAILED,
             sr_tool_call = call_id call, sr_evidence = None, sr_error_code = Some c,
             sr_retryable = Some b, sr_message = Some m\<rparr>"
  have f: "file_failure run t name input c m b started w = (Inr (?sr, None), commit w2)"
    by (simp add: file_failure_def r u p c)
  have "filed (work (commit w2)) run ?sr None"
    by (auto simp: filed_def commit_def ce(3,4) tool_call_row_def failed_call_def)
  moreover have "trail_grows (work w) (work (commit w2))"
    by (auto simp: trail_grows_def commit_def ce(4) i1(3))
  moreover have "now_of w \<le> now_of (commit w2)"
    using i1(2) ce(5) by (simp add: commit_def now_of_def same_outside_def)
  moreover have "system_inv py (commit w2)" "saved (commit w2) = work (commit w2)"
    using system_inv_commit [OF i2] by (simp_all add: commit_def)
  ultimately show ?thesis using f by fastforce
qed

text \<open>
  What is promised of one source, whichever it is: it is filed and committed, or an exception
  that is no connector error leaves the pass with nothing written.
\<close>

definition source_outcome ::
    "pylib \<Rightarrow> world \<Rightarrow> uuid \<Rightarrow> source_type \<Rightarrow> exn + source_read \<times> uuid option \<Rightarrow> world \<Rightarrow> bool" where
  "source_outcome py w run kind out w' \<longleftrightarrow> system_inv py w' \<and> saved w' = work w' \<and>
     trail_grows (work w) (work w') \<and> now_of w \<le> now_of w' \<and>
     (case out of
        Inl x \<Rightarrow> work w' = work w \<and> \<not> (\<exists>c m b. x = ConnectorError c m b)
      | Inr (sr, ev) \<Rightarrow> filed (work w') run sr ev \<and> sr_source_type sr = kind)"

context evidence_source begin

lemma collect_source_outcome:
  assumes "collect_source py run \<lparr>qs_type = kind, qs_name = n, qs_input = i, qs_ask = ask\<rparr> (w, e) = (out, w', e')"
    and "system_inv py w" "saved w = work w" "obj_finite i" "run \<in> keys run_id (runs (work w))"
  shows "source_outcome py w run kind out w'"
proof -
  obtain w1 where u: "utc_now w = (now_of w, w1)" by (simp add: utc_now_def now_of_def)
  have i1: "system_inv py w1" "now_of w \<le> now_of w1" "work w1 = work w" "saved w1 = saved w"
    using system_inv_utc_now [OF u assms(2)] u by (auto simp: utc_now_def)
  obtain a w2 e2 where q: "ask (w1, e) = (a, w2, e2)" by (metis prod.collapse)
  have i2: "system_inv py w2" "now_of w1 \<le> now_of w2" using system_inv_ticked [OF ask_ticks [OF q] i1(1)] by auto
  have d2: "work w2 = work w" "saved w2 = work w2" using ask_database [OF q] i1(3,4) assms(3) by auto
  have n: "now_of w \<le> now_of w2" using i1(2) i2(2) by simp
  have r: "run \<in> keys run_id (runs (work w2))" using assms(5) d2(1) by simp
  note c = assms(1) [unfolded collect_source_def prod.case u query_spec.simps q]
  show ?thesis
  proof (cases a)
    case (Inr res)
    obtain sr k w3 where f: "file_success py run kind res (now_of w) w2 = (Inr (sr, Some k), w3)" "system_inv py w3"
      "saved w3 = work w3" "filed (work w3) run sr (Some k)" "sr_source_type sr = cx_source_type res"
      "trail_grows (work w2) (work w3)" "now_of w2 \<le> now_of w3"
      using file_success_effect [OF i2(1) ask_ready [OF q [unfolded Inr]] n r] by blast
    have "out = Inr (sr, Some k)" "w' = w3" using c f(1) by (auto simp: Inr)
    then show ?thesis using f n d2 ask_kind [OF q [unfolded Inr]] by (simp add: source_outcome_def)
  next
    case (Inl x)
    show ?thesis
    proof (cases "\<exists>cc m b. x = ConnectorError cc m b")
      case True
      then obtain cc m b where x: "x = ConnectorError cc m b" by blast
      obtain sr w3 where f: "file_failure run kind n i cc m b (now_of w) w2 = (Inr (sr, None), w3)" "system_inv py w3"
        "saved w3 = work w3" "filed (work w3) run sr None" "sr_source_type sr = kind"
        "trail_grows (work w2) (work w3)" "now_of w2 \<le> now_of w3"
        using file_failure_effect [OF i2(1) d2(2) ask_message [OF q [unfolded Inl x]] assms(4) n r] by blast
      have "out = Inr (sr, None)" "w' = w3" using c f(1) by (auto simp: Inl x)
      then show ?thesis using f n d2 by (simp add: source_outcome_def)
    next
      case False
      then have "out = Inl x" "w' = w2" using c Inl by (auto split: exn.splits)
      then show ?thesis using False i2 d2 n by (simp add: source_outcome_def)
    qed
  qed
qed

end

subsection \<open>All sources\<close>

text \<open>The sources of a pass, each one a source in the sense of the contract.\<close>

definition good_queries :: "'e query_spec list \<Rightarrow> bool" where
  "good_queries qs \<longleftrightarrow> (\<forall>q \<in> set qs. evidence_source (qs_ask q) (qs_type q) \<and> obj_finite (qs_input q))"

definition all_filed :: "db \<Rightarrow> uuid \<Rightarrow> source_read list \<Rightarrow> uuid list \<Rightarrow> bool" where
  "all_filed d run srs evs \<longleftrightarrow> (\<forall>sr \<in> set srs. filed d run sr (sr_evidence sr)) \<and>
     evs = List.map_filter sr_evidence srs"

lemma all_filed_mono:
  "all_filed d run srs evs \<Longrightarrow> tool_calls d' = tool_calls d \<Longrightarrow> evidences d' = evidences d \<Longrightarrow> all_filed d' run srs evs"
  by (auto simp: all_filed_def intro: filed_mono)

lemma collect_sources_outcome:
  assumes "good_queries qs" "collect_sources py run qs (w, e) = (out, w', e')"
    and "system_inv py w" "saved w = work w" "run \<in> keys run_id (runs (work w))"
  shows "system_inv py w' \<and> saved w' = work w' \<and> trail_grows (work w) (work w') \<and> now_of w \<le> now_of w' \<and>
    (case out of
       Inl x \<Rightarrow> \<not> (\<exists>c m b. x = ConnectorError c m b)
     | Inr (srs, evs) \<Rightarrow> map sr_source_type srs = map qs_type qs \<and> all_filed (work w') run srs evs)"
  using assms
proof (induction qs arbitrary: w e out w' e')
  case Nil
  then show ?case by (auto simp: all_filed_def List.map_filter_def)
next
  case (Cons q qs)
  obtain o1 w1 e1 where c: "collect_source py run q (w, e) = (o1, w1, e1)" by (metis prod.collapse)
  have src: "evidence_source (qs_ask q) (qs_type q)" "obj_finite (qs_input q)" "good_queries qs"
    using Cons.prems(1) by (auto simp: good_queries_def)
  have o: "source_outcome py w run (qs_type q) o1 w1"
  proof (cases q)
    case (fields t n i a)
    then show ?thesis
      using evidence_source.collect_source_outcome [OF src(1), of py run n i w e o1 w1 e1] c Cons.prems(3-5) src(2)
      by simp
  qed
  show ?case
  proof (cases o1)
    case (Inl x)
    then have "out = Inl x" "w' = w1" using Cons.prems(2) c by auto
    then show ?thesis using o Inl by (auto simp: source_outcome_def)
  next
    case (Inr p)
    obtain sr ev where p: "p = (sr, ev)" by fastforce
    have o': "system_inv py w1" "saved w1 = work w1" "trail_grows (work w) (work w1)" "now_of w \<le> now_of w1"
      "filed (work w1) run sr ev" "sr_source_type sr = qs_type q"
      using o Inr p by (auto simp: source_outcome_def)
    obtain o2 w2 e2 where c2: "collect_sources py run qs (w1, e1) = (o2, w2, e2)" by (metis prod.collapse)
    have r1: "run \<in> keys run_id (runs (work w1))" using Cons.prems(5) o'(3) by (simp add: trail_grows_def)
    note ih = Cons.IH [OF src(3) c2 o'(1,2) r1]
    show ?thesis
    proof (cases o2)
      case (Inl x)
      then have "out = Inl x" "w' = w2" using Cons.prems(2) c c2 Inr p by auto
      then show ?thesis using ih Inl trail_grows_trans [OF o'(3)] o'(4) by auto
    next
      case (Inr p2)
      obtain srs evs where p2: "p2 = (srs, evs)" by fastforce
      have out: "out = Inr (sr # srs, (case ev of None \<Rightarrow> [] | Some k \<Rightarrow> [k]) @ evs)" "w' = w2"
        using Cons.prems(2) c c2 \<open>o1 = Inr p\<close> p Inr p2 by auto
      have g: "trail_grows (work w1) (work w2)" using ih by simp
      have "filed (work w2) run sr ev" using filed_mono [OF o'(5)] g by (simp add: trail_grows_def)
      moreover have "sr_evidence sr = ev" using o'(5) by (simp add: filed_def)
      ultimately show ?thesis
        using ih Inr p2 out o'(4,6) trail_grows_trans [OF o'(3) g]
        by (auto simp: all_filed_def List.map_filter_def split: option.splits)
    qed
  qed
qed

lemma collection_queries_good: "good_queries (collection_queries py http prom loki service start until request)"
  by (simp add: good_queries_def collection_queries_def Let_def prometheus.evidence_source_axioms
      loki.evidence_source_axioms deployment.evidence_source_axioms obj_finite_def)

subsection \<open>The whole pass\<close>

lemma run_of_new:
  assumes "world_ok w" "runs (work w) = rs @ [run]"
  shows "get_run w (run_id run) = Some run"
  using world_okD [OF assms(1)] assms(2) by (auto simp: db_ok_def runs_ok_def intro!: row_get_unique)

lemma start_collection_effect:
  assumes "start_collection py st k inc w = (out, w')" "system_inv py w" "get_incident w k = Some inc"
  shows "system_inv py w' \<and> now_of w \<le> now_of w' \<and> services (work w') = services (work w) \<and>
    (case out of
       Inl x \<Rightarrow> x = ValidationErr \<and> w' = w
     | Inr run \<Rightarrow> saved w' = work w' \<and> get_run w' (run_id run) = Some run \<and> run_incident run = k \<and>
         run_status run = Run_RUNNING \<and> run_finished_at run = None \<and> run_started_at run \<noteq> None)"
proof -
  let ?p = "\<lparr>rc_prompt_version = prompt_version st, rc_provider = Some ''connectors'', rc_model_name = None\<rparr>"
  show ?thesis
  proof (cases "run_create_ok ?p")
    case False
    then show ?thesis using assms by (auto simp: start_collection_def Let_def)
  next
    case True
    have "k \<in> keys inc_id (incidents (work w))" using assms(3) by (rule row_get_in_keys)
    then obtain run w1 where c: "create_agent_run py k ?p w = (Inr run, w1)"
      using record_error(1) [of py k ?p w] by (metis prod.collapse obj_sumE)
    note e = create_agent_run_effect [OF c system_invD(2) [OF assms(2)]]
    have i1: "system_inv py w1" by (rule system_inv_create_run [OF c assms(2)])
    obtain w2 where u: "utc_now w1 = (now_of w1, w2)" by (simp add: utc_now_def now_of_def)
    have i2: "system_inv py w2" "now_of w1 \<le> now_of w2" "work w2 = work w1"
      using system_inv_utc_now [OF u i1] u by (auto simp: utc_now_def)
    let ?run = "run\<lparr>run_status := Run_RUNNING, run_started_at := Some (now_of w1)\<rparr>"
    let ?w3 = "set_run ?run w2"
    let ?inc = "inc\<lparr>inc_status := COLLECTING_EVIDENCE\<rparr>"
    let ?w4 = "if inc_status inc = NEW then set_incident ?inc ?w3 else ?w3"
    have rs: "runs (work w2) = runs (work w) @ [run]" unfolding i2(3) by (subst e(4)) simp
    have g2: "get_run w2 (run_id run) = Some run" by (rule run_of_new [OF system_invD(3) [OF i2(1)] rs])
    have i3: "system_inv py ?w3"
      by (rule system_inv_set_run [OF i2(1), where q = run])
        (use g2 i2(2) in \<open>simp_all add: e(3) run_row_def\<close>)
    have inc: "get_incident ?w3 k = Some inc" "inc_id inc = k"
    proof -
      have "incidents (work w1) = incidents (work w)" by (subst e(4)) simp
      then show "get_incident ?w3 k = Some inc" using assms(3) by (simp add: set_run_def with_work_def i2(3))
      show "inc_id inc = k" using assms(3) by (auto dest: row_get_SomeD)
    qed
    have i4: "system_inv py ?w4"
      using i3 system_inv_set_incident [OF i3, of ?inc inc] inc by simp
    have out: "out = Inr ?run" "w' = commit ?w4"
      using assms(1) True by (simp_all add: start_collection_def Let_def c u)
    have rid: "run_id run \<in> keys run_id (runs (work w2))" using g2 by (rule row_get_in_keys)
    have g4: "get_run (commit ?w4) (run_id run) = Some ?run"
      using rid by (simp add: commit_def set_incident_def set_run_def with_work_def row_get_row_set)
    have sv: "services (work w1) = services (work w)" by (subst e(4)) simp
    have n: "now_of w \<le> now_of (commit ?w4)"
      using i2(2) e(5) by (simp add: now_of_def same_outside_def commit_def set_incident_def set_run_def with_work_def)
    show ?thesis
      using system_inv_commit [OF i4] out g4 n sv
      by (simp add: e(3) run_row_def i2(3) commit_def set_incident_def set_run_def with_work_def)
  qed
qed

lemma start_collection_total:
  assumes "run_create_ok \<lparr>rc_prompt_version = prompt_version st, rc_provider = Some ''connectors'', rc_model_name = None\<rparr>"
    "system_inv py w" "get_incident w k = Some inc"
  shows "\<exists>run w'. start_collection py st k inc w = (Inr run, w')"
proof -
  let ?p = "\<lparr>rc_prompt_version = prompt_version st, rc_provider = Some ''connectors'', rc_model_name = None\<rparr>"
  have "k \<in> keys inc_id (incidents (work w))" using assms(3) by (rule row_get_in_keys)
  then obtain run w1 where c: "create_agent_run py k ?p w = (Inr run, w1)"
    using record_error(1) [of py k ?p w] by (metis prod.collapse obj_sumE)
  then show ?thesis
    using assms(1) by (cases "utc_now w1") (simp add: start_collection_def Let_def)
qed

lemma finish_collection_effect:
  assumes "system_inv py w" "get_run w k = Some run" "run_started_at run \<noteq> None"
  shows "\<exists>run' w'. finish_collection k ids w = (Inr run', w') \<and> system_inv py w' \<and> saved w' = work w' \<and>
    now_of w \<le> now_of w' \<and> get_run w' k = Some run' \<and> run_id run' = k \<and> run_incident run' = run_incident run \<and>
    run_finished_at run' = Some (now_of w) \<and>
    run_status run' = (if ids \<noteq> [] then Run_COMPLETED else Run_INSUFFICIENT_EVIDENCE) \<and>
    tool_calls (work w') = tool_calls (work w) \<and> evidences (work w') = evidences (work w)"
proof -
  obtain w1 where u: "utc_now w = (now_of w, w1)" by (simp add: utc_now_def now_of_def)
  have i1: "system_inv py w1" "now_of w \<le> now_of w1" "work w1 = work w"
    using system_inv_utc_now [OF u assms(1)] u by (auto simp: utc_now_def)
  let ?run = "run\<lparr>run_status := (if ids \<noteq> [] then Run_COMPLETED else Run_INSUFFICIENT_EVIDENCE),
                   run_finished_at := Some (now_of w),
                   run_error_message := (if ids = [] then Some ''No connector returned evidence.''
                                         else run_error_message run)\<rparr>"
  have m: "run \<in> set (runs (work w))" "run_id run = k" using row_get_SomeD [OF assms(2)] by auto
  obtain s where s: "run_started_at run = Some s" using assms(3) by blast
  have sp: "s \<le> now_of w" using assms(1) m(1) s by (auto simp: system_inv_def runs_past_def)
  have "run_ok (keys inc_id (incidents (work w))) run"
    using system_invD(4) [OF assms(1)] m(1) by (auto simp: db_ok_def runs_ok_def)
  then have i2: "system_inv py (set_run ?run w1)"
    by (intro system_inv_set_run [OF i1(1), where q = run])
      (use assms(2) m(2) i1 s sp in \<open>auto simp: run_ok_def\<close>)
  have "k \<in> keys run_id (runs (work w))" using assms(2) by (rule row_get_in_keys)
  then have g: "get_run (commit (set_run ?run w1)) k = Some ?run"
    using m(2) i1(3) by (simp add: commit_def set_run_def with_work_def row_get_row_set)
  have f: "finish_collection k ids w = (Inr ?run, commit (set_run ?run w1))"
    by (simp add: finish_collection_def assms(2) u Let_def)
  show ?thesis
    using system_inv_commit [OF i2] g m(2) i1 f
    by (intro exI [of _ ?run] exI [of _ "commit (set_run ?run w1)"])
      (simp add: commit_def set_run_def with_work_def now_of_def)
qed

definition reports_truth :: "world \<Rightarrow> uuid \<Rightarrow> collect_response \<Rightarrow> bool" where
  "reports_truth w incident r \<longleftrightarrow>
     co_incident r = incident \<and>
     (\<exists>run. get_run w (co_run r) = Some run \<and> run_incident run = incident \<and>
        run_status run = co_status r \<and> run_finished_at run \<noteq> None) \<and>
     co_status r = (if co_evidence_ids r \<noteq> [] then Run_COMPLETED else Run_INSUFFICIENT_EVIDENCE) \<and>
     map sr_source_type (co_sources r) = [METRIC, LOG, DEPLOYMENT] \<and>
     all_filed (work w) (co_run r) (co_sources r) (co_evidence_ids r)"

lemma collection_outcome:
  assumes "collect_incident_evidence py http st k request (w, e) = (out, w', e')" "system_inv py w"
  shows "system_inv py w' \<and>
    (case out of
       Inl x \<Rightarrow> \<not> (\<exists>c m b. x = ConnectorError c m b)
     | Inr r \<Rightarrow> saved w' = work w' \<and> reports_truth w' k r)"
proof (cases "get_incident w k")
  case None
  then show ?thesis using assms by (auto simp: collect_incident_evidence_def)
next
  case (Some inc)
  show ?thesis
  proof (cases "get_service w (inc_service inc)")
    case None
    then show ?thesis using assms Some by (auto simp: collect_incident_evidence_def)
  next
    case svc: (Some service)
    obtain until w0 where u: "(case cr_end_at request of Some t \<Rightarrow> (t, w) | None \<Rightarrow> utc_now w) = (until, w0)" by fastforce
    have i0: "system_inv py w0" "work w0 = work w"
      using u assms(2) system_inv_utc_now [of w until w0] by (auto simp: utc_now_def split: option.splits)
    let ?start = "max (as_utc (inc_started_at inc)) (until - seconds (cr_lookback_seconds request))"
    obtain o1 w1 where s: "start_collection py st k inc w0 = (o1, w1)" by fastforce
    have inc0: "get_incident w0 k = Some inc" using Some i0(2) by simp
    note se = start_collection_effect [OF s i0(1) inc0]
    show ?thesis
    proof (cases "in_range (until - seconds (cr_lookback_seconds request))")
    case False
    then have "shift (utc until) (- seconds (cr_lookback_seconds request)) = Inl OverflowErr" by (simp add: shift_def)
    then show ?thesis using assms(1) i0(1) by (auto simp: collect_incident_evidence_def Some svc u)
    next
    case True
    then have sh: "shift (utc until) (- seconds (cr_lookback_seconds request)) = Inr (until - seconds (cr_lookback_seconds request))"
      by (simp add: shift_def)
    note base = assms(1) [unfolded collect_incident_evidence_def prod.case Some option.case svc u Let_def sh sum.case s]
    show ?thesis
    proof (cases o1)
      case (Inl x)
      then show ?thesis using base se by auto
    next
      case (Inr run)
      have g1: "get_run w1 (run_id run) = Some run" "run_incident run = k" "run_started_at run \<noteq> None"
        "system_inv py w1" "saved w1 = work w1"
        using se Inr by auto
      show ?thesis
      proof (cases "new_connector (prometheus_url st) (connector_timeout_seconds st) (connector_max_retries st)")
        case (Inl x)
        then show ?thesis using base Inr g1(4) by (auto simp: new_connector_def split: if_splits)
      next
        case prom: (Inr prom)
        show ?thesis
        proof (cases "new_connector (loki_url st) (connector_timeout_seconds st) (connector_max_retries st)")
          case (Inl x)
          then show ?thesis using base Inr prom g1(4) by (auto simp: new_connector_def split: if_splits)
        next
          case loki: (Inr loki)
          let ?qs = "collection_queries py http prom loki service ?start until request"
          obtain o2 w2 e2 where q: "collect_sources py (run_id run) ?qs (w1, e) = (o2, w2, e2)" by (metis prod.collapse)
          have rk: "run_id run \<in> keys run_id (runs (work w1))" using g1(1) by (rule row_get_in_keys)
          note qo = collect_sources_outcome [OF collection_queries_good q g1(4,5) rk]
          show ?thesis
          proof (cases o2)
            case (Inl x)
            then have "out = Inl x" "w' = w2" using base Inr prom loki q by auto
            then show ?thesis using qo Inl by auto
          next
            case o2: (Inr p)
            obtain srs evs where p: "p = (srs, evs)" by fastforce
            have g2: "get_run w2 (run_id run) = Some run" using g1(1) qo by (simp add: trail_grows_def)
            have i2: "system_inv py w2" using qo by simp
            obtain run' w3 where f: "finish_collection (run_id run) evs w2 = (Inr run', w3)" "system_inv py w3"
              "saved w3 = work w3" "get_run w3 (run_id run) = Some run'" "run_id run' = run_id run"
              "run_incident run' = run_incident run" "run_finished_at run' \<noteq> None"
              "run_status run' = (if evs \<noteq> [] then Run_COMPLETED else Run_INSUFFICIENT_EVIDENCE)"
              "tool_calls (work w3) = tool_calls (work w2)" "evidences (work w3) = evidences (work w2)"
              using finish_collection_effect [OF i2 g2 g1(3), of evs] by auto
            have "out = Inr \<lparr>co_incident = k, co_run = run_id run', co_status = run_status run',
                co_range_start = ?start, co_range_end = until, co_sources = srs, co_evidence_ids = evs\<rparr>" "w' = w3"
              using base Inr prom loki q o2 p f(1) by auto
            moreover have "map sr_source_type srs = [METRIC, LOG, DEPLOYMENT]" "all_filed (work w2) (run_id run) srs evs"
              using qo o2 p by (auto simp: collection_queries_def Let_def)
            moreover have "all_filed (work w3) (run_id run) srs evs"
              using all_filed_mono [OF _ f(9,10)] qo o2 p by simp
            ultimately show ?thesis using f g1(2) by (simp add: reports_truth_def)
          qed
        qed
      qed
    qed
    qed
  qed
qed

text \<open>C13: A collection pass tells the truth and loses nothing: when it returns, everything it did is
  committed, it answered for the three sources in order, every source is filed as a tool call of
  the run (a success with its one evidence, a failure with its error code), the evidence list is
  that of the successes, and the run is finished, COMPLETED exactly when some source answered. A
  source that fails with a connector error never makes the pass fail, and the invariant of the
  system holds in every case.\<close>

theorem collection_reports_truth:
  assumes "collect_incident_evidence py http st k request (w, e) = (out, w', e')" "system_inv py w"
  shows "system_inv py w' \<and>
    (case out of
       Inl x \<Rightarrow> \<not> (\<exists>c m b. x = ConnectorError c m b)
     | Inr r \<Rightarrow> saved w' = work w' \<and> reports_truth w' k r)"
  by (rule collection_outcome [OF assms])

text \<open>A pass over one alert: Prometheus answers, Loki is down, nothing was deployed.\<close>

definition alerted_world :: world where
  "alerted_world = commit (snd (ingest_alert demo_pylib demo_alert 300 start_world))"

lemma alerted_world_inv: "system_inv demo_pylib alerted_world"
  unfolding alerted_world_def
  by (intro system_inv_commit system_inv_ingest start_system_inv)

definition metric_reply :: "(http_error + http_response) list" where
  "metric_reply = [Inr \<lparr>hr_status = 200, hr_body = Inr (JObj [(''status'', JStr ''success''),
     (''data'', JObj [(''result'', JList [])])])\<rparr>]"

definition demo_collect :: "(exn + collect_response) \<times> world \<times> (http_error + http_response) list" where
  "demo_collect = collect_incident_evidence demo_pylib scripted default_settings 2
     default_collect_request (alerted_world, metric_reply)"

theorem collection_reports_truth_witness:
  "case demo_collect of
     (Inr r, w', e') \<Rightarrow> co_status r = Run_COMPLETED \<and>
       map sr_status (co_sources r) = [Tool_SUCCEEDED, Tool_FAILED, Tool_SUCCEEDED] \<and>
       saved w' = work w' \<and> reports_truth w' 2 r
   | _ \<Rightarrow> False"
proof -
  have c: "case demo_collect of (Inr r, w', e') \<Rightarrow> co_status r = Run_COMPLETED \<and>
       map sr_status (co_sources r) = [Tool_SUCCEEDED, Tool_FAILED, Tool_SUCCEEDED] | _ \<Rightarrow> False"
    by code_simp
  obtain out w' e' where d: "demo_collect = (out, w', e')" by (metis prod.collapse)
  show ?thesis
    using c collection_reports_truth [OF d [unfolded demo_collect_def] alerted_world_inv]
    by (auto simp: d split: sum.splits)
qed

subsection \<open>An incident that starts after the window\<close>

text \<open>
  An alert may carry a start in the future. The window of a pass then ends before it begins,
  which the connectors refuse with ValueError, not with a connector error.
\<close>

definition window_end :: "collect_request \<Rightarrow> world \<Rightarrow> time" where
  "window_end request w = (case cr_end_at request of Some t \<Rightarrow> t | None \<Rightarrow> now_of w)"

lemma metric_query_not_blank: "strip (checkout_error_rate_query n) \<noteq> []"
  using not_blank_start [of "CHR ''s''"]
  by (simp add: checkout_error_rate_query_def Let_def not_blank_def is_space_def)

lemma collect_source_backwards:
  assumes "t < s"
  shows "\<exists>w'. collect_sources py run (collection_queries py http prom loki service s t request) (w, e) =
    (Inl (ValueErr ''Prometheus query end must not precede start''), w', e) \<and> saved w' = saved w"
  using assms metric_query_not_blank
  by (auto simp: collection_queries_def Let_def collect_source_def prometheus_query_range_def precedes_def
      utc_now_def)

text \<open>C14: A pass over an incident whose start lies after the end of the window leaves a run that
  nobody closes: it raises ValueError after the run was committed, so the committed state holds a
  run of the incident that is RUNNING, started and not finished.\<close>

theorem collection_future_incident:
  assumes "get_incident w k = Some inc" "get_service w (inc_service inc) = Some service"
    "window_end request w < as_utc (inc_started_at inc)" "system_inv py w"
    "run_create_ok \<lparr>rc_prompt_version = prompt_version st, rc_provider = Some ''connectors'', rc_model_name = None\<rparr>"
    "new_connector (prometheus_url st) (connector_timeout_seconds st) (connector_max_retries st) = Inr prom"
    "new_connector (loki_url st) (connector_timeout_seconds st) (connector_max_retries st) = Inr loki"
    "in_range (window_end request w - seconds (cr_lookback_seconds request))"
  shows "\<exists>w'. collect_incident_evidence py http st k request (w, e) =
      (Inl (ValueErr ''Prometheus query end must not precede start''), w', e) \<and>
    (\<exists>run \<in> set (runs (saved w')). run_incident run = k \<and> run_status run = Run_RUNNING \<and>
       run_started_at run \<noteq> None \<and> run_finished_at run = None)"
proof -
  obtain until w0 where u: "(case cr_end_at request of Some t \<Rightarrow> (t, w) | None \<Rightarrow> utc_now w) = (until, w0)" by fastforce
  have i0: "system_inv py w0" "work w0 = work w" "until < as_utc (inc_started_at inc)"
    "shift (utc until) (- seconds (cr_lookback_seconds request)) = Inr (until - seconds (cr_lookback_seconds request))"
    using u assms(3,4,8) system_inv_utc_now [of w until w0]
    by (auto simp: utc_now_def window_end_def now_of_def shift_def split: option.splits)
  let ?start = "max (as_utc (inc_started_at inc)) (until - seconds (cr_lookback_seconds request))"
  have b: "until < ?start" using i0(3) by simp
  obtain o1 w1 where s: "start_collection py st k inc w0 = (o1, w1)" by fastforce
  have inc0: "get_incident w0 k = Some inc" using assms(1) i0(2) by simp
  note se = start_collection_effect [OF s i0(1) inc0]
  have "o1 \<noteq> Inl x" for x using start_collection_total [OF assms(5) i0(1) inc0] s by auto
  then obtain run where r: "o1 = Inr run" by (cases o1) auto
  have g: "get_run w1 (run_id run) = Some run" "run_incident run = k" "run_started_at run \<noteq> None"
    "run_status run = Run_RUNNING" "run_finished_at run = None" "saved w1 = work w1"
    using se r by auto
  obtain w2 where c: "collect_sources py (run_id run) (collection_queries py http prom loki service ?start until request) (w1, e) =
    (Inl (ValueErr ''Prometheus query end must not precede start''), w2, e)" "saved w2 = saved w1"
    using collect_source_backwards [OF b] by metis
  have "run \<in> set (runs (saved w2))" using row_get_SomeD [OF g(1)] g(6) c(2) by simp
  then show ?thesis
    using assms(1,2,6,7) u s r c(1) g i0(4) by (auto simp: collect_incident_evidence_def Let_def)
qed

text \<open>The clock starts at zero and the alert claims to have begun hours later.\<close>

definition future_world :: world where
  "future_world = commit (snd (ingest_alert demo_pylib (demo_alert\<lparr>ar_started_at := utc (seconds 9999)\<rparr>) 300 start_world))"

theorem collection_future_incident_witness:
  "\<exists>w'. collect_incident_evidence demo_pylib scripted default_settings 2 default_collect_request (future_world, []) =
      (Inl (ValueErr ''Prometheus query end must not precede start''), w', []) \<and>
    (\<exists>run \<in> set (runs (saved w')). run_incident run = 2 \<and> run_status run = Run_RUNNING \<and>
       run_started_at run \<noteq> None \<and> run_finished_at run = None)"
proof -
  have "case get_incident future_world 2 of None \<Rightarrow> False
     | Some i \<Rightarrow> (case get_service future_world (inc_service i) of None \<Rightarrow> False
        | Some s \<Rightarrow> window_end default_collect_request future_world < as_utc (inc_started_at i))"
    by code_simp
  then obtain i s where f: "get_incident future_world 2 = Some i" "get_service future_world (inc_service i) = Some s"
    "window_end default_collect_request future_world < as_utc (inc_started_at i)"
    by (auto split: option.splits)
  have inv: "system_inv demo_pylib future_world"
    unfolding future_world_def by (intro system_inv_commit system_inv_ingest start_system_inv)
  have ok: "run_create_ok \<lparr>rc_prompt_version = prompt_version default_settings, rc_provider = Some ''connectors'',
      rc_model_name = None\<rparr>" by code_simp
  obtain c1 where c1: "new_connector (prometheus_url default_settings) (connector_timeout_seconds default_settings)
      (connector_max_retries default_settings) = Inr c1"
    by (simp add: new_connector_def default_settings_def strip_def strip_by_def is_space_def)
  obtain c2 where c2: "new_connector (loki_url default_settings) (connector_timeout_seconds default_settings)
      (connector_max_retries default_settings) = Inr c2"
    by (simp add: new_connector_def default_settings_def strip_def strip_by_def is_space_def)
  have w: "in_range (window_end default_collect_request future_world - seconds (cr_lookback_seconds default_collect_request))"
    by code_simp
  show ?thesis by (rule collection_future_incident [OF f inv ok c1 c2 w])
qed

end
