(* ===== verification/Analysis.thy ===== *)
theory Analysis
  imports Collection
begin

section \<open>Analysis service: the deterministic analyzer\<close>

text \<open>
  \<open>apps/api/app/services/analysis_service.py\<close>: the rules that turn the evidence of one run into a
  hypothesis and a proposed rollback, or into INSUFFICIENT_EVIDENCE. Nothing is committed here.
  \<open>begin_analysis\<close>, \<open>insufficient\<close> and \<open>propose\<close> are the three parts of the one function of the
  source; \<open>supported\<close> is the condition under which it proposes. The score is computed on floats,
  with their rounding.
\<close>

record analysis_hypothesis =
  ah_id :: uuid
  ah_root_cause :: str
  ah_summary :: str
  ah_confidence :: pyfloat
  ah_evidence_ids :: "uuid list"

record analysis_recommendation =
  ac_id :: uuid
  ac_action_type :: str
  ac_parameters :: "(str \<times> json) list"
  ac_rationale :: str
  ac_risk_level :: risk_level
  ac_requires_approval :: bool
  ac_status :: str

record analyze_response =
  az_incident :: uuid
  az_run :: uuid
  az_status :: run_status
  az_summary :: str
  az_hypothesis :: "analysis_hypothesis option"
  az_recommendation :: "analysis_recommendation option"
  az_evidence_count :: nat
  az_analyzed_at :: time

definition ROLLBACK_RATIONALE :: str where
  "ROLLBACK_RATIONALE = ''Rollback the implicated deployment after human approval, then verify recovery.''"

subsection \<open>Selecting the run and its evidence\<close>

definition latest_run :: "db \<Rightarrow> uuid \<Rightarrow> agent_run option" where
  "latest_run d incident_id =
     first_row (sort_key (\<lambda>r. (- run_created_at r, - int (run_id r)))
       (filter (\<lambda>r. run_incident r = incident_id) (runs d)))"

definition analysis_run :: "world \<Rightarrow> uuid \<Rightarrow> analyze_request \<Rightarrow> exn + agent_run" where
  "analysis_run w incident_id p =
     (case an_agent_run p of
        Some k \<Rightarrow> (case get_run w k of
            None \<Rightarrow> Inl (InvestigationNotFoundError ''Agent run not found for this incident'')
          | Some run \<Rightarrow> if run_incident run \<noteq> incident_id
              then Inl (InvestigationNotFoundError ''Agent run not found for this incident'') else Inr run)
      | None \<Rightarrow> (case latest_run (work w) incident_id of
            None \<Rightarrow> Inl (InvestigationNotFoundError ''Collect evidence before analyzing the incident'')
          | Some run \<Rightarrow> Inr run))"

definition run_evidence :: "db \<Rightarrow> uuid \<Rightarrow> evidence list" where
  "run_evidence d agent_run_id =
     sort_key (\<lambda>e. (evd_collected_at e, evd_id e)) (filter (\<lambda>e. evd_run e = agent_run_id) (evidences d))"

subsection \<open>The rules\<close>

definition ids_of :: "source_type \<Rightarrow> evidence list \<Rightarrow> uuid list" where
  "ids_of t ev = map evd_id (filter (\<lambda>e. evd_source_type e = t) ev)"

definition analysis_text :: "evidence list \<Rightarrow> str" where
  "analysis_text ev = join '' '' (map (\<lambda>e. lower (evd_summary e @ '' '' @ evd_query e)) ev)"

definition deployment_regression :: "evidence list \<Rightarrow> bool" where
  "deployment_regression ev \<longleftrightarrow> ids_of DEPLOYMENT ev \<noteq> [] \<and>
     (ids_of METRIC ev \<noteq> [] \<or> ids_of LOG ev \<noteq> [] \<or>
      contains ''error'' (analysis_text ev) \<or> contains ''timeout'' (analysis_text ev))"

text \<open>\<open>list(dict.fromkeys(xs))\<close>: the first occurrence of each element, in order.\<close>

definition from_keys :: "'a list \<Rightarrow> 'a list" where
  "from_keys xs = rev (remdups (rev xs))"

definition cited_ids :: "evidence list \<Rightarrow> uuid list" where
  "cited_ids ev = from_keys (ids_of DEPLOYMENT ev @ ids_of METRIC ev @ ids_of LOG ev)"

definition analysis_confidence :: "nat \<Rightarrow> rat" where
  "analysis_confidence n = min (fl (95 / 100)) (fadd (fl (55 / 100)) (fmul (fl (1 / 10)) (of_nat n)))"

subsection \<open>The function\<close>

definition insufficient :: "agent_run \<Rightarrow> str \<Rightarrow> world \<Rightarrow> agent_run \<times> time \<times> world" where
  "insufficient run m w =
     (case utc_now w of (now, w1) \<Rightarrow>
        let run' = run\<lparr>run_status := Run_INSUFFICIENT_EVIDENCE, run_finished_at := Some now,
                       run_error_message := Some m\<rparr>
        in (run', now, set_run run' w1))"

definition insufficient_response :: "uuid \<Rightarrow> str \<Rightarrow> nat \<Rightarrow> agent_run \<times> time \<times> world \<Rightarrow> (exn + analyze_response) \<times> world" where
  "insufficient_response incident_id summary n = (\<lambda>(run, now, w).
     (Inr \<lparr>az_incident = incident_id, az_run = run_id run, az_status = run_status run, az_summary = summary,
        az_hypothesis = None, az_recommendation = None, az_evidence_count = n, az_analyzed_at = now\<rparr>, w))"

definition started_or_now :: "agent_run \<Rightarrow> world \<Rightarrow> time \<times> world" where
  "started_or_now run w = (case run_started_at run of Some s \<Rightarrow> (s, w) | None \<Rightarrow> utc_now w)"

definition begin_analysis :: "incident \<Rightarrow> agent_run \<Rightarrow> world \<Rightarrow> agent_run \<times> world" where
  "begin_analysis incident run w =
     (case started_or_now run w of (started, w1) \<Rightarrow>
        let run' = run\<lparr>run_status := Run_RUNNING, run_started_at := Some started,
                       run_provider := Some ''deterministic'', run_model_name := Some ''evidence-rules-v1'',
                       run_prompt_version := ''analysis-rules-v1''\<rparr>;
            w2 = set_run run' w1
        in (run', if inc_status incident = NEW \<or> inc_status incident = COLLECTING_EVIDENCE
                  then set_incident (incident\<lparr>inc_status := ANALYZING\<rparr>) w2 else w2))"

definition analysis_hypothesis_create :: "uuid list \<Rightarrow> rat \<Rightarrow> hypothesis_create" where
  "analysis_hypothesis_create cited confidence =
     \<lparr>hc_root_cause = ''deployment_regression'',
      hc_summary = ''A recent deployment is the most likely cause of the incident: '' @
        ''deployment evidence aligns with metric or log degradation.'',
      hc_confidence = Fin confidence, hc_evidence_ids = cited\<rparr>"

definition analysis_recommendation_create :: "pylib \<Rightarrow> uuid \<Rightarrow> uuid \<Rightarrow> recommendation_create" where
  "analysis_recommendation_create py incident_id h =
     \<lparr>pc_hypothesis = h, pc_action_type = ''simulated_rollback'',
      pc_parameters = [(''incident_id'', JStr (uuid_text py incident_id))],
      pc_rationale = ROLLBACK_RATIONALE, pc_risk_level = Risk_MEDIUM\<rparr>"

definition propose ::
    "pylib \<Rightarrow> uuid \<Rightarrow> agent_run \<Rightarrow> uuid list \<Rightarrow> rat \<Rightarrow> nat \<Rightarrow> (world, analyze_response) op" where
  "propose py incident_id run cited confidence n w =
     (if \<not> hypothesis_create_ok (analysis_hypothesis_create cited confidence) then (Inl ValidationErr, w)
      else bind (record_hypothesis (run_id run) (analysis_hypothesis_create cited confidence) w) (\<lambda>h w1.
        if \<not> recommendation_create_ok (analysis_recommendation_create py incident_id (hyp_id h))
        then (Inl ValidationErr, w1)
        else bind (record_recommendation (run_id run) (analysis_recommendation_create py incident_id (hyp_id h)) w1)
          (\<lambda>rc w2. case utc_now w2 of (now, w3) \<Rightarrow>
             let run' = run\<lparr>run_status := Run_COMPLETED, run_finished_at := Some now, run_error_message := None\<rparr>
             in (Inr \<lparr>az_incident = incident_id, az_run = run_id run', az_status = run_status run',
                   az_summary = hyp_summary h,
                   az_hypothesis = Some \<lparr>ah_id = hyp_id h, ah_root_cause = hyp_root_cause h,
                     ah_summary = hyp_summary h, ah_confidence = hyp_confidence h, ah_evidence_ids = cited\<rparr>,
                   az_recommendation = Some \<lparr>ac_id = rec_id rc, ac_action_type = rec_action_type rc,
                     ac_parameters = rec_parameters rc, ac_rationale = rec_rationale rc,
                     ac_risk_level = rec_risk_level rc, ac_requires_approval = rec_requires_approval rc,
                     ac_status = rec_status rc\<rparr>,
                   az_evidence_count = n, az_analyzed_at = now\<rparr>, set_run run' w3))))"

definition analyze_incident :: "pylib \<Rightarrow> uuid \<Rightarrow> analyze_request \<Rightarrow> (world, analyze_response) op" where
  "analyze_incident py incident_id request w =
     (case get_incident w incident_id of
        None \<Rightarrow> (Inl (InvestigationNotFoundError ''Incident not found''), w)
      | Some incident \<Rightarrow>
     (case analysis_run w incident_id request of
        Inl x \<Rightarrow> (Inl x, w)
      | Inr run \<Rightarrow>
          let ev = run_evidence (work w) (run_id run) in
          if ev = [] then
            (case started_or_now run w of (started, w1) \<Rightarrow>
               insufficient_response incident_id
                 ''Insufficient evidence to determine a reliable root cause.'' 0
                 (insufficient (run\<lparr>run_started_at := Some started\<rparr>)
                    ''No evidence was collected for this run.'' w1))
          else
            (case begin_analysis incident run w of (run1, w1) \<Rightarrow>
               let cited = cited_ids ev in
               if \<not> deployment_regression ev \<or> length cited < 2 then
                 insufficient_response incident_id
                   ''Insufficient evidence to determine a reliable root cause.'' (length ev)
                   (insufficient run1 ''Evidence did not support a cited root-cause hypothesis.'' w1)
               else
                 let confidence = analysis_confidence (length cited) in
                 if confidence < an_min_confidence request then
                   insufficient_response incident_id
                     ''Insufficient evidence to meet the requested confidence threshold.'' (length ev)
                     (insufficient run1 ''Computed confidence is below the requested threshold.'' w1)
                 else propose py incident_id run1 cited confidence (length ev) w1)))"

subsection \<open>The score\<close>

lemma analysis_confidence_mono: "m \<le> n \<Longrightarrow> analysis_confidence m \<le> analysis_confidence n"
proof -
  assume "m \<le> n"
  then have "fmul (fl (1 / 10)) (of_nat m) \<le> fmul (fl (1 / 10)) (of_nat n)"
    by (intro fmul_mono) (simp_all add: fl_nonneg)
  then have "fadd (fl (55 / 100)) (fmul (fl (1 / 10)) (of_nat m)) \<le> fadd (fl (55 / 100)) (fmul (fl (1 / 10)) (of_nat n))"
    by (intro fadd_mono) simp_all
  then show ?thesis unfolding analysis_confidence_def by (rule min.mono [OF order_refl])
qed

lemma analysis_confidence_two: "3 / 4 \<le> analysis_confidence 2"
  by code_simp

lemma analysis_confidence_four: "analysis_confidence 4 = fl (95 / 100)"
  by code_simp

lemma cap_in_unit: "fl (95 / 100) \<le> 1" "0 \<le> fl (95 / 100)"
  by code_simp+

lemma analysis_confidence_le: "analysis_confidence n \<le> fl (95 / 100)"
  by (simp add: analysis_confidence_def)

text \<open>C24: The score of a hypothesis is a probability that never claims certainty: on any number of
  cited pieces of evidence from two up it lies between 0.75 and 0.95 with all the rounding of the
  floats, it grows with the citations, and from four citations on it is 0.95.\<close>

theorem analysis_confidence_bounds:
  assumes "2 \<le> m" "m \<le> n"
  shows "3 / 4 \<le> analysis_confidence m \<and> analysis_confidence m \<le> analysis_confidence n \<and>
    analysis_confidence n \<le> fl (95 / 100) \<and> in_unit (Fin (analysis_confidence n)) \<and>
    (4 \<le> n \<longrightarrow> analysis_confidence n = fl (95 / 100))"
proof -
  have "3 / 4 \<le> analysis_confidence m"
    using analysis_confidence_two analysis_confidence_mono [OF assms(1)] by (rule order_trans)
  moreover have "analysis_confidence m \<le> analysis_confidence n" by (rule analysis_confidence_mono [OF assms(2)])
  moreover have "analysis_confidence n = fl (95 / 100)" if "4 \<le> n"
    using analysis_confidence_mono [OF that] analysis_confidence_le [of n]
    unfolding analysis_confidence_four by (rule order_antisym [rotated])
  ultimately show ?thesis
    using analysis_confidence_le [of n] cap_in_unit(1) by auto
qed

theorem analysis_confidence_bounds_witness:
  "3 / 4 \<le> analysis_confidence 2 \<and> analysis_confidence 2 \<le> analysis_confidence 5 \<and>
    analysis_confidence 5 \<le> fl (95 / 100) \<and> in_unit (Fin (analysis_confidence 5)) \<and>
    analysis_confidence 5 = fl (95 / 100)"
  using analysis_confidence_bounds [of 2 5] by simp

subsection \<open>What each part leaves behind\<close>

definition same_run :: "agent_run \<Rightarrow> agent_run \<Rightarrow> bool" where
  "same_run r q \<longleftrightarrow> run_id r = run_id q \<and> run_incident r = run_incident q \<and>
     run_input_tokens r = run_input_tokens q \<and> run_output_tokens r = run_output_tokens q"

definition keeps_records :: "world \<Rightarrow> world \<Rightarrow> bool" where
  "keeps_records w w' \<longleftrightarrow> saved w' = saved w \<and> evidences (work w') = evidences (work w) \<and>
     hypotheses (work w') = hypotheses (work w) \<and> citations (work w') = citations (work w) \<and>
     recommendations (work w') = recommendations (work w) \<and> services (work w') = services (work w)"

lemma keeps_records_refl [simp]: "keeps_records w w"
  by (simp add: keeps_records_def)

lemma keeps_records_trans: "keeps_records a b \<Longrightarrow> keeps_records b c \<Longrightarrow> keeps_records a c"
  by (simp add: keeps_records_def)

lemma update_run:
  assumes "system_inv py w" "get_run w k = Some q" "same_run r q" "run_started_at r = Some s" "s \<le> now_of w"
    "\<And>f. run_finished_at r = Some f \<Longrightarrow> s \<le> f"
  shows "system_inv py (set_run r w) \<and> get_run (set_run r w) k = Some r \<and> keeps_records w (set_run r w) \<and>
    now_of (set_run r w) = now_of w \<and> incidents (work (set_run r w)) = incidents (work w)"
proof -
  have q: "q \<in> set (runs (work w))" "run_id q = k" using row_get_SomeD [OF assms(2)] by auto
  have "run_ok (keys inc_id (incidents (work w))) q"
    using system_invD(4) [OF assms(1)] q(1) by (auto simp: db_ok_def runs_ok_def)
  then have "system_inv py (set_run r w)"
    using assms q by (intro system_inv_set_run [OF assms(1), where q = q])
      (auto simp: same_run_def run_ok_def split: option.splits)
  moreover have "k \<in> keys run_id (runs (work w))" using assms(2) by (rule row_get_in_keys)
  ultimately show ?thesis
    using assms(3) q(2)
    by (simp add: same_run_def set_run_def with_work_def keeps_records_def now_of_def row_get_row_set)
qed

lemma clock_tick:
  assumes "system_inv py w"
  obtains w1 where "utc_now w = (now_of w, w1)" "system_inv py w1" "now_of w \<le> now_of w1" "work w1 = work w"
    "keeps_records w w1"
proof -
  obtain w1 where u: "utc_now w = (now_of w, w1)" by (simp add: utc_now_def now_of_def)
  then have "work w1 = work w" "saved w1 = saved w" by (auto simp: utc_now_def)
  then show thesis using that [OF u] system_inv_utc_now [OF u assms] by (simp add: keeps_records_def)
qed

lemma insufficient_effect:
  assumes "system_inv py w" "get_run w (run_id run) = Some q" "same_run run q" "run_started_at run = Some s"
    "s \<le> now_of w"
  shows "\<exists>run' w'. insufficient run m w = (run', now_of w, w') \<and> system_inv py w' \<and> keeps_records w w' \<and>
    get_run w' (run_id run) = Some run' \<and> run_id run' = run_id run \<and> run_incident run' = run_incident q \<and>
    run_status run' = Run_INSUFFICIENT_EVIDENCE \<and> run_finished_at run' = Some (now_of w)"
proof -
  obtain w1 where u: "utc_now w = (now_of w, w1)" "system_inv py w1" "now_of w \<le> now_of w1" "work w1 = work w"
    "keeps_records w w1" using clock_tick [OF assms(1)] .
  let ?r = "run\<lparr>run_status := Run_INSUFFICIENT_EVIDENCE, run_finished_at := Some (now_of w), run_error_message := Some m\<rparr>"
  have "system_inv py (set_run ?r w1) \<and> get_run (set_run ?r w1) (run_id run) = Some ?r \<and>
      keeps_records w1 (set_run ?r w1) \<and> now_of (set_run ?r w1) = now_of w1 \<and>
      incidents (work (set_run ?r w1)) = incidents (work w1)"
    by (rule update_run [OF u(2), where q = q and s = s]) (use assms u in \<open>auto simp: same_run_def\<close>)
  then show ?thesis
    using assms(3) keeps_records_trans [OF u(5)]
    by (intro exI [of _ ?r] exI [of _ "set_run ?r w1"]) (simp add: insufficient_def u(1) Let_def same_run_def)
qed

lemma started_or_now_effect:
  assumes "system_inv py w" "get_run w k = Some run" "started_or_now run w = (s, w1)"
  shows "system_inv py w1 \<and> work w1 = work w \<and> keeps_records w w1 \<and> now_of w \<le> now_of w1 \<and> s \<le> now_of w1 \<and>
    (\<forall>f. run_finished_at run = Some f \<longrightarrow> s \<le> f)"
proof (cases "run_started_at run")
  case None
  have m: "run \<in> set (runs (work w))" using row_get_SomeD [OF assms(2)] by simp
  then have "run_finished_at run = None"
    using system_invD(4) [OF assms(1)] None by (auto simp: db_ok_def runs_ok_def run_ok_def split: option.splits)
  moreover obtain w2 where u: "utc_now w = (now_of w, w2)" "system_inv py w2" "now_of w \<le> now_of w2"
    "work w2 = work w" "keeps_records w w2" using clock_tick [OF assms(1)] .
  ultimately show ?thesis using assms(3) None by (auto simp: started_or_now_def)
next
  case (Some t)
  have m: "run \<in> set (runs (work w))" using row_get_SomeD [OF assms(2)] by simp
  then have "t \<le> now_of w" using assms(1) Some by (auto simp: system_inv_def runs_past_def)
  moreover have "\<forall>f. run_finished_at run = Some f \<longrightarrow> t \<le> f"
    using system_invD(4) [OF assms(1)] m Some by (auto simp: db_ok_def runs_ok_def run_ok_def)
  ultimately show ?thesis using assms Some by (auto simp: started_or_now_def)
qed

text \<open>A run that is started: its row is replaced and a new incident moves to ANALYZING.\<close>

definition mark_started :: "incident \<Rightarrow> agent_run \<Rightarrow> world \<Rightarrow> world" where
  "mark_started incident r w =
     (if inc_status incident = NEW \<or> inc_status incident = COLLECTING_EVIDENCE
      then set_incident (incident\<lparr>inc_status := ANALYZING\<rparr>) (set_run r w) else set_run r w)"

lemma mark_started_effect:
  assumes "system_inv py w" "get_run w (run_id run) = Some run" "get_incident w k = Some incident"
    "started_or_now run w = (s, w1)" "same_run r run" "run_started_at r = Some s" "run_finished_at r = run_finished_at run"
  shows "system_inv py (mark_started incident r w1) \<and> keeps_records w (mark_started incident r w1) \<and>
    get_run (mark_started incident r w1) (run_id run) = Some r \<and> s \<le> now_of (mark_started incident r w1) \<and>
    now_of w \<le> now_of (mark_started incident r w1) \<and> get_incident (mark_started incident r w1) k \<noteq> None"
proof -
  note e = started_or_now_effect [OF assms(1,2,4)]
  have g1: "get_run w1 (run_id run) = Some run" using assms(2) e by simp
  have u: "system_inv py (set_run r w1) \<and> get_run (set_run r w1) (run_id run) = Some r \<and>
      keeps_records w1 (set_run r w1) \<and> now_of (set_run r w1) = now_of w1 \<and>
      incidents (work (set_run r w1)) = incidents (work w1)"
    by (rule update_run [OF _ g1 assms(5), where s = s]) (use e assms(6,7) in auto)
  let ?i = "incident\<lparr>inc_status := ANALYZING\<rparr>"
  have ik: "inc_id incident = k" using row_get_SomeD [OF assms(3)] by simp
  have gi: "get_incident (set_run r w1) (inc_id ?i) = Some incident" using assms(3) u e ik by simp
  have i: "system_inv py (set_incident ?i (set_run r w1))"
    by (rule system_inv_set_incident [OF _ gi]) (use u in simp_all)
  have "k \<in> keys inc_id (incidents (work w1))" using assms(3) e by (auto dest: row_get_in_keys)
  then have "get_incident (mark_started incident r w1) k \<noteq> None"
    using u by (auto simp: mark_started_def set_incident_def with_work_def row_get_None_iff keys_row_set)
  moreover have "get_run (mark_started incident r w1) (run_id run) = Some r" "now_of (mark_started incident r w1) = now_of w1"
    "keeps_records w (mark_started incident r w1)"
    using u keeps_records_trans [of w w1 "set_run r w1"] e
    by (auto simp: mark_started_def set_incident_def with_work_def now_of_def keeps_records_def)
  moreover have "system_inv py (mark_started incident r w1)" using i u by (simp add: mark_started_def)
  ultimately show ?thesis using e by simp
qed

lemma begin_analysis_effect:
  assumes "system_inv py w" "get_run w (run_id run) = Some run" "get_incident w k = Some incident"
  shows "\<exists>run1 w1 s. begin_analysis incident run w = (run1, w1) \<and> system_inv py w1 \<and> keeps_records w w1 \<and>
    get_run w1 (run_id run) = Some run1 \<and> same_run run1 run \<and> run_started_at run1 = Some s \<and> s \<le> now_of w1 \<and>
    now_of w \<le> now_of w1"
proof -
  obtain s w1 where s: "started_or_now run w = (s, w1)" by fastforce
  let ?r = "run\<lparr>run_status := Run_RUNNING, run_started_at := Some s, run_provider := Some ''deterministic'',
      run_model_name := Some ''evidence-rules-v1'', run_prompt_version := ''analysis-rules-v1''\<rparr>"
  have "begin_analysis incident run w = (?r, mark_started incident ?r w1)"
    by (simp add: begin_analysis_def s Let_def mark_started_def)
  moreover have "same_run ?r run" by (simp add: same_run_def)
  ultimately show ?thesis using mark_started_effect [OF assms s, of ?r] by auto
qed

subsection \<open>The proposal\<close>

lemma record_hypothesis_total:
  assumes "get_run w k = Some run" "\<forall>x \<in> set (hc_evidence_ids p). (x, k) \<in> evd_runs (work w)"
  shows "\<exists>h w'. record_hypothesis k p w = (Inr h, w')"
proof -
  have "evidence_of_run (work w) k (remdups (hc_evidence_ids p)) = set (remdups (hc_evidence_ids p))"
    using assms(2) by (fastforce simp: evidence_of_run_def keys_def)
  then show ?thesis
    using assms(1) by (simp add: record_hypothesis_def require_agent_run_def Let_def split: prod.splits)
qed

lemma record_recommendation_total:
  assumes "get_run w k = Some run" "db_ok (work w)" "h \<in> set (hypotheses (work w))" "hyp_run h = k"
    "pc_hypothesis p = hyp_id h" "c \<in> set (citations (work w))" "he_hypothesis c = hyp_id h"
  shows "\<exists>r w'. record_recommendation k p w = (Inr r, w')"
proof -
  have "distinct (map hyp_id (hypotheses (work w)))" using assms(2) by (simp add: db_ok_def hypotheses_ok_def)
  then have "get_hypothesis w (hyp_id h) = Some h" using assms(3) by (rule row_get_unique)
  then show ?thesis
    using assms by (auto simp: record_recommendation_def require_agent_run_def split: prod.splits)
qed

lemma analysis_creates_ok:
  "cited \<noteq> [] \<Longrightarrow> 0 \<le> c \<Longrightarrow> c \<le> 1 \<Longrightarrow> hypothesis_create_ok (analysis_hypothesis_create cited c)"
  "recommendation_create_ok (analysis_recommendation_create py k h)"
  by (cases cited) (simp_all add: hypothesis_create_ok_def analysis_hypothesis_create_def len_between_def
      recommendation_create_ok_def analysis_recommendation_create_def ROLLBACK_RATIONALE_def obj_finite_def
      not_blank_start is_space_def)

text \<open>What a proposal adds: one hypothesis citing exactly the given evidence, one recommendation of it.\<close>

definition proposed :: "world \<Rightarrow> world \<Rightarrow> uuid \<Rightarrow> uuid list \<Rightarrow> rat \<Rightarrow> analyze_response \<Rightarrow> bool" where
  "proposed w w' run cited confidence r \<longleftrightarrow>
     (\<exists>h rc. hypotheses (work w') = hypotheses (work w) @ [h] \<and>
        recommendations (work w') = recommendations (work w) @ [rc] \<and>
        hyp_run h = run \<and> hyp_root_cause h = ''deployment_regression'' \<and> hyp_confidence h = Fin confidence \<and>
        {e. (e, hyp_id h) \<in> keys (\<lambda>c. (he_evidence c, he_hypothesis c)) (citations (work w'))} = set cited \<and>
        rec_hypothesis rc = hyp_id h \<and> rec_run rc = run \<and> rec_action_type rc = ''simulated_rollback'' \<and>
        rec_status rc = ''proposed'' \<and> rec_requires_approval rc \<and>
        map_option ah_id (az_hypothesis r) = Some (hyp_id h) \<and>
        map_option ah_evidence_ids (az_hypothesis r) = Some cited \<and>
        map_option ac_id (az_recommendation r) = Some (rec_id rc))"

lemma propose_effect:
  assumes "system_inv py w" "get_run w (run_id run) = Some run" "run_started_at run = Some s" "s \<le> now_of w"
    "cited \<noteq> []" "0 \<le> c" "c \<le> 1" "\<forall>x \<in> set cited. (x, run_id run) \<in> evd_runs (work w)"
  shows "\<exists>r w'. propose py k run cited c n w = (Inr r, w') \<and> system_inv py w' \<and> saved w' = saved w \<and>
    az_run r = run_id run \<and> az_status r = Run_COMPLETED \<and> az_evidence_count r = n \<and> az_incident r = k \<and>
    (\<exists>run'. get_run w' (run_id run) = Some run' \<and> run_incident run' = run_incident run \<and>
       run_status run' = Run_COMPLETED \<and> run_finished_at run' = Some (az_analyzed_at r)) \<and>
    proposed w w' (run_id run) cited c r"
proof -
  let ?p = "analysis_hypothesis_create cited c"
  have p: "hypothesis_create_ok ?p" by (rule analysis_creates_ok(1) [OF assms(5-7)])
  obtain h w1 where h: "record_hypothesis (run_id run) ?p w = (Inr h, w1)"
    using record_hypothesis_total [OF assms(2), of ?p] assms(8) by (auto simp: analysis_hypothesis_create_def)
  note he = record_hypothesis_effect [OF h system_invD(2) [OF assms(1)] p]
  have i1: "system_inv py w1" by (rule system_inv_hypothesis [OF h assms(1) p])
  let ?cs = "map (\<lambda>e. \<lparr>he_hypothesis = hyp_id h, he_evidence = e, he_run = run_id run\<rparr>) (remdups cited)"
  have t1: "hypotheses (work w1) = hypotheses (work w) @ [h]" "citations (work w1) = citations (work w) @ ?cs"
    "runs (work w1) = runs (work w)" "recommendations (work w1) = recommendations (work w)"
    by (simp_all add: he(5) analysis_hypothesis_create_def)
  have hr: "hyp_run h = run_id run" "hyp_root_cause h = ''deployment_regression''" "hyp_confidence h = Fin c"
    by (simp_all add: he(3) hypothesis_row_def analysis_hypothesis_create_def)
  let ?q = "analysis_recommendation_create py k (hyp_id h)"
  obtain x xs where x: "cited = x # xs" using assms(5) by (cases cited) auto
  then have xc: "\<lparr>he_hypothesis = hyp_id h, he_evidence = x, he_run = run_id run\<rparr> \<in> set (citations (work w1))"
    unfolding t1(2) by (simp add: image_iff)
  have g1: "get_run w1 (run_id run) = Some run" using assms(2) by (simp add: t1(3))
  obtain rc w2 where rc: "record_recommendation (run_id run) ?q w1 = (Inr rc, w2)"
    using record_recommendation_total [OF g1 system_invD(4) [OF i1] _ hr(1) _ xc, of ?q]
    by (auto simp: t1(1) analysis_recommendation_create_def)
  note re = record_recommendation_effect [OF rc system_invD(2) [OF i1] analysis_creates_ok(2)]
  have i2: "system_inv py w2" by (rule system_inv_recommendation [OF rc i1 analysis_creates_ok(2)])
  have n2: "now_of w2 = now_of w" using he(6) re(6) by (simp add: same_outside_def now_of_def)
  obtain w3 where u: "utc_now w2 = (now_of w2, w3)" "system_inv py w3" "now_of w2 \<le> now_of w3"
    "work w3 = work w2" "keeps_records w2 w3" using clock_tick [OF i2] .
  let ?r = "run\<lparr>run_status := Run_COMPLETED, run_finished_at := Some (now_of w2), run_error_message := None\<rparr>"
  have g3: "get_run w3 (run_id run) = Some run" using g1 by (simp add: u(4) re(5))
  have f: "system_inv py (set_run ?r w3) \<and> get_run (set_run ?r w3) (run_id run) = Some ?r \<and>
      keeps_records w3 (set_run ?r w3) \<and> now_of (set_run ?r w3) = now_of w3 \<and>
      incidents (work (set_run ?r w3)) = incidents (work w3)"
    by (rule update_run [OF u(2) g3, where s = s]) (use assms(3,4) n2 u(3) in \<open>auto simp: same_run_def\<close>)
  have old: "(e, hyp_id h) \<notin> keys (\<lambda>c. (he_evidence c, he_hypothesis c)) (citations (work w))" for e
  proof
    assume "(e, hyp_id h) \<in> keys (\<lambda>c. (he_evidence c, he_hypothesis c)) (citations (work w))"
    then obtain d where d: "d \<in> set (citations (work w))" "he_hypothesis d = hyp_id h" by (auto simp: keys_def)
    then have "(hyp_id h, he_run d) \<in> hyp_runs (work w)"
      using system_invD(4) [OF assms(1)] by (auto simp: db_ok_def citations_ok_def)
    then have "hyp_id h \<in> keys hyp_id (hypotheses (work w))" by (auto simp: keys_def)
    then show False using new_keys(9) system_invD(3) [OF assms(1)] by (simp add: he(3) hypothesis_row_def)
  qed
  have cites: "{e. (e, hyp_id h) \<in> keys (\<lambda>c. (he_evidence c, he_hypothesis c)) (citations (work w1))} = set cited"
    using old by (auto simp: t1(2) keys_append keys_def [of _ ?cs] image_iff)
  have kr: "hypotheses (work (set_run ?r w3)) = hypotheses (work w) @ [h]"
    "recommendations (work (set_run ?r w3)) = recommendations (work w) @ [rc]"
    "citations (work (set_run ?r w3)) = citations (work w1)" "saved (set_run ?r w3) = saved w"
    using f u(5) he(6) re(6) by (simp_all add: keeps_records_def re(5) t1 same_outside_def)
  have rr: "rec_hypothesis rc = hyp_id h" "rec_run rc = run_id run" "rec_action_type rc = ''simulated_rollback''"
    "rec_status rc = ''proposed''" "rec_requires_approval rc"
    by (simp_all add: re(4) recommendation_row_def analysis_recommendation_create_def)
  show ?thesis
    unfolding propose_def using p analysis_creates_ok(2) f kr rr hr cites
    by (simp add: h rc u(1) Let_def proposed_def)
qed

subsection \<open>The whole analysis\<close>

definition supported :: "evidence list \<Rightarrow> rat \<Rightarrow> bool" where
  "supported ev threshold \<longleftrightarrow> deployment_regression ev \<and> 2 \<le> length (cited_ids ev) \<and>
     threshold \<le> analysis_confidence (length (cited_ids ev))"

lemma analysis_run_found:
  assumes "analysis_run w k p = Inr run" "world_ok w"
  shows "get_run w (run_id run) = Some run \<and> run_incident run = k"
proof (cases "an_agent_run p")
  case None
  then have "latest_run (work w) k = Some run" using assms(1) by (auto simp: analysis_run_def split: option.splits)
  then have "run \<in> set (sort_key (\<lambda>r. (- run_created_at r, - int (run_id r)))
      (filter (\<lambda>r. run_incident r = k) (runs (work w))))"
    unfolding latest_run_def by (rule first_row_Some_in)
  then have r: "run \<in> set (runs (work w))" "run_incident run = k" by auto
  have "distinct (map run_id (runs (work w)))" using world_okD [OF assms(2)] by (simp add: db_ok_def runs_ok_def)
  then show ?thesis using row_get_unique r by metis
next
  case (Some x)
  then show ?thesis using assms(1) by (auto simp: analysis_run_def dest: row_get_SomeD split: option.splits if_splits)
qed

lemma set_from_keys [simp]: "set (from_keys xs) = set xs"
  by (simp add: from_keys_def)

lemma set_run_evidence: "set (run_evidence d k) = {e \<in> set (evidences d). evd_run e = k}"
  by (auto simp: run_evidence_def)

lemma cited_in_run:
  assumes "x \<in> set (cited_ids (run_evidence d k))"
  shows "(x, k) \<in> evd_runs d"
  using assms by (auto simp: cited_ids_def ids_of_def set_run_evidence keys_def)

text \<open>
  The outcome: the run is always closed; a hypothesis and a recommendation are recorded exactly
  when the evidence supports them.
\<close>

definition analysis_outcome :: "world \<Rightarrow> world \<Rightarrow> uuid \<Rightarrow> analyze_request \<Rightarrow> analyze_response \<Rightarrow> bool" where
  "analysis_outcome w w' k p r \<longleftrightarrow>
     (let ev = run_evidence (work w) (az_run r) in
      az_incident r = k \<and> az_evidence_count r = length ev \<and>
      (\<exists>run. get_run w' (az_run r) = Some run \<and> run_incident run = k \<and> run_status run = az_status r \<and>
         run_finished_at run = Some (az_analyzed_at r)) \<and>
      (if supported ev (an_min_confidence p)
       then az_status r = Run_COMPLETED \<and>
         proposed w w' (az_run r) (cited_ids ev) (analysis_confidence (length (cited_ids ev))) r
       else az_status r = Run_INSUFFICIENT_EVIDENCE \<and> keeps_records w w' \<and>
         az_hypothesis r = None \<and> az_recommendation r = None))"

lemma insufficient_outcome:
  assumes "system_inv py w1" "keeps_records w w1" "get_run w1 (run_id run1) = Some q" "same_run run1 q"
    "run_started_at run1 = Some s" "s \<le> now_of w1" "run_incident q = k"
    "\<not> supported (run_evidence (work w) (run_id run1)) (an_min_confidence p)"
    "n = length (run_evidence (work w) (run_id run1))"
  shows "\<exists>r w'. insufficient_response k m n (insufficient run1 em w1) = (Inr r, w') \<and> system_inv py w' \<and>
    saved w' = saved w \<and> analysis_outcome w w' k p r"
proof -
  obtain run' w' where i: "insufficient run1 em w1 = (run', now_of w1, w')" "system_inv py w'" "keeps_records w1 w'"
    "get_run w' (run_id run1) = Some run'" "run_id run' = run_id run1" "run_incident run' = run_incident q"
    "run_status run' = Run_INSUFFICIENT_EVIDENCE" "run_finished_at run' = Some (now_of w1)"
    using insufficient_effect [OF assms(1,3-6), of em] by auto
  have k: "keeps_records w w'" using keeps_records_trans assms(2) i(3) by blast
  then show ?thesis
    using i assms(7-9) by (simp add: insufficient_response_def analysis_outcome_def Let_def keeps_records_def)
qed

lemma analyze_outcome:
  assumes "system_inv py w"
  shows "(\<exists>x. analyze_incident py k p w = (Inl (InvestigationNotFoundError x), w)) \<or>
    (\<exists>r w'. analyze_incident py k p w = (Inr r, w') \<and> system_inv py w' \<and> saved w' = saved w \<and>
       analysis_outcome w w' k p r)"
proof (cases "get_incident w k")
  case None
  then show ?thesis by (simp add: analyze_incident_def)
next
  case (Some incident)
  show ?thesis
  proof (cases "analysis_run w k p")
    case (Inl x)
    then have "\<exists>m. x = InvestigationNotFoundError m"
      by (auto simp: analysis_run_def split: option.splits if_splits)
    then show ?thesis using Some Inl by (auto simp: analyze_incident_def)
  next
    case (Inr run)
    note g = analysis_run_found [OF Inr system_invD(3) [OF assms]]
    let ?ev = "run_evidence (work w) (run_id run)"
    note a = analyze_incident_def [of py k p w, unfolded Some Inr option.case sum.case Let_def]
    show ?thesis
    proof (cases "?ev = []")
      case True
      obtain s w1 where s: "started_or_now run w = (s, w1)" by fastforce
      note e = started_or_now_effect [OF assms conjunct1 [OF g] s]
      have n: "\<not> supported ?ev (an_min_confidence p)"
        using True by (simp add: supported_def deployment_regression_def ids_of_def)
      have "\<exists>r w'. insufficient_response k ''Insufficient evidence to determine a reliable root cause.'' 0
          (insufficient (run\<lparr>run_started_at := Some s\<rparr>) ''No evidence was collected for this run.'' w1) = (Inr r, w') \<and>
          system_inv py w' \<and> saved w' = saved w \<and> analysis_outcome w w' k p r"
        by (rule insufficient_outcome [where q = run and s = s]) (use e g n True in \<open>simp_all add: same_run_def\<close>)
      then show ?thesis unfolding a using True by (simp add: s)
    next
      case False
      obtain run1 w1 s where b: "begin_analysis incident run w = (run1, w1)" "system_inv py w1" "keeps_records w w1"
        "get_run w1 (run_id run) = Some run1" "same_run run1 run" "run_started_at run1 = Some s" "s \<le> now_of w1"
        using begin_analysis_effect [OF assms conjunct1 [OF g] Some] by blast
      have r1: "run_id run1 = run_id run" "run_incident run1 = k" using b(5) g by (simp_all add: same_run_def)
      have ins: "\<exists>r w'. insufficient_response k m (length ?ev) (insufficient run1 em w1) = (Inr r, w') \<and>
          system_inv py w' \<and> saved w' = saved w \<and> analysis_outcome w w' k p r"
        if "\<not> supported ?ev (an_min_confidence p)" for m em
        by (rule insufficient_outcome [where q = run1 and s = s]) (use b r1 that in \<open>simp_all add: same_run_def\<close>)
      show ?thesis
      proof (cases "supported ?ev (an_min_confidence p)")
        case True
        let ?c = "cited_ids ?ev" and ?x = "analysis_confidence (length (cited_ids ?ev))"
        have l: "2 \<le> length ?c" "\<not> ?x < an_min_confidence p" "deployment_regression ?ev"
          using True by (auto simp: supported_def)
        have u: "0 \<le> ?x" "?x \<le> 1"
          using analysis_confidence_two analysis_confidence_mono [OF l(1)] analysis_confidence_le [of "length ?c"] cap_in_unit(1)
          by linarith+
        have ci: "\<forall>x \<in> set ?c. (x, run_id run1) \<in> evd_runs (work w1)"
          using cited_in_run [of _ "work w" "run_id run"] b(3) by (simp add: r1(1) keeps_records_def)
        have ne: "?c \<noteq> []" using l(1) by auto
        have g1: "get_run w1 (run_id run1) = Some run1" using b(4) by (simp add: r1(1))
        obtain r w' where p: "propose py k run1 ?c ?x (length ?ev) w1 = (Inr r, w')" "system_inv py w'"
          "saved w' = saved w1" "az_run r = run_id run1" "az_status r = Run_COMPLETED"
          "az_evidence_count r = length ?ev" "az_incident r = k"
          "\<exists>run'. get_run w' (run_id run1) = Some run' \<and> run_incident run' = run_incident run1 \<and>
             run_status run' = Run_COMPLETED \<and> run_finished_at run' = Some (az_analyzed_at r)"
          "proposed w1 w' (run_id run1) ?c ?x r"
          using propose_effect [OF b(2) g1 b(6,7) ne u ci, of k "length ?ev"] by blast
        have "proposed w w' (run_id run1) ?c ?x r" using p(9) b(3) by (simp add: proposed_def keeps_records_def)
        then have "analysis_outcome w w' k p r"
          using p r1 True by (simp add: analysis_outcome_def Let_def)
        moreover have "analyze_incident py k p w = (Inr r, w')"
          unfolding a using False l p(1) by (simp add: b(1))
        ultimately show ?thesis using p(2,3) b(3) by (simp add: keeps_records_def)
      next
        case False2: False
        show ?thesis
        proof (cases "deployment_regression ?ev \<and> 2 \<le> length (cited_ids ?ev)")
          case True
          then have "analysis_confidence (length (cited_ids ?ev)) < an_min_confidence p"
            using False2 by (auto simp: supported_def)
          then show ?thesis unfolding a using False True ins [OF False2] by (simp add: b(1))
        next
          case f: False
          then have "\<not> deployment_regression ?ev \<or> length (cited_ids ?ev) < 2" by auto
          then show ?thesis unfolding a using False ins [OF False2] by (simp add: b(1))
        qed
      qed
    qed
  qed
qed

text \<open>C22: The analyzer proposes exactly when the evidence supports it, and what it proposes rests on
  that evidence. It is refused (no incident, no such run, nothing collected yet) with nothing
  changed; else the run of the incident is closed at the time it reports, and a hypothesis and a
  rollback are recorded, COMPLETED, exactly when there is deployment evidence with corroboration,
  at least two citations and a score not below the threshold. The hypothesis cites the deployment,
  metric and log evidence of that run, each once and nothing else, with the computed score; the
  recommendation belongs to it and waits for approval. Otherwise no record is added. Nothing is
  committed, and the invariant of the system is kept.\<close>

theorem analysis_grounded:
  assumes "system_inv py w" "analyze_incident py k p w = (out, w')"
  shows "system_inv py w' \<and> saved w' = saved w \<and>
    (case out of
       Inl x \<Rightarrow> w' = w \<and> (\<exists>m. x = InvestigationNotFoundError m)
     | Inr r \<Rightarrow> analysis_outcome w w' k p r)"
  using analyze_outcome [OF assms(1), of k p] assms by auto

text \<open>The pass of \<open>demo_collect\<close>: a metric, no logs, and no deployment at all.\<close>

definition demo_collected :: world where
  "demo_collected = fst (snd demo_collect)"

lemma demo_collected_inv: "system_inv demo_pylib demo_collected"
proof -
  obtain out w' e' where d: "demo_collect = (out, w', e')" by (metis prod.collapse)
  show ?thesis
    using collection_outcome [OF d [unfolded demo_collect_def] alerted_world_inv] by (simp add: demo_collected_def d)
qed

definition demo_analyze :: analyze_request where
  "demo_analyze = \<lparr>an_agent_run = None, an_min_confidence = 3 / 5\<rparr>"

lemma demo_analysis_runs:
  "case analyze_incident demo_pylib 2 demo_analyze demo_collected of
     (Inr r, w') \<Rightarrow> az_status r = Run_COMPLETED \<and> az_run r = 4 \<and> map hyp_root_cause (hypotheses (work w')) = [''deployment_regression'']
   | _ \<Rightarrow> False"
  by code_simp

theorem analysis_grounded_witness:
  "case analyze_incident demo_pylib 2 demo_analyze demo_collected of
     (Inr r, w') \<Rightarrow> az_status r = Run_COMPLETED \<and> analysis_outcome demo_collected w' 2 demo_analyze r
   | _ \<Rightarrow> False"
proof -
  obtain out w' where a: "analyze_incident demo_pylib 2 demo_analyze demo_collected = (out, w')" by fastforce
  show ?thesis
    using demo_analysis_runs analysis_grounded [OF demo_collected_inv a] by (auto simp: a split: sum.splits)
qed

subsection \<open>A deployment regression without a deployment\<close>

lemma length_from_keys: "length (from_keys xs) = card (set xs)"
  by (simp add: from_keys_def length_remdups_card_conv)

lemma cited_two:
  assumes "db_ok d" "a \<in> set (evidences d)" "b \<in> set (evidences d)" "evd_run a = k" "evd_run b = k"
    "evd_source_type a = DEPLOYMENT" "evd_source_type b \<in> {METRIC, LOG}"
  shows "2 \<le> length (cited_ids (run_evidence d k)) \<and> deployment_regression (run_evidence d k)"
proof -
  let ?ev = "run_evidence d k"
  have ab: "a \<in> set ?ev" "b \<in> set ?ev" using assms by (simp_all add: set_run_evidence)
  have "a \<noteq> b" using assms(6,7) by auto
  then have ne: "evd_id a \<noteq> evd_id b"
    using same_key [of evd_id "evidences d" a b] assms(1-3) by (auto simp: db_ok_def evidences_ok_def)
  have da: "evd_id a \<in> set (ids_of DEPLOYMENT ?ev)" using ab(1) assms(6) by (auto simp: ids_of_def)
  have mb: "evd_id b \<in> set (ids_of METRIC ?ev) \<union> set (ids_of LOG ?ev)" using ab(2) assms(7) by (auto simp: ids_of_def)
  have "{evd_id a, evd_id b} \<subseteq> set (cited_ids ?ev)" using da mb by (auto simp: cited_ids_def)
  then have "card {evd_id a, evd_id b} \<le> card (set (cited_ids ?ev))" by (intro card_mono) simp_all
  then have "2 \<le> card (set (cited_ids ?ev))" using ne by simp
  moreover have "length (cited_ids ?ev) = card (set (cited_ids ?ev))"
    unfolding cited_ids_def set_from_keys by (rule length_from_keys)
  moreover have "deployment_regression ?ev"
    using da mb by (auto simp: deployment_regression_def)
  ultimately show ?thesis by simp
qed

text \<open>C23: The rules look at the kinds of evidence, not at what it says. A run with one deployment
  evidence whose history is empty (no deployment in the window) and one metric or log evidence is
  diagnosed as a deployment regression, with a rollback proposed, at every threshold up to 0.75.\<close>

theorem analysis_blames_empty_history:
  assumes "system_inv py w" "analyze_incident py k p w = (Inr r, w')" "an_min_confidence p \<le> 3 / 4"
    "a \<in> set (evidences (work w))" "b \<in> set (evidences (work w))" "evd_run a = az_run r" "evd_run b = az_run r"
    "evd_source_type a = DEPLOYMENT" "evd_raw_data a = [(''deployments'', JList [])]"
    "evd_source_type b \<in> {METRIC, LOG}"
  shows "az_status r = Run_COMPLETED \<and>
    (\<exists>h \<in> set (hypotheses (work w')). hyp_run h = az_run r \<and> hyp_root_cause h = ''deployment_regression'') \<and>
    (\<exists>rc \<in> set (recommendations (work w')). rec_run rc = az_run r \<and> rec_action_type rc = ''simulated_rollback'')"
proof -
  have o: "analysis_outcome w w' k p r" using analyze_outcome [OF assms(1), of k p] assms(2) by auto
  let ?ev = "run_evidence (work w) (az_run r)"
  have c: "2 \<le> length (cited_ids ?ev) \<and> deployment_regression ?ev"
    by (rule cited_two [OF system_invD(4) [OF assms(1)] assms(4-8,10)])
  then have "3 / 4 \<le> analysis_confidence (length (cited_ids ?ev))"
    using analysis_confidence_two analysis_confidence_mono by (meson order_trans)
  then have "supported ?ev (an_min_confidence p)" using c assms(3) by (simp add: supported_def)
  then show ?thesis using o by (auto simp: analysis_outcome_def Let_def proposed_def)
qed

theorem analysis_blames_empty_history_witness:
  "case analyze_incident demo_pylib 2 demo_analyze demo_collected of
     (Inr r, w') \<Rightarrow> az_status r = Run_COMPLETED \<and>
       (\<exists>h \<in> set (hypotheses (work w')). hyp_run h = az_run r \<and> hyp_root_cause h = ''deployment_regression'')
   | _ \<Rightarrow> False"
proof -
  have e: "case filter (\<lambda>e. evd_source_type e = DEPLOYMENT) (evidences (work demo_collected)) of
      [a] \<Rightarrow> evd_run a = 4 \<and> evd_raw_data a = [(''deployments'', JList [])] | _ \<Rightarrow> False"
    "case filter (\<lambda>e. evd_source_type e = METRIC) (evidences (work demo_collected)) of [b] \<Rightarrow> evd_run b = 4 | _ \<Rightarrow> False"
    by code_simp+
  obtain a where a: "a \<in> set (evidences (work demo_collected))" "evd_source_type a = DEPLOYMENT" "evd_run a = 4"
    "evd_raw_data a = [(''deployments'', JList [])]"
    using e(1) by (auto split: list.splits simp: filter_eq_Cons_iff)
  obtain b where b: "b \<in> set (evidences (work demo_collected))" "evd_source_type b = METRIC" "evd_run b = 4"
    using e(2) by (auto split: list.splits simp: filter_eq_Cons_iff)
  obtain r w' where o: "analyze_incident demo_pylib 2 demo_analyze demo_collected = (Inr r, w')" "az_run r = 4"
    using demo_analysis_runs by (auto split: prod.splits sum.splits)
  have t: "an_min_confidence demo_analyze \<le> 3 / 4" by (simp add: demo_analyze_def)
  show ?thesis
    using analysis_blames_empty_history [OF demo_collected_inv o(1) t a(1) b(1) _ _ a(2,4)] a b o
    by simp
qed

end
