(* ===== verification/Py_Text.thy ===== *)
theory Py_Text
  imports Runtime
begin

section \<open>Texts of Python values\<close>

text \<open>
  The text operations of the Python runtime that the agent uses: \<open>repr\<close> and \<open>str\<close> of a JSON-like
  value, \<open>json.dumps(value, indent=2)\<close>, \<open>str.splitlines\<close>, \<open>str.title\<close>, the words of a text
  (\<open>re.findall(r"\w+", text)\<close>), \<open>f"{x:.0%}"\<close> and \<open>round(x, 2)\<close>. Characters are ASCII.
\<close>

subsection \<open>\<open>repr\<close> and \<open>str\<close>\<close>

definition repr_char :: "char \<Rightarrow> char \<Rightarrow> str" where
  "repr_char q c =
     (if c = q \<or> c = CHR 0x5C then [CHR 0x5C, c]
      else if c = CHR 0x0A then [CHR 0x5C, CHR ''n'']
      else if c = CHR 0x0D then [CHR 0x5C, CHR ''r'']
      else if c = CHR 0x09 then [CHR 0x5C, CHR ''t'']
      else if of_char c < (32::nat) \<or> of_char c > (126::nat)
        then [CHR 0x5C, CHR ''x'', hex_digit (of_char c div 16), hex_digit (of_char c mod 16)]
      else [c])"

definition repr_str :: "str \<Rightarrow> str" where
  "repr_str s =
     (let q = (if CHR 0x27 \<in> set s \<and> CHR 0x22 \<notin> set s then CHR 0x22 else CHR 0x27)
      in q # concat (map (repr_char q) s) @ [q])"

fun py_repr :: "pylib \<Rightarrow> json \<Rightarrow> str" where
  "py_repr py JNull = ''None''"
| "py_repr py (JBool b) = (if b then ''True'' else ''False'')"
| "py_repr py (JInt i) = str_int i"
| "py_repr py (JFloat f) = float_text py f"
| "py_repr py (JStr s) = repr_str s"
| "py_repr py (JList xs) = ''['' @ join '', '' (map (py_repr py) xs) @ '']''"
| "py_repr py (JObj kvs) = ''{'' @ join '', '' (map (\<lambda>kv. repr_str (fst kv) @ '': '' @ py_repr py (snd kv)) kvs) @ ''}''"

fun py_str :: "pylib \<Rightarrow> json \<Rightarrow> str" where
  "py_str py (JStr s) = s"
| "py_str py v = py_repr py v"

text \<open>Iterating over a value: a list, the characters of a text, the keys of a dict; else TypeError.\<close>

fun py_iter :: "json \<Rightarrow> exn + json list" where
  "py_iter (JList xs) = Inr xs"
| "py_iter (JStr s) = Inr (map (\<lambda>c. JStr [c]) s)"
| "py_iter (JObj kvs) = Inr (map (\<lambda>kv. JStr (fst kv)) kvs)"
| "py_iter _ = Inl (TypeErr ''object is not iterable'')"

text \<open>\<open>hash(v)\<close> works: lists and dicts are unhashable, which a lookup in a set finds out.\<close>

fun hashable :: "json \<Rightarrow> bool" where
  "hashable (JList _) = False"
| "hashable (JObj _) = False"
| "hashable _ = True"

subsection \<open>Indented JSON\<close>

definition json_float :: "pylib \<Rightarrow> pyfloat \<Rightarrow> str" where
  "json_float py f = (case f of Fin _ \<Rightarrow> float_text py f | NaN \<Rightarrow> ''NaN'' | PInf \<Rightarrow> ''Infinity'' | NInf \<Rightarrow> ''-Infinity'')"

definition newline_indent :: "nat \<Rightarrow> str" where
  "newline_indent n = CHR 0x0A # replicate (2 * n) CHR '' ''"

fun dumps_at :: "pylib \<Rightarrow> nat \<Rightarrow> json \<Rightarrow> str" where
  "dumps_at py n JNull = ''null''"
| "dumps_at py n (JBool b) = (if b then ''true'' else ''false'')"
| "dumps_at py n (JInt i) = str_int i"
| "dumps_at py n (JFloat f) = json_float py f"
| "dumps_at py n (JStr s) = quote s"
| "dumps_at py n (JList xs) =
     (if xs = [] then ''[]''
      else ''['' @ newline_indent (Suc n) @ join ('','' @ newline_indent (Suc n)) (map (dumps_at py (Suc n)) xs) @
        newline_indent n @ '']'')"
| "dumps_at py n (JObj kvs) =
     (if kvs = [] then ''{}''
      else ''{'' @ newline_indent (Suc n) @
        join ('','' @ newline_indent (Suc n)) (map (\<lambda>kv. quote (fst kv) @ '': '' @ dumps_at py (Suc n) (snd kv)) kvs) @
        newline_indent n @ ''}'')"

definition dumps_indent :: "pylib \<Rightarrow> json \<Rightarrow> str" where
  "dumps_indent py v = dumps_at py 0 v"

subsection \<open>Words, lines, titles\<close>

definition is_letter :: "char \<Rightarrow> bool" where
  "is_letter c \<longleftrightarrow> CHR ''A'' \<le> c \<and> c \<le> CHR ''Z'' \<or> CHR ''a'' \<le> c \<and> c \<le> CHR ''z''"

definition is_word :: "char \<Rightarrow> bool" where
  "is_word c \<longleftrightarrow> is_letter c \<or> CHR ''0'' \<le> c \<and> c \<le> CHR ''9'' \<or> c = CHR ''_''"

text \<open>The maximal runs of characters that satisfy \<open>p\<close>.\<close>

function runs_of :: "(char \<Rightarrow> bool) \<Rightarrow> str \<Rightarrow> str list" where
  "runs_of p s = (case dropWhile (\<lambda>c. \<not> p c) s of
     [] \<Rightarrow> []
   | c # r \<Rightarrow> takeWhile p (c # r) # runs_of p (dropWhile p r))"
  by auto
termination
proof (relation "measure (\<lambda>(p, s). length s)")
  fix p s c r assume "dropWhile (\<lambda>c. \<not> p c) s = c # r"
  then have "length (c # r) \<le> length s" by (metis length_dropWhile_le)
  moreover have "length (dropWhile p r) \<le> length r" by (rule length_dropWhile_le)
  ultimately show "((p, dropWhile p r), p, s) \<in> measure (\<lambda>(p, s). length s)" by simp
qed simp

declare runs_of.simps [simp del]

definition words :: "str \<Rightarrow> str list" where
  "words s = runs_of is_word s"

definition is_line_end :: "char \<Rightarrow> bool" where
  "is_line_end c \<longleftrightarrow> c \<in> {CHR 0x0A, CHR 0x0B, CHR 0x0C, CHR 0x0D, CHR 0x1C, CHR 0x1D, CHR 0x1E}"

text \<open>\<open>str.splitlines\<close>: the lines without their ends; no empty line after a final end.\<close>

function splitlines :: "str \<Rightarrow> str list" where
  "splitlines s = (if s = [] then [] else
     (case dropWhile (\<lambda>c. \<not> is_line_end c) s of
        [] \<Rightarrow> [s]
      | e # r \<Rightarrow> takeWhile (\<lambda>c. \<not> is_line_end c) s #
          splitlines (if e = CHR 0x0D \<and> r \<noteq> [] \<and> hd r = CHR 0x0A then tl r else r)))"
  by auto
termination
proof (relation "measure length")
  fix s e r assume "dropWhile (\<lambda>c. \<not> is_line_end c) s = e # r"
  then have "length (e # r) \<le> length s" by (metis length_dropWhile_le)
  then show "(if e = CHR 0x0D \<and> r \<noteq> [] \<and> hd r = CHR 0x0A then tl r else r, s) \<in> measure length"
    by (auto simp: length_tl)
qed simp

declare splitlines.simps [simp del]

definition upper_char :: "char \<Rightarrow> char" where
  "upper_char c = (if CHR ''a'' \<le> c \<and> c \<le> CHR ''z'' then char_of (of_char c - (32::nat)) else c)"

text \<open>\<open>str.title\<close>: a letter after a non-letter in upper case, a letter after a letter in lower case.\<close>

fun title_from :: "bool \<Rightarrow> str \<Rightarrow> str" where
  "title_from inside [] = []"
| "title_from inside (c # s) =
     (if is_letter c then (if inside then lower_char c else upper_char c) # title_from True s
      else c # title_from False s)"

definition title_case :: "str \<Rightarrow> str" where
  "title_case s = title_from False s"

subsection \<open>Python's float of a text\<close>

text \<open>
  \<open>float(value)\<close>: white space around, a sign, \<open>inf\<close>, \<open>infinity\<close> or \<open>nan\<close> in any case, or a decimal
  with underscores only between digits, an optional fraction and an optional exponent.
  \<open>digit_run\<close> reads a run of digits and underscores and gives the digits, when it is well formed.
\<close>

definition is_digit :: "char \<Rightarrow> bool" where
  "is_digit c \<longleftrightarrow> CHR ''0'' \<le> c \<and> c \<le> CHR ''9''"

fun digit_run :: "str \<Rightarrow> str option" where
  "digit_run [] = Some []"
| "digit_run (c # s) =
     (if is_digit c
      then (case s of
          d # s' \<Rightarrow> if d = CHR ''_'' then (if s' \<noteq> [] \<and> is_digit (hd s') then map_option (Cons c) (digit_run s') else None)
                     else map_option (Cons c) (digit_run s)
        | [] \<Rightarrow> Some [c])
      else None)"

definition number_of :: "str \<Rightarrow> nat" where
  "number_of ds = foldl (\<lambda>n c. 10 * n + (of_char c - 48)) 0 ds"

definition split_at :: "(char \<Rightarrow> bool) \<Rightarrow> str \<Rightarrow> str \<times> str option" where
  "split_at p s = (case dropWhile (\<lambda>c. \<not> p c) s of
     [] \<Rightarrow> (s, None) | _ # r \<Rightarrow> (takeWhile (\<lambda>c. \<not> p c) s, Some r))"

definition sign_of :: "str \<Rightarrow> int \<times> str" where
  "sign_of s = (case s of
     c # r \<Rightarrow> if c = CHR ''-'' then (-1, r) else if c = CHR ''+'' then (1, r) else (1, s)
   | [] \<Rightarrow> (1, s))"

definition parse_exponent :: "str option \<Rightarrow> int option" where
  "parse_exponent e = (case e of None \<Rightarrow> Some 0
     | Some s \<Rightarrow> (case sign_of s of (sg, ds) \<Rightarrow>
         if ds = [] then None else map_option (\<lambda>n. sg * int (number_of n)) (digit_run ds)))"

definition ten_to :: "int \<Rightarrow> rat" where
  "ten_to e = (if 0 \<le> e then 10 ^ nat e else 1 / 10 ^ nat (- e))"

text \<open>A double overflows to infinity from \<open>2^1024 - 2^970\<close> on.\<close>

definition to_double :: "rat \<Rightarrow> pyfloat" where
  "to_double x = (if x \<ge> 2 ^ 1024 - 2 ^ 970 then PInf else if x \<le> - (2 ^ 1024 - 2 ^ 970) then NInf else Fin (fl x))"

definition parse_decimal :: "int \<Rightarrow> str \<Rightarrow> pyfloat option" where
  "parse_decimal sg s =
     (let (m, e) = split_at (\<lambda>c. c = CHR ''e'' \<or> c = CHR ''E'') s;
          (i, f) = split_at (\<lambda>c. c = CHR ''.'') m
      in (case (digit_run i, (case f of None \<Rightarrow> Some [] | Some g \<Rightarrow> digit_run g), parse_exponent e) of
            (Some is, Some fs, Some x) \<Rightarrow>
              if is = [] \<and> fs = [] then None
              else Some (to_double (of_int sg * of_nat (number_of (is @ fs)) * ten_to (x - int (length fs))))
          | _ \<Rightarrow> None))"

definition parse_float :: "str \<Rightarrow> pyfloat option" where
  "parse_float s =
     (case sign_of (strip s) of (sg, r) \<Rightarrow>
        if lower r = ''inf'' \<or> lower r = ''infinity'' then Some (if sg < 0 then NInf else PInf)
        else if lower r = ''nan'' then Some NaN
        else parse_decimal sg r)"

definition as_float :: "str option \<Rightarrow> pyfloat option" where
  "as_float v = (case v of None \<Rightarrow> None | Some s \<Rightarrow> parse_float s)"

subsection \<open>Numbers in texts\<close>

definition percent :: "pyfloat \<Rightarrow> str" where
  "percent f = (case f of Fin x \<Rightarrow> (if x < 0 then ''-'' else []) @ str_int (round_half_even (fmul \<bar>x\<bar> 100)) @ ''%''
     | NaN \<Rightarrow> ''nan%'' | PInf \<Rightarrow> ''inf%'' | NInf \<Rightarrow> ''-inf%'')"

definition round2 :: "rat \<Rightarrow> rat" where
  "round2 x = fl (of_int (round_half_even (x * 100)) / 100)"

subsection \<open>Facts\<close>

lemma join_sep_length: "xs \<noteq> [] \<Longrightarrow> length (join sep xs) = sum_list (map length xs) + (length xs - 1) * length sep"
  by (induction sep xs rule: join.induct) auto

lemma runs_of_word:
  assumes "x \<in> set (runs_of p s)"
  shows "x \<noteq> [] \<and> (\<forall>c \<in> set x. p c)"
  using assms
proof (induction p s rule: runs_of.induct)
  case (1 p s)
  show ?case
  proof (cases "dropWhile (\<lambda>c. \<not> p c) s")
    case Nil
    have "runs_of p s = []" by (subst runs_of.simps) (simp add: Nil del: dropWhile_eq_Nil_conv)
    then show ?thesis using "1.prems" by simp
  next
    case (Cons c r)
    have c: "p c" using hd_dropWhile [of "\<lambda>c. \<not> p c" s] Cons by simp
    have "runs_of p s = takeWhile p (c # r) # runs_of p (dropWhile p r)"
      by (subst runs_of.simps) (simp add: Cons)
    then consider "x = takeWhile p (c # r)" | "x \<in> set (runs_of p (dropWhile p r))"
      using "1.prems" by auto
    then show ?thesis
    proof cases
      case 1
      then show ?thesis using c by (auto dest: set_takeWhileD)
    next
      case 2
      then show ?thesis by (rule "1.IH" [OF Cons])
    qed
  qed
qed

lemma splitlines_line:
  assumes "\<forall>c \<in> set l. \<not> is_line_end c"
  shows "splitlines (l @ CHR 0x0A # r) = l # splitlines r"
proof -
  have d: "dropWhile (\<lambda>c. \<not> is_line_end c) (l @ CHR 0x0A # r) = CHR 0x0A # r"
    using assms by (simp add: dropWhile_append2 is_line_end_def)
  have t: "takeWhile (\<lambda>c. \<not> is_line_end c) (l @ CHR 0x0A # r) = l"
    using assms by (simp add: takeWhile_append2 is_line_end_def)
  show ?thesis by (subst splitlines.simps) (simp add: d t)
qed

lemma splitlines_last:
  assumes "\<forall>c \<in> set l. \<not> is_line_end c" "l \<noteq> []"
  shows "splitlines l = [l]"
proof -
  have "dropWhile (\<lambda>c. \<not> is_line_end c) l = []" using assms(1) by simp
  then show ?thesis using assms(2) by (subst splitlines.simps) (simp del: dropWhile_eq_Nil_conv)
qed

end
