(* ===== verification/Alertmanager.thy ===== *)
theory Alertmanager
  imports Invariant Py_Text
begin

section \<open>The Alertmanager webhook\<close>

text \<open>
  \<open>apps/api/app/api/v1/integrations.py\<close> and \<open>schemas/alertmanager.py\<close>: a webhook delivers a batch
  of alerts; the firing ones are translated into ingestion requests and ingested one by one, each
  committed on its own. \<open>snake_case\<close>, \<open>as_float\<close> and \<open>to_ingest_request\<close> are the translation,
  \<open>receive_webhook\<close> the loop. A \<open>dict[str, str]\<close> is an association list with one entry per key.
\<close>

record am_alert =
  aa_status :: str
  aa_labels :: "(str \<times> str) list"
  aa_annotations :: "(str \<times> str) list"
  aa_starts_at :: datetime
  aa_ends_at :: "datetime option"
  aa_generator_url :: "str option"
  aa_fingerprint :: "str option"

record am_webhook =
  aw_version :: "str option"
  aw_status :: str
  aw_receiver :: "str option"
  aw_group_labels :: "(str \<times> str) list"
  aw_common_labels :: "(str \<times> str) list"
  aw_common_annotations :: "(str \<times> str) list"
  aw_alerts :: "am_alert list"

record webhook_response =
  wr_received :: nat
  wr_ingested :: nat
  wr_duplicates :: nat
  wr_ignored :: nat
  wr_incident_ids :: "str list"

subsection \<open>Texts\<close>

definition is_upper :: "char \<Rightarrow> bool" where
  "is_upper c \<longleftrightarrow> CHR ''A'' \<le> c \<and> c \<le> CHR ''Z''"

definition is_alnum :: "char \<Rightarrow> bool" where
  "is_alnum c \<longleftrightarrow> is_upper c \<or> CHR ''a'' \<le> c \<and> c \<le> CHR ''z'' \<or> CHR ''0'' \<le> c \<and> c \<le> CHR ''9''"

text \<open>\<open>re.sub(r"(?<!^)(?=[A-Z])", "_", value)\<close>: an underscore before every capital but the first character.\<close>

definition separate_capitals :: "str \<Rightarrow> str" where
  "separate_capitals s =
     (case s of [] \<Rightarrow> []
      | c # r \<Rightarrow> c # concat (map (\<lambda>d. if is_upper d then [CHR ''_'', d] else [d]) r))"

text \<open>\<open>re.sub(r"[^a-zA-Z0-9]+", "_", s)\<close>: every run of other characters becomes one underscore.\<close>

fun collapse :: "str \<Rightarrow> str" where
  "collapse [] = []"
| "collapse (c # s) =
     (if is_alnum c then c # collapse s
      else (case s of [] \<Rightarrow> [CHR ''_'']
            | d # _ \<Rightarrow> if is_alnum d then CHR ''_'' # collapse s else collapse s))"

definition snake_case :: "str \<Rightarrow> str" where
  "snake_case s = lower (strip_by (\<lambda>c. c = CHR ''_'') (collapse (separate_capitals s)))"

subsection \<open>The translation\<close>

definition SEVERITY_MAP :: "str \<Rightarrow> severity option" where
  "SEVERITY_MAP s = (if s = ''info'' then Some LOW else if s = ''warning'' then Some HIGH
     else if s = ''critical'' then Some CRITICAL else None)"

text \<open>\<open>d.get(k1) or d.get(k2) or ... or dflt\<close>: the first value that is there and not empty.\<close>

fun first_label :: "(str \<times> str) list \<Rightarrow> str list \<Rightarrow> str \<Rightarrow> str" where
  "first_label labels [] dflt = dflt"
| "first_label labels (k # ks) dflt =
     (case map_of labels k of Some (c # v) \<Rightarrow> c # v | _ \<Rightarrow> first_label labels ks dflt)"

text \<open>\<open>{**d, k: v}\<close>: in its place when the key is there, at the end otherwise.\<close>

definition dict_with :: "(str \<times> 'v) list \<Rightarrow> str \<Rightarrow> 'v \<Rightarrow> (str \<times> 'v) list" where
  "dict_with d k v = (if k \<in> fst ` set d then map (\<lambda>(k', v'). (k', if k' = k then v else v')) d else d @ [(k, v)])"

definition alert_external_id :: "pylib \<Rightarrow> am_alert \<Rightarrow> str option" where
  "alert_external_id py a =
     (case aa_fingerprint a of
        Some (c # f) \<Rightarrow> Some (take 128 (''alertmanager:'' @ (c # f) @ '':'' @ iso_text py (aa_starts_at a)))
      | _ \<Rightarrow> None)"

definition ingest_request_of :: "pylib \<Rightarrow> am_alert \<Rightarrow> alert_request" where
  "ingest_request_of py a =
     \<lparr>ar_service_name = first_label (aa_labels a) [''service_name'', ''service'', ''job''] ''unknown-service'',
      ar_alert_type = snake_case (first_label (aa_labels a) [''alert_type'', ''alertname''] ''unknown_alert''),
      ar_severity = (case SEVERITY_MAP (lower (case map_of (aa_labels a) ''severity'' of Some s \<Rightarrow> s | None \<Rightarrow> [])) of
                       Some s \<Rightarrow> s | None \<Rightarrow> MEDIUM),
      ar_started_at = aa_starts_at a, ar_labels = dict_with (aa_labels a) ''source'' ''alertmanager'',
      ar_observed_value = as_float (map_of (aa_annotations a) ''observed_value''),
      ar_threshold = as_float (map_of (aa_annotations a) ''threshold''),
      ar_external_id = alert_external_id py a\<rparr>"

definition to_ingest_request :: "pylib \<Rightarrow> am_alert \<Rightarrow> exn + alert_request" where
  "to_ingest_request py a =
     (let p = ingest_request_of py a in if alert_request_ok p then Inr p else Inl ValidationErr)"

subsection \<open>The loop\<close>

record webhook_counts =
  wc_ingested :: nat
  wc_duplicates :: nat
  wc_ignored :: nat
  wc_incident_ids :: "str list"

definition no_counts :: webhook_counts where
  "no_counts = \<lparr>wc_ingested = 0, wc_duplicates = 0, wc_ignored = 0, wc_incident_ids = []\<rparr>"

definition is_firing :: "am_webhook \<Rightarrow> am_alert \<Rightarrow> bool" where
  "is_firing payload a \<longleftrightarrow> \<not> (aw_status payload \<noteq> ''firing'' \<or> aa_status a \<noteq> ''firing'')"

definition count_result :: "str \<Rightarrow> bool \<Rightarrow> webhook_counts \<Rightarrow> webhook_counts" where
  "count_result incident_id duplicate c =
     (let c1 = (if incident_id \<notin> set (wc_incident_ids c)
                then c\<lparr>wc_incident_ids := wc_incident_ids c @ [incident_id]\<rparr> else c)
      in if duplicate then c1\<lparr>wc_duplicates := Suc (wc_duplicates c1)\<rparr>
         else c1\<lparr>wc_ingested := Suc (wc_ingested c1)\<rparr>)"

fun webhook_loop ::
    "pylib \<Rightarrow> int \<Rightarrow> am_webhook \<Rightarrow> am_alert list \<Rightarrow> webhook_counts \<Rightarrow> (world, webhook_counts) op" where
  "webhook_loop py ws payload [] c w = (Inr c, w)"
| "webhook_loop py ws payload (a # as) c w =
     (if \<not> is_firing payload a then webhook_loop py ws payload as (c\<lparr>wc_ignored := Suc (wc_ignored c)\<rparr>) w
      else (case to_ingest_request py a of
          Inl x \<Rightarrow> (Inl x, w)
        | Inr p \<Rightarrow> bind (ingest_alert py p ws w) (\<lambda>r w1.
            webhook_loop py ws payload as
              (count_result (uuid_text py (ir_incident_id r)) (ir_duplicate r) c) w1)))"

definition receive_webhook :: "pylib \<Rightarrow> settings \<Rightarrow> am_webhook \<Rightarrow> (world, webhook_response) op" where
  "receive_webhook py st payload w =
     bind (webhook_loop py (correlation_window_seconds st) payload (aw_alerts payload) no_counts w) (\<lambda>c w1.
       (Inr \<lparr>wr_received = length (aw_alerts payload), wr_ingested = wc_ingested c,
          wr_duplicates = wc_duplicates c, wr_ignored = wc_ignored c,
          wr_incident_ids = wc_incident_ids c\<rparr>, w1))"

subsection \<open>Names in snake case\<close>

definition canonical_name :: "str \<Rightarrow> bool" where
  "canonical_name s \<longleftrightarrow> (\<forall>c \<in> set s. c = CHR ''_'' \<or> is_alnum c \<and> \<not> is_upper c) \<and>
     (s \<noteq> [] \<longrightarrow> hd s \<noteq> CHR ''_'' \<and> last s \<noteq> CHR ''_'') \<and>
     successively (\<lambda>a b. a \<noteq> CHR ''_'' \<or> b \<noteq> CHR ''_'') s"

lemma underscore_not_alnum [simp]: "\<not> is_alnum CHR ''_''" "\<not> is_upper CHR ''_''"
  by (simp_all add: is_alnum_def is_upper_def less_eq_char_def)

lemma collapse_steps [simp]:
  "is_alnum c \<Longrightarrow> collapse (c # s) = c # collapse s"
  "\<not> is_alnum c \<Longrightarrow> collapse [c] = ''_''"
  "\<not> is_alnum c \<Longrightarrow> is_alnum d \<Longrightarrow> collapse (c # d # t) = CHR ''_'' # collapse (d # t)"
  "\<not> is_alnum c \<Longrightarrow> \<not> is_alnum d \<Longrightarrow> collapse (c # d # t) = collapse (d # t)"
  by simp_all

declare collapse.simps(2) [simp del]

lemma collapse_head: "collapse (c # s) \<noteq> [] \<and> hd (collapse (c # s)) = (if is_alnum c then c else CHR ''_'')"
proof (induction s arbitrary: c)
  case Nil
  then show ?case by (cases "is_alnum c") simp_all
next
  case (Cons d t)
  then show ?case using Cons.IH [of d] by (cases "is_alnum c"; cases "is_alnum d") simp_all
qed

lemma collapse_chars: "c \<in> set (collapse s) \<Longrightarrow> c = CHR ''_'' \<or> is_alnum c"
proof (induction s)
  case (Cons d t)
  then show ?case by (cases "is_alnum d"; cases t; cases "is_alnum (hd t)") auto
qed simp

lemma collapse_no_double: "successively (\<lambda>a b. a \<noteq> CHR ''_'' \<or> b \<noteq> CHR ''_'') (collapse s)"
proof (induction s)
  case (Cons c s)
  have t: "successively (\<lambda>a b. a \<noteq> CHR ''_'' \<or> b \<noteq> CHR ''_'') (x # collapse (d # t))"
    if "x \<noteq> CHR ''_'' \<or> is_alnum d" "successively (\<lambda>a b. a \<noteq> CHR ''_'' \<or> b \<noteq> CHR ''_'') (collapse (d # t))" for x d t
    using that collapse_head [of d t] by (cases "collapse (d # t)") (auto simp: successively_Cons)
  have u: "is_alnum c \<Longrightarrow> c \<noteq> CHR ''_''" using underscore_not_alnum(1) by metis
  show ?case
  proof (cases s)
    case Nil
    then show ?thesis by (cases "is_alnum c") simp_all
  next
    case (Cons d r)
    then show ?thesis
      using t [of c d r] t [of "CHR ''_''" d r] Cons.IH u by (cases "is_alnum c"; cases "is_alnum d") simp_all
  qed
qed simp

lemma dropWhile_suffix: "\<exists>v. s = v @ dropWhile p s"
  by (metis takeWhile_dropWhile_id)

lemma hd_of_rev_suffix: "rev d = v @ u \<Longrightarrow> u \<noteq> [] \<Longrightarrow> d \<noteq> [] \<and> hd d = last u"
  using last_rev [of d] last_appendR [of u v] by (cases "d = []") auto

lemma strip_by_ends:
  assumes "strip_by p s \<noteq> []"
  shows "\<not> p (hd (strip_by p s)) \<and> \<not> p (last (strip_by p s))"
proof -
  obtain d where d: "d = dropWhile p s" by blast
  obtain u where u: "u = dropWhile p (rev d)" by blast
  have s: "strip_by p s = rev u" by (simp add: strip_by_def d u)
  then have ne: "u \<noteq> []" using assms by simp
  have l: "\<not> p (hd u)" using hd_dropWhile ne u by metis
  obtain v where "rev d = v @ u" using dropWhile_suffix u by metis
  then have "d \<noteq> []" "hd d = last u" using hd_of_rev_suffix ne by blast+
  then have "\<not> p (last u)" using hd_dropWhile d by metis
  then show ?thesis using l by (simp add: s ne hd_rev last_rev)
qed

lemma strip_by_infix: "\<exists>u v. s = u @ strip_by p s @ v"
proof -
  obtain a where a: "s = a @ dropWhile p s" using dropWhile_suffix by blast
  obtain b where "rev (dropWhile p s) = b @ dropWhile p (rev (dropWhile p s))" using dropWhile_suffix by blast
  then have "dropWhile p s = strip_by p s @ rev b" unfolding strip_by_def by (metis rev_append rev_rev_ident)
  then show ?thesis using a by metis
qed

lemma strip_by_keeps:
  "successively P s \<Longrightarrow> successively P (strip_by p s)" "set (strip_by p s) \<subseteq> set s"
proof -
  obtain u v t where s: "s = u @ t @ v" "strip_by p s = t" using strip_by_infix by metis
  show "successively P s \<Longrightarrow> successively P (strip_by p s)"
    unfolding s(2) by (simp add: s(1) successively_append_iff)
  show "set (strip_by p s) \<subseteq> set s" unfolding s(2) by (auto simp: s(1))
qed

lemma strip_by_id: "s = [] \<or> \<not> p (hd s) \<and> \<not> p (last s) \<Longrightarrow> strip_by p s = s"
proof -
  assume h: "s = [] \<or> \<not> p (hd s) \<and> \<not> p (last s)"
  show ?thesis
  proof (cases "s = []")
    case False
    then have "dropWhile p s = s" "dropWhile p (rev s) = rev s"
      using h by (cases s, auto simp: hd_rev [symmetric]) (cases "rev s", auto simp: hd_rev [symmetric])
    then show ?thesis by (simp add: strip_by_def)
  qed (simp add: strip_by_def)
qed

lemma lower_char_facts:
  "lower_char c = CHR ''_'' \<longleftrightarrow> c = CHR ''_''"
  "is_alnum (lower_char c) \<longleftrightarrow> is_alnum c" "\<not> is_upper (lower_char c)"
  "\<not> is_upper c \<Longrightarrow> lower_char c = c"
proof -
  have k: "of_char (char_of (of_char c + (32::nat)) :: char) = (of_char c + (32::nat))" if "is_upper c"
    using that by (auto simp: is_upper_def less_eq_char_def)
  show "lower_char c = CHR ''_'' \<longleftrightarrow> c = CHR ''_''"
  proof (cases "is_upper c")
    case True
    then have "of_char (lower_char c) = (of_char c + (32::nat))" using k by (simp add: lower_char_def is_upper_def)
    moreover have "(65::nat) \<le> of_char c" "of_char c \<le> (90::nat)"
      using True by (simp_all add: is_upper_def less_eq_char_def)
    ultimately show ?thesis by (auto simp: of_char_eq_iff [where ?'a = nat, symmetric])
  next
    case False
    then have "lower_char c = c" unfolding lower_char_def is_upper_def by (rule if_not_P)
    then show ?thesis by simp
  qed
  show "is_alnum (lower_char c) \<longleftrightarrow> is_alnum c" "\<not> is_upper (lower_char c)"
    using k by (auto simp: lower_char_def is_alnum_def is_upper_def less_eq_char_def)
  show "\<not> is_upper c \<Longrightarrow> lower_char c = c" unfolding lower_char_def is_upper_def by (rule if_not_P)
qed

lemma snake_case_canonical_name: "canonical_name (snake_case s)"
proof -
  let ?c = "collapse (separate_capitals s)" and ?u = "\<lambda>c. c = CHR ''_''"
  let ?t = "strip_by ?u ?c"
  have ch: "\<forall>c \<in> set ?t. c = CHR ''_'' \<or> is_alnum c"
    using collapse_chars strip_by_keeps(2) by blast
  have no: "successively (\<lambda>a b. a \<noteq> CHR ''_'' \<or> b \<noteq> CHR ''_'') ?t"
    by (rule strip_by_keeps(1) [OF collapse_no_double])
  have e: "?t \<noteq> [] \<longrightarrow> hd ?t \<noteq> CHR ''_'' \<and> last ?t \<noteq> CHR ''_''" using strip_by_ends [of ?u ?c] by simp
  have m: "snake_case s = map lower_char ?t" by (simp add: snake_case_def lower_def)
  have "successively (\<lambda>a b. a \<noteq> CHR ''_'' \<or> b \<noteq> CHR ''_'') (map lower_char ?t)"
    using no by (simp add: successively_map lower_char_facts(1))
  moreover have "\<forall>c \<in> set (map lower_char ?t). c = CHR ''_'' \<or> is_alnum c \<and> \<not> is_upper c"
    using ch lower_char_facts by auto
  moreover have "map lower_char ?t \<noteq> [] \<longrightarrow> hd (map lower_char ?t) \<noteq> CHR ''_'' \<and> last (map lower_char ?t) \<noteq> CHR ''_''"
    using e by (simp add: hd_map last_map lower_char_facts(1))
  ultimately show ?thesis unfolding m canonical_name_def by blast
qed

lemma collapse_canonical:
  "\<forall>c \<in> set s. c = CHR ''_'' \<or> is_alnum c \<Longrightarrow> successively (\<lambda>a b. a \<noteq> CHR ''_'' \<or> b \<noteq> CHR ''_'') s \<Longrightarrow> collapse s = s"
proof (induction s)
  case (Cons c s)
  have "successively (\<lambda>a b. a \<noteq> CHR ''_'' \<or> b \<noteq> CHR ''_'') s"
    using Cons.prems(2) unfolding successively_Cons by (metis successively.simps(1))
  moreover have "\<forall>c \<in> set s. c = CHR ''_'' \<or> is_alnum c" using Cons.prems(1) by (meson list.set_intros(2))
  ultimately have ih: "collapse s = s" using Cons.IH by blast
  show ?case
  proof (cases "is_alnum c")
    case True
    then show ?thesis using ih by simp
  next
    case False
    then have c: "c = CHR ''_''" using Cons.prems(1) by simp
    show ?thesis
    proof (cases s)
      case Nil
      then show ?thesis using c by simp
    next
      case dt: (Cons d t)
      then have "d \<noteq> CHR ''_''" "d \<in> set s" using Cons.prems(2) c by (simp_all add: successively_Cons)
      then have "is_alnum d" using Cons.prems(1) by (meson list.set_intros(2))
      then show ?thesis using False ih c dt by simp
    qed
  qed
qed simp

lemma snake_case_fixes:
  assumes "canonical_name s"
  shows "snake_case s = s"
proof -
  have nu: "\<forall>c \<in> set s. \<not> is_upper c" using assms underscore_not_alnum(2) unfolding canonical_name_def by metis
  have "concat (map (\<lambda>d. if is_upper d then [CHR ''_'', d] else [d]) r) = r" if "\<forall>c \<in> set r. \<not> is_upper c" for r
    using that by (induction r) auto
  then have sep: "separate_capitals s = s" using nu by (cases s) (auto simp: separate_capitals_def)
  have col: "collapse s = s" using assms by (intro collapse_canonical) (auto simp: canonical_name_def)
  have "strip_by (\<lambda>c. c = CHR ''_'') s = s" using assms by (intro strip_by_id) (auto simp: canonical_name_def)
  moreover have "lower s = s" using nu by (auto simp: lower_def lower_char_facts(4) map_idI)
  ultimately show ?thesis by (simp add: snake_case_def sep col)
qed

text \<open>Alert names are put in a canonical form: the result holds lower-case letters, digits and
  underscores only, never starts or ends with an underscore and never has two in a row; a name in
  that form is left as it is, so translating twice gives what translating once gives.\<close>

theorem snake_case_normal_form:
  "canonical_name (snake_case s) \<and> snake_case (snake_case s) = snake_case s"
  using snake_case_canonical_name snake_case_fixes by blast

subsection \<open>The external id\<close>

text \<open>C27: The external id of an alert always fits its column. It tells two starts of the same
  fingerprint apart (the start as written: one instant in two offsets has two ids) as long as nothing is cut off; from 115 characters of fingerprint on the start
  is cut off entirely, so that a new firing looks like a duplicate of the old one.\<close>

theorem alert_external_id_bounds:
  assumes "aa_fingerprint a = Some f" "f \<noteq> []" "aa_fingerprint b = Some f"
  shows "(\<exists>x. alert_external_id py a = Some x \<and> length x \<le> 128) \<and>
    (inj (iso_text py) \<and> length f + length (iso_text py (aa_starts_at a)) \<le> 114 \<and>
       length f + length (iso_text py (aa_starts_at b)) \<le> 114 \<longrightarrow>
       (alert_external_id py a = alert_external_id py b \<longleftrightarrow> aa_starts_at a = aa_starts_at b)) \<and>
    (115 \<le> length f \<longrightarrow> alert_external_id py a = alert_external_id py b)"
proof -
  obtain c g where f: "f = c # g" using assms(2) by (cases f) auto
  have e: "alert_external_id py x = Some (take 128 (''alertmanager:'' @ f @ '':'' @ iso_text py (aa_starts_at x)))"
    if "aa_fingerprint x = Some f" for x using that by (simp add: alert_external_id_def f)
  have "take 128 (''alertmanager:'' @ f @ '':'' @ t) = ''alertmanager:'' @ f @ '':'' @ t" if "length f + length t \<le> 114" for t
    using that by simp
  then have "inj (iso_text py) \<and> length f + length (iso_text py (aa_starts_at a)) \<le> 114 \<and>
       length f + length (iso_text py (aa_starts_at b)) \<le> 114 \<longrightarrow>
       (alert_external_id py a = alert_external_id py b \<longleftrightarrow> aa_starts_at a = aa_starts_at b)"
    unfolding e [OF assms(1)] e [OF assms(3)] by (auto simp del: append.simps dest: injD)
  moreover have "take 128 (''alertmanager:'' @ f @ t) = take 128 (''alertmanager:'' @ f)" if "115 \<le> length f" for t
    using that by simp
  ultimately show ?thesis unfolding e [OF assms(1)] e [OF assms(3)] by (simp del: append.simps)
qed

subsection \<open>Delivering twice\<close>

text \<open>\<open>answered d x k\<close>: the alert with external id \<open>x\<close> is stored and belongs to incident \<open>k\<close>.\<close>

definition answered :: "db \<Rightarrow> str \<Rightarrow> uuid \<Rightarrow> bool" where
  "answered d x k \<longleftrightarrow> (\<exists>i a. linked d i a \<and> al_external_id a = Some x \<and> inc_id i = k)"

lemma ingest_duplicate_same:
  assumes "ingest_alert py p ws w = (Inr r, w')" "groups_ok w" "ir_duplicate r"
  shows "w' = w \<and> ar_external_id p \<noteq> None"
proof (cases rule: ingest_alert_cases [OF assms(1,2), case_names duplicate refused new])
  case new
  then obtain g where "ingest_effect p ws w r w' g" using ingest_new_effect groups_okD [OF assms(2)] by blast
  then have "\<not> ir_duplicate r" unfolding ingest_effect_def Let_def by (metis ingest_result.select_convs(6))
  then show ?thesis using assms(3) by blast
qed auto

lemma ingest_answered_mono:
  assumes "ingest_alert py p ws w = (Inr r, w')" "groups_ok w" "answered (work w) x k"
  shows "answered (work w') x k"
proof (cases "ir_duplicate r")
  case True
  then have "w' = w"
    using ingest_duplicate_same [OF assms(1,2)] by blast
  then show ?thesis using assms(3) by simp
next
  case False
  then obtain g where e: "ingest_effect p ws w r w' g" using ingest_alert_new_effect [OF assms(1,2)] by blast
  obtain s a i where g: "g = \<lparr>in_service = s, in_alert = a, in_incident = i\<rparr>" by (cases g)
  note f = e [unfolded ingest_effect_def g Let_def ingested.simps]
  have t: "alerts (work w') = alerts (work w) @ [a]"
    "incident_alerts (work w') = incident_alerts (work w) @ [\<lparr>ia_incident = inc_id i, ia_alert = al_id a\<rparr>]"
    using f by (metis (no_types, lifting) db.select_convs db.surjective db.update_convs)+
  obtain j b where j: "linked (work w) j b" "al_external_id b = Some x" "inc_id j = k"
    using assms(3) by (auto simp: answered_def)
  have "\<exists>j' \<in> set (incidents (work w')). inc_id j' = inc_id j"
  proof (cases "ir_correlated r")
    case True
    then have "incidents (work w') = row_set inc_id i (incidents (work w))" using f by auto
    then have "keys inc_id (incidents (work w')) = keys inc_id (incidents (work w))" by (simp add: keys_row_set)
    moreover have "inc_id j \<in> keys inc_id (incidents (work w))" using j(1) by (simp add: linked_def in_keysI)
    ultimately show ?thesis by (metis imageE keys_def)
  next
    case False
    then have "incidents (work w') = incidents (work w) @ [i]" using f by auto
    then show ?thesis using j(1) by (auto simp: linked_def)
  qed
  then obtain j' where "j' \<in> set (incidents (work w'))" "inc_id j' = inc_id j" by blast
  then have "linked (work w') j' b" using j(1) by (simp add: linked_def t keys_append)
  then show ?thesis using j \<open>inc_id j' = inc_id j\<close> by (auto simp: answered_def)
qed

lemma ingest_answered:
  assumes "ingest_alert py p ws w = (Inr r, w')" "groups_ok w" "ar_external_id p = Some x" "x \<noteq> []"
  shows "answered (work w') x (ir_incident_id r)"
  using ingest_alert_stores [OF assms] by (metis answered_def)

lemma ingest_again:
  assumes "groups_ok w" "ar_external_id p = Some x" "x \<noteq> []" "answered (work w) x k" "pg_text x"
  shows "\<exists>r. ingest_alert py p ws w = (Inr r, w) \<and> ir_duplicate r \<and> ir_incident_id r = k"
proof -
  note g = groups_okD [OF assms(1)]
  obtain i a where ia: "linked (work w) i a" "al_external_id a = Some x" "inc_id i = k"
    using assms(4) by (auto simp: answered_def)
  have a: "a \<in> set (alerts (work w))" using ia(1) by (simp add: linked_def)
  obtain j s where d: "duplicate_rows (work w) x = [(a, j, s)]" "linked (work w) j a"
    using duplicate_rows_one [OF _ _ a ia(2)] g by blast
  have "j = i" using linked_alert_unique [OF _ _ d(2) ia(1)] g by blast
  then show ?thesis using assms(2,3,5) d(1) ia(3) \<open>j = i\<close> by (cases x) (simp_all add: ingest_alert_def)
qed

lemma to_ingest_request_id:
  assumes "to_ingest_request py a = Inr p" "alert_external_id py a \<noteq> None"
  shows "\<exists>x. ar_external_id p = Some x \<and> x \<noteq> []"
proof -
  have "ar_external_id p = alert_external_id py a"
    using assms(1) by (auto simp: to_ingest_request_def ingest_request_of_def Let_def split: if_splits)
  then show ?thesis using assms(2) by (auto simp: alert_external_id_def split: option.splits list.splits)
qed

lemma count_result_facts:
  "wc_ignored (count_result k d c) = wc_ignored c"
  "wc_ingested (count_result k d c) + wc_duplicates (count_result k d c) = Suc (wc_ingested c + wc_duplicates c)"
  "wc_incident_ids (count_result k d c) = (if k \<in> set (wc_incident_ids c) then wc_incident_ids c else wc_incident_ids c @ [k])"
  "wc_ingested (count_result k d c) = (if d then wc_ingested c else Suc (wc_ingested c))"
  by (simp_all add: count_result_def Let_def)

text \<open>The loop ran over \<open>as\<close> once; running it again over the same alerts finds only duplicates.\<close>

definition replays :: "webhook_counts \<Rightarrow> webhook_counts \<Rightarrow> webhook_counts \<Rightarrow> webhook_counts \<Rightarrow> bool" where
  "replays c c' b b' \<longleftrightarrow> wc_incident_ids b' = wc_incident_ids c' \<and> wc_ingested b' = wc_ingested b \<and>
     wc_ignored b' + wc_ignored c = wc_ignored b + wc_ignored c' \<and>
     wc_duplicates b' + (wc_ingested c + wc_duplicates c) = wc_duplicates b + (wc_ingested c' + wc_duplicates c')"

lemma webhook_loop_replay:
  assumes "webhook_loop py ws P as c w = (Inr c', w')" "groups_ok w"
    "\<forall>a \<in> set as. is_firing P a \<longrightarrow> alert_external_id py a \<noteq> None"
  shows "groups_ok w' \<and> (\<forall>x k. answered (work w) x k \<longrightarrow> answered (work w') x k) \<and>
    (\<forall>b W. groups_ok W \<longrightarrow> (\<forall>x k. answered (work w') x k \<longrightarrow> answered (work W) x k) \<longrightarrow>
       wc_incident_ids b = wc_incident_ids c \<longrightarrow>
       (\<exists>b'. webhook_loop py ws P as b W = (Inr b', W) \<and> replays c c' b b'))"
  using assms
proof (induction "as" arbitrary: c w)
  case Nil
  then show ?case by (auto simp: replays_def)
next
  case (Cons a as)
  show ?case
  proof (cases "is_firing P a")
    case False
    let ?c = "c\<lparr>wc_ignored := Suc (wc_ignored c)\<rparr>"
    have "webhook_loop py ws P as ?c w = (Inr c', w')" using Cons.prems(1) False by simp
    note ih = Cons.IH [OF this Cons.prems(2)]
    have fa: "\<forall>a \<in> set as. is_firing P a \<longrightarrow> alert_external_id py a \<noteq> None" using Cons.prems(3) by simp
    have r: "\<exists>b'. webhook_loop py ws P (a # as) b W = (Inr b', W) \<and> replays c c' b b'"
      if h: "groups_ok W" "\<forall>x k. answered (work w') x k \<longrightarrow> answered (work W) x k"
        "wc_incident_ids b = wc_incident_ids c" for b W
    proof -
      obtain b' where "webhook_loop py ws P as (b\<lparr>wc_ignored := Suc (wc_ignored b)\<rparr>) W = (Inr b', W)"
        "replays ?c c' (b\<lparr>wc_ignored := Suc (wc_ignored b)\<rparr>) b'"
        using conjunct2 [OF conjunct2 [OF ih [OF fa]], rule_format, of W "b\<lparr>wc_ignored := Suc (wc_ignored b)\<rparr>"] h
        by auto
      then show ?thesis using False by (auto simp: replays_def)
    qed
    then show ?thesis using ih [OF fa] by blast
  next
    case True
    obtain p where p: "to_ingest_request py a = Inr p"
      using Cons.prems(1) True by (auto split: sum.splits)
    obtain x where x: "ar_external_id p = Some x" "x \<noteq> []"
      using to_ingest_request_id [OF p] Cons.prems(3) True by auto
    obtain r w1 where i: "ingest_alert py p ws w = (Inr r, w1)"
      and l: "webhook_loop py ws P as (count_result (uuid_text py (ir_incident_id r)) (ir_duplicate r) c) w1 = (Inr c', w')"
      using Cons.prems(1) True p by (auto simp: bind_Inr)
    let ?c = "count_result (uuid_text py (ir_incident_id r)) (ir_duplicate r) c"
    have g1: "groups_ok w1" using ingest_alert_groups_ok [OF Cons.prems(2), of py p ws] by (simp add: i)
    note ih = Cons.IH [OF l g1]
    have fa: "\<forall>a \<in> set as. is_firing P a \<longrightarrow> alert_external_id py a \<noteq> None" using Cons.prems(3) by simp
    have mono: "\<forall>x k. answered (work w) x k \<longrightarrow> answered (work w1) x k"
      using ingest_answered_mono [OF i Cons.prems(2)] by blast
    have ax: "answered (work w1) x (ir_incident_id r)" by (rule ingest_answered [OF i Cons.prems(2) x])
    have r: "\<exists>b'. webhook_loop py ws P (a # as) b W = (Inr b', W) \<and> replays c c' b b'"
      if h: "groups_ok W" "\<forall>x k. answered (work w') x k \<longrightarrow> answered (work W) x k"
        "wc_incident_ids b = wc_incident_ids c" for b W
    proof -
      have "answered (work W) x (ir_incident_id r)" using ax ih [OF fa] h(2) by blast
      then obtain r' where r': "ingest_alert py p ws W = (Inr r', W)" "ir_duplicate r'" "ir_incident_id r' = ir_incident_id r"
        using ingest_again [OF h(1) x _ ingest_alert_text [OF i Cons.prems(2) x(1)]] by blast
      let ?b = "count_result (uuid_text py (ir_incident_id r')) (ir_duplicate r') b"
      have "wc_incident_ids ?b = wc_incident_ids ?c" using h(3) r'(3) by (simp add: count_result_facts)
      then obtain b' where "webhook_loop py ws P as ?b W = (Inr b', W)" "replays ?c c' ?b b'"
        using conjunct2 [OF conjunct2 [OF ih [OF fa]], rule_format, of W ?b] h by auto
      moreover have "wc_ingested ?c + wc_duplicates ?c = Suc (wc_ingested c + wc_duplicates c)"
        by (rule count_result_facts(2))
      moreover have "wc_duplicates ?b = Suc (wc_duplicates b)" "wc_ingested ?b = wc_ingested b"
        using r'(2) by (simp_all add: count_result_def Let_def)
      ultimately have "webhook_loop py ws P (a # as) b W = (Inr b', W)" "replays c c' b b'"
        using True p r'(1) by (simp_all add: replays_def count_result_facts(1))
      then show ?thesis by blast
    qed
    then show ?thesis using ih [OF fa] mono by blast
  qed
qed

text \<open>An alert without a fingerprint has no external id: every delivery ingests it.\<close>

definition unidentified :: "pylib \<Rightarrow> am_webhook \<Rightarrow> am_alert list \<Rightarrow> nat" where
  "unidentified py P as = length (filter (\<lambda>a. is_firing P a \<and> alert_external_id py a = None) as)"

lemma webhook_loop_groups_ok:
  "webhook_loop py ws P as c w = (out, w') \<Longrightarrow> groups_ok w \<Longrightarrow> groups_ok w'"
proof (induction "as" arbitrary: c w)
  case (Cons a as)
  then show ?case using ingest_alert_groups_ok [of w py _ ws]
    by (auto simp: bind_def split: if_splits sum.splits prod.splits) (metis snd_conv)+
qed simp

lemma webhook_loop_unidentified:
  assumes "webhook_loop py ws P as c w = (Inr c', w')" "groups_ok w"
  shows "wc_ingested c + unidentified py P as \<le> wc_ingested c'"
  using assms
proof (induction "as" arbitrary: c w)
  case (Cons a as)
  show ?case
  proof (cases "is_firing P a")
    case False
    then show ?thesis
      using Cons.IH [of "c\<lparr>wc_ignored := Suc (wc_ignored c)\<rparr>" w] Cons.prems by (simp add: unidentified_def)
  next
    case True
    obtain p r w1 where p: "to_ingest_request py a = Inr p" and i: "ingest_alert py p ws w = (Inr r, w1)"
      and l: "webhook_loop py ws P as (count_result (uuid_text py (ir_incident_id r)) (ir_duplicate r) c) w1 = (Inr c', w')"
      using Cons.prems(1) True by (auto simp: bind_Inr split: sum.splits)
    have g1: "groups_ok w1" using ingest_alert_groups_ok [OF Cons.prems(2), of py p ws] by (simp add: i)
    have "ar_external_id p = alert_external_id py a"
      using p by (auto simp: to_ingest_request_def ingest_request_of_def Let_def split: if_splits)
    then have "alert_external_id py a = None \<Longrightarrow> \<not> ir_duplicate r"
      using ingest_duplicate_same [OF i Cons.prems(2)] by auto
    then show ?thesis
      using Cons.IH [OF l g1] True count_result_facts(4) [of "uuid_text py (ir_incident_id r)" "ir_duplicate r" c]
      by (auto simp: unidentified_def split: if_splits)
  qed
qed (simp add: unidentified_def)


subsection \<open>The counts\<close>

lemma webhook_loop_counts:
  assumes "webhook_loop py ws P as c w = (Inr c', w')" "groups_ok w" "distinct (wc_incident_ids c)"
  shows "distinct (wc_incident_ids c') \<and>
    wc_ingested c' + wc_duplicates c' + wc_ignored c' = wc_ingested c + wc_duplicates c + wc_ignored c + length as \<and>
    wc_ignored c' = wc_ignored c + length (filter (\<lambda>a. \<not> is_firing P a) as) \<and>
    length (alerts (work w')) + wc_ingested c = length (alerts (work w)) + wc_ingested c' \<and>
    (saved w = work w \<longrightarrow> saved w' = work w')"
  using assms
proof (induction "as" arbitrary: c w)
  case (Cons a as)
  show ?case
  proof (cases "is_firing P a")
    case False
    then show ?thesis using Cons.IH [of "c\<lparr>wc_ignored := Suc (wc_ignored c)\<rparr>" w] Cons.prems by simp
  next
    case True
    obtain p r w1 where p: "to_ingest_request py a = Inr p" and i: "ingest_alert py p ws w = (Inr r, w1)"
      and l: "webhook_loop py ws P as (count_result (uuid_text py (ir_incident_id r)) (ir_duplicate r) c) w1 = (Inr c', w')"
      using Cons.prems(1) True by (auto simp: bind_Inr split: sum.splits)
    have g1: "groups_ok w1" using ingest_alert_groups_ok [OF Cons.prems(2), of py p ws] by (simp add: i)
    let ?c = "count_result (uuid_text py (ir_incident_id r)) (ir_duplicate r) c"
    have d: "distinct (wc_incident_ids ?c)" using Cons.prems(3) by (simp add: count_result_facts)
    have n: "length (alerts (work w1)) = length (alerts (work w)) + (if ir_duplicate r then 0 else 1) \<and>
        (saved w = work w \<longrightarrow> saved w1 = work w1)"
    proof (cases rule: ingest_alert_cases [OF i Cons.prems(2), case_names duplicate refused new])
      case (duplicate x a i s)
      then show ?thesis by simp
    next
      case (refused x)
      then show ?thesis by simp
    next
      case new
      then obtain g where "ingest_effect p ws w r w1 g" using ingest_new_effect groups_okD [OF Cons.prems(2)] by blast
      then have "saved w1 = work w1" "\<exists>ss a ins es ls. work w1 = work w\<lparr>services := ss, alerts := alerts (work w) @ [a],
          incidents := ins, events := es, incident_alerts := ls\<rparr>" "\<not> ir_duplicate r"
        unfolding ingest_effect_def Let_def by (blast, blast, metis ingest_result.select_convs(6))
      then show ?thesis by auto
    qed
    show ?thesis
      using Cons.IH [OF l g1 d] n True count_result_facts [of "uuid_text py (ir_incident_id r)" "ir_duplicate r" c]
      by (auto split: if_splits)
  qed
qed simp

text \<open>The answer of a webhook adds up: received is ingested plus duplicates plus ignored, exactly
  the alerts that do not fire are ignored, the alerts table grew by exactly the ingested ones, no
  incident is listed twice, and whatever was ingested is committed.\<close>

theorem webhook_counts_add_up:
  assumes "groups_ok w" "saved w = work w" "receive_webhook py st payload w = (Inr r, w')"
  shows "wr_received r = length (aw_alerts payload) \<and>
    wr_received r = wr_ingested r + wr_duplicates r + wr_ignored r \<and>
    wr_ignored r = length (filter (\<lambda>a. \<not> is_firing payload a) (aw_alerts payload)) \<and>
    length (alerts (work w')) = length (alerts (work w)) + wr_ingested r \<and>
    distinct (wr_incident_ids r) \<and> saved w' = work w'"
proof -
  obtain c where c: "webhook_loop py (correlation_window_seconds st) payload (aw_alerts payload) no_counts w = (Inr c, w')"
    "r = \<lparr>wr_received = length (aw_alerts payload), wr_ingested = wc_ingested c,
          wr_duplicates = wc_duplicates c, wr_ignored = wc_ignored c, wr_incident_ids = wc_incident_ids c\<rparr>"
    using assms(3) by (auto simp: receive_webhook_def bind_Inr)
  show ?thesis using webhook_loop_counts [OF c(1) assms(1)] assms(2) by (simp add: c(2) no_counts_def)
qed

subsection \<open>Failing in the middle of a batch\<close>

lemma webhook_loop_error:
  assumes "webhook_loop py ws P as c w = (Inl x, w')" "groups_ok w" "saved w = work w"
  shows "\<exists>before a rest c1 w1. as = before @ a # rest \<and> is_firing P a \<and>
    webhook_loop py ws P before c w = (Inr c1, w1) \<and> saved w' = work w1 \<and>
    x \<in> {ValidationErr, DataErr, IntegrityErr, OverflowErr}"
  using assms
proof (induction "as" arbitrary: c w)
  case (Cons a as)
  show ?case
  proof (cases "is_firing P a")
    case False
    then have "webhook_loop py ws P as (c\<lparr>wc_ignored := Suc (wc_ignored c)\<rparr>) w = (Inl x, w')" using Cons.prems(1) by simp
    then obtain before b rest c1 w1 where "as = before @ b # rest" "is_firing P b"
      "webhook_loop py ws P before (c\<lparr>wc_ignored := Suc (wc_ignored c)\<rparr>) w = (Inr c1, w1)" "saved w' = work w1"
      "x \<in> {ValidationErr, DataErr, IntegrityErr, OverflowErr}"
      using Cons.IH Cons.prems(2,3) by blast
    then show ?thesis using False by (intro exI [of _ "a # before"]) auto
  next
    case True
    show ?thesis
    proof (cases "to_ingest_request py a")
      case (Inl e)
      then have "x = ValidationErr" "w' = w"
        using Cons.prems(1) True by (auto simp: to_ingest_request_def Let_def split: if_splits)
      then show ?thesis using True Cons.prems(3) by (intro exI [of _ "[]"]) auto
    next
      case (Inr p)
      obtain o1 w1 where i: "ingest_alert py p ws w = (o1, w1)" by fastforce
      show ?thesis
      proof (cases o1)
        case (Inl e)
        then have e: "x = e" "w' = w1" using Cons.prems(1) True Inr i by auto
        have "e \<in> {DataErr, IntegrityErr, OverflowErr} \<and> saved w1 = saved w"
          using ingest_alert_Inl [OF Cons.prems(2), of py p ws e w1] i Inl by simp
        then show ?thesis using e True Cons.prems(3) by (intro exI [of _ "[]"]) auto
      next
        case o1: (Inr r)
        let ?c = "count_result (uuid_text py (ir_incident_id r)) (ir_duplicate r) c"
        have l: "webhook_loop py ws P as ?c w1 = (Inl x, w')" using Cons.prems(1) True Inr i o1 by simp
        have g1: "groups_ok w1" using ingest_alert_groups_ok [OF Cons.prems(2), of py p ws] by (simp add: i)
        have s1: "saved w1 = work w1"
        proof (cases rule: ingest_alert_cases [OF i Cons.prems(2), case_names duplicate refused new])
          case (duplicate y b j s)
          then show ?thesis using Cons.prems(3) by simp
        next
          case (refused y)
          then show ?thesis using o1 by simp
        next
          case new
          then obtain g where "ingest_effect p ws w r w1 g"
            using ingest_new_effect groups_okD [OF Cons.prems(2)] o1 by blast
          then show ?thesis by (simp add: ingest_effect_def Let_def)
        qed
        obtain before b rest c1 w2 where "as = before @ b # rest" "is_firing P b"
          "webhook_loop py ws P before ?c w1 = (Inr c1, w2)" "saved w' = work w2"
          "x \<in> {ValidationErr, DataErr, IntegrityErr, OverflowErr}"
          using Cons.IH [OF l g1 s1] by blast
        then show ?thesis using True Inr i o1 by (intro exI [of _ "a # before"]) auto
      qed
    qed
  qed
qed simp

text \<open>C26: A batch is not all or nothing. When the webhook fails it is because one firing alert could
  not be translated or stored; every alert before it has been handled and what they ingested stays
  committed, nothing of that alert or after it is.\<close>

theorem webhook_fails_midway:
  assumes "groups_ok w" "saved w = work w" "receive_webhook py st payload w = (Inl x, w')"
  shows "\<exists>before a rest c w1. aw_alerts payload = before @ a # rest \<and> is_firing payload a \<and>
    webhook_loop py (correlation_window_seconds st) payload before no_counts w = (Inr c, w1) \<and>
    saved w' = work w1 \<and> length (alerts (saved w')) = length (alerts (saved w)) + wc_ingested c \<and>
    x \<in> {ValidationErr, DataErr, IntegrityErr, OverflowErr}"
proof -
  have l: "webhook_loop py (correlation_window_seconds st) payload (aw_alerts payload) no_counts w = (Inl x, w')"
    using assms(3) by (simp add: receive_webhook_def bind_Inl)
  obtain before a rest c w1 where b: "aw_alerts payload = before @ a # rest" "is_firing payload a"
    "webhook_loop py (correlation_window_seconds st) payload before no_counts w = (Inr c, w1)"
    "saved w' = work w1" "x \<in> {ValidationErr, DataErr, IntegrityErr, OverflowErr}"
    using webhook_loop_error [OF l assms(1,2)] by blast
  have "length (alerts (work w1)) = length (alerts (work w)) + wc_ingested c"
    using webhook_loop_counts [OF b(3) assms(1)] by (simp add: no_counts_def)
  then show ?thesis using b assms(2) by auto
qed

subsection \<open>Concrete deliveries\<close>

definition demo_firing :: "str \<Rightarrow> str \<Rightarrow> am_alert" where
  "demo_firing name f = \<lparr>aa_status = ''firing'', aa_labels = [(''alertname'', name), (''service'', ''checkout''),
     (''severity'', ''Critical'')], aa_annotations = [], aa_starts_at = utc 7,
     aa_ends_at = None, aa_generator_url = None, aa_fingerprint = Some f\<rparr>"

definition demo_payload :: "am_alert list \<Rightarrow> am_webhook" where
  "demo_payload as = \<lparr>aw_version = None, aw_status = ''firing'', aw_receiver = None, aw_group_labels = [],
     aw_common_labels = [], aw_common_annotations = [], aw_alerts = as\<rparr>"

definition demo_batch :: am_webhook where
  "demo_batch = demo_payload [demo_firing ''HighLatency'' ''f1'', (demo_firing ''HighLatency'' ''f2'')\<lparr>aa_status := ''resolved''\<rparr>,
     demo_firing ''HighLatency'' ''f1'']"

theorem alert_external_id_bounds_witness:
  "(\<exists>x. alert_external_id demo_pylib (demo_firing ''a'' ''f1'') = Some x \<and> length x \<le> 128) \<and>
   alert_external_id demo_pylib (demo_firing ''a'' ''f1'') \<noteq>
     alert_external_id demo_pylib ((demo_firing ''a'' ''f1'')\<lparr>aa_starts_at := utc 8\<rparr>)"
proof -
  have "inj (iso_text demo_pylib)" using demo_pylib_ok by (simp add: pylib_ok_def)
  moreover have "length ''f1'' + length (iso_text demo_pylib (utc 7)) \<le> 114"
    "length ''f1'' + length (iso_text demo_pylib (utc 8)) \<le> 114" by code_simp+
  ultimately show ?thesis
    using alert_external_id_bounds [of "demo_firing ''a'' ''f1''" "''f1''" "(demo_firing ''a'' ''f1'')\<lparr>aa_starts_at := utc 8\<rparr>" demo_pylib]
    by (simp add: demo_firing_def utc_def)
qed

lemma demo_batch_runs:
  "case receive_webhook demo_pylib default_settings demo_batch start_world of
     (Inr r, w') \<Rightarrow> wr_ingested r = 1 \<and> wr_duplicates r = 1 \<and> wr_ignored r = 1 \<and> wr_incident_ids r = [''2''] \<and>
       map al_type (alerts (work w')) = [''high_latency'']
   | _ \<Rightarrow> False"
  by code_simp

lemma start_saved: "saved start_world = work start_world"
  by (simp add: start_world_def)

theorem webhook_counts_add_up_witness:
  "case receive_webhook demo_pylib default_settings demo_batch start_world of
     (Inr r, w') \<Rightarrow> wr_ingested r = 1 \<and> wr_duplicates r = 1 \<and> wr_received r = 3 \<and>
       length (alerts (saved w')) = 1
   | _ \<Rightarrow> False"
proof -
  obtain r w' where r: "receive_webhook demo_pylib default_settings demo_batch start_world = (Inr r, w')"
    using demo_batch_runs by (auto split: prod.splits sum.splits)
  have "length (alerts (work start_world)) = 0" by (simp add: start_world_def empty_db_def)
  then show ?thesis
    using webhook_counts_add_up [OF start_groups_ok start_saved r] demo_batch_runs by (simp add: r)
qed

definition anonymous_batch :: am_webhook where
  "anonymous_batch = demo_payload [(demo_firing ''HighLatency'' ''f1'')\<lparr>aa_fingerprint := None\<rparr>]"

lemma anonymous_batch_runs:
  "case receive_webhook demo_pylib default_settings anonymous_batch start_world of
     (Inr r, w') \<Rightarrow> (case receive_webhook demo_pylib default_settings anonymous_batch w' of (Inr _, _) \<Rightarrow> True | _ \<Rightarrow> False)
   | _ \<Rightarrow> False"
  by code_simp


text \<open>The second alert's name has no letter, so its type would be empty.\<close>

definition broken_batch :: am_webhook where
  "broken_batch = demo_payload [demo_firing ''HighLatency'' ''f1'', demo_firing ''!!'' ''f2'']"

theorem webhook_fails_midway_witness:
  "case receive_webhook demo_pylib default_settings broken_batch start_world of
     (Inl x, w') \<Rightarrow> x = ValidationErr \<and> length (alerts (saved w')) = 1 \<and>
       (\<exists>before a rest. aw_alerts broken_batch = before @ a # rest \<and> is_firing broken_batch a \<and> length before = 1)
   | _ \<Rightarrow> False"
proof -
  have c: "case receive_webhook demo_pylib default_settings broken_batch start_world of
     (Inl x, w') \<Rightarrow> x = ValidationErr \<and> length (alerts (saved w')) = 1 | _ \<Rightarrow> False"
    by code_simp
  obtain x w' where r: "receive_webhook demo_pylib default_settings broken_batch start_world = (Inl x, w')"
    using c by (auto split: prod.splits sum.splits)
  obtain before a rest c1 w1 where b: "aw_alerts broken_batch = before @ a # rest" "is_firing broken_batch a"
    "webhook_loop demo_pylib 300 broken_batch before no_counts start_world = (Inr c1, w1)"
    "length (alerts (saved w')) = wc_ingested c1"
    using webhook_fails_midway [OF start_groups_ok start_saved r]
    by (auto simp: default_settings_def start_world_def empty_db_def)
  have "before \<noteq> []" using b(3,4) c by (auto simp: r no_counts_def)
  moreover have "length (aw_alerts broken_batch) = 2" by (simp add: broken_batch_def demo_payload_def)
  then have "length before \<le> 1" using b(1) by simp
  ultimately have "length before = 1" by (cases before) auto
  then show ?thesis using b(1,2) c by (auto simp: r)
qed

end
