(* ===== verification/Runbooks.thy ===== *)
theory Runbooks
  imports Py_Text Connectors "HOL-Library.AList"
begin

section \<open>Runbooks: parsing and retrieval\<close>

text \<open>
  \<open>apps/worker/agent/runbooks.py\<close>. A runbook is a markdown file with YAML front matter;
  \<open>parse_runbook_file\<close> takes it apart with regular expressions, written out here as the
  matches Python's \<open>re\<close> tries in its order: \<open>after_newlines\<close> are the rests after
  \<open>\s*\n\<close>, longest match first, \<open>after_spaces\<close> those after \<open>\s+\<close>.
  \<open>yaml.safe_load\<close> is the parameter \<open>yaml\<close> (None when it raises); the front matter
  is taken to hold values that JSON has too. A directory is the list of its \<open>*.md\<close> files in the
  order of \<open>glob\<close>, each with its text (None when reading it raises), or None when it does
  not exist. \<open>retrieve\<close> scores every document in floats and keeps the best ones.
\<close>

type_synonym yaml_loader = "str \<Rightarrow> json option"
type_synonym directory = "(str \<times> str option) list option"

record runbook =
  rb_file_name :: str
  rb_service :: json
  rb_incident_type :: json
  rb_owner_team :: json
  rb_title :: str
  rb_symptoms :: "str list"
  rb_likely_causes :: "str list"
  rb_recommended_actions :: "str list"
  rb_raw_markdown :: str
  rb_sections :: "(str \<times> str) list"

subsection \<open>Front matter\<close>

fun after_newlines :: "str \<Rightarrow> str list" where
  "after_newlines [] = []"
| "after_newlines (c # r) =
     (if is_space c then after_newlines r @ (if c = CHR 0x0A then [r] else []) else [])"

fun close_front :: "str \<Rightarrow> str \<Rightarrow> (str \<times> str) option" where
  "close_front front [] = None"
| "close_front front (c # s) =
     (case (if starts_with (CHR 0x0A # ''---'') (c # s) then after_newlines (drop 4 (c # s)) else []) of
        body # _ \<Rightarrow> Some (rev front, body)
      | [] \<Rightarrow> close_front (c # front) s)"

fun first_some :: "('a \<Rightarrow> 'b option) \<Rightarrow> 'a list \<Rightarrow> 'b option" where
  "first_some f [] = None"
| "first_some f (x # xs) = (case f x of None \<Rightarrow> first_some f xs | Some y \<Rightarrow> Some y)"

text \<open>\<open>re.match(r"^---\s*\n(.*?)\n---\s*\n(.*)$", content, re.DOTALL)\<close>.\<close>

definition frontmatter_match :: "str \<Rightarrow> (str \<times> str) option" where
  "frontmatter_match content =
     (if starts_with ''---'' content then first_some (close_front []) (after_newlines (drop 3 content)) else None)"

definition load_metadata :: "yaml_loader \<Rightarrow> str \<Rightarrow> json" where
  "load_metadata yaml front =
     (case yaml front of None \<Rightarrow> JObj [] | Some v \<Rightarrow> (if truthy v then v else JObj []))"

text \<open>\<open>metadata.get(key, "")\<close>: only a dict has the method.\<close>

definition meta_get :: "json \<Rightarrow> str \<Rightarrow> exn + json" where
  "meta_get v k =
     (case v of
        JObj kvs \<Rightarrow> Inr (case obj_get kvs k of None \<Rightarrow> JStr [] | Some x \<Rightarrow> x)
      | _ \<Rightarrow> Inl (AttributeErr ''get''))"

subsection \<open>Headings, sections, bullets\<close>

fun after_spaces :: "str \<Rightarrow> str list" where
  "after_spaces [] = []"
| "after_spaces (c # r) = (if is_space c then after_spaces r @ [r] else [])"

text \<open>\<open>(.+)$\<close>: the rest of the line, at least one character.\<close>

definition dot_plus :: "str \<Rightarrow> str option" where
  "dot_plus s = (case s of [] \<Rightarrow> None | c # _ \<Rightarrow> if c = CHR 0x0A then None else Some (takeWhile (\<lambda>c. c \<noteq> CHR 0x0A) s))"

definition heading :: "str \<Rightarrow> str \<Rightarrow> str option" where
  "heading marker s = (if starts_with marker s then first_some dot_plus (after_spaces (drop (length marker) s)) else None)"

text \<open>\<open>re.search(r"^#\s+(.+)$", body, re.MULTILINE)\<close> tries every start of a line.\<close>

function title_match :: "str \<Rightarrow> str option" where
  "title_match s =
     (case heading ''#'' s of
        Some t \<Rightarrow> Some t
      | None \<Rightarrow> (case dropWhile (\<lambda>c. c \<noteq> CHR 0x0A) s of [] \<Rightarrow> None | _ # r \<Rightarrow> title_match r))"
  by auto
termination
proof (relation "measure length")
  fix s c r assume "dropWhile (\<lambda>c. c \<noteq> CHR 0x0A) s = c # r"
  then have "length (c # r) \<le> length s" by (metis length_dropWhile_le)
  then show "(r, s) \<in> measure length" by simp
qed simp

declare title_match.simps [simp del]

text \<open>\<open>Path.stem\<close>: the name without its last suffix.\<close>

definition path_stem :: "str \<Rightarrow> str" where
  "path_stem name =
     (let k = length (takeWhile (\<lambda>c. c \<noteq> CHR ''.'') (rev name))
      in if k = 0 \<or> length name \<le> Suc k then name else take (length name - Suc k) name)"

definition title_of :: "str \<Rightarrow> str \<Rightarrow> str" where
  "title_of file_name body =
     (case title_match body of
        Some t \<Rightarrow> strip t
      | None \<Rightarrow> title_case (replace_char CHR ''-'' '' '' (path_stem file_name)))"

definition newline :: str where
  "newline = [CHR 0x0A]"

text \<open>The loop over the lines: the section being read, its lines so far, the finished sections.\<close>

fun section_loop :: "str list \<Rightarrow> str \<Rightarrow> str list \<Rightarrow> (str \<times> str) list \<Rightarrow> (str \<times> str) list" where
  "section_loop [] current ls done_sections =
     (if ls \<noteq> [] then AList.update current (strip (join newline ls)) done_sections else done_sections)"
| "section_loop (l # rest) current ls done_sections =
     (case heading ''##'' l of
        Some h \<Rightarrow> section_loop rest (lower (strip h)) []
          (if ls \<noteq> [] then AList.update current (strip (join newline ls)) done_sections else done_sections)
      | None \<Rightarrow> section_loop rest current (ls @ [l]) done_sections)"

definition split_sections :: "str \<Rightarrow> (str \<times> str) list" where
  "split_sections body = section_loop (splitlines body) ''intro'' [] []"

text \<open>\<open>re.match(r"^(?:-|\d+\.)\s+(.+)$", line)\<close>.\<close>

definition bullet_match :: "str \<Rightarrow> str option" where
  "bullet_match l =
     (case l of
        [] \<Rightarrow> None
      | c # r \<Rightarrow>
          if c = CHR ''-'' then first_some dot_plus (after_spaces r)
          else if is_digit c then
            (case dropWhile is_digit r of
               d # q \<Rightarrow> if d = CHR ''.'' then first_some dot_plus (after_spaces q) else None
             | [] \<Rightarrow> None)
          else None)"

definition extract_bullets :: "str \<Rightarrow> str list" where
  "extract_bullets txt = concat (map (\<lambda>l. case bullet_match (strip l) of None \<Rightarrow> [] | Some t \<Rightarrow> [strip t]) (splitlines txt))"

definition section_text :: "(str \<times> str) list \<Rightarrow> str \<Rightarrow> str" where
  "section_text secs name = (case map_of secs name of None \<Rightarrow> [] | Some t \<Rightarrow> t)"

definition parse_runbook_file :: "yaml_loader \<Rightarrow> str \<Rightarrow> str option \<Rightarrow> exn + runbook" where
  "parse_runbook_file yaml file_name file_text =
     (case file_text of
        None \<Rightarrow> Inl (ValueErr ''read_text'')
      | Some content \<Rightarrow>
          let (metadata, body) = (case frontmatter_match content of
                Some (front, rest) \<Rightarrow> (load_metadata yaml front, rest)
              | None \<Rightarrow> (JObj [], content))
          in (case (meta_get metadata ''service'', meta_get metadata ''incident_type'', meta_get metadata ''owner_team'') of
                (Inr service, Inr incident_type, Inr owner_team) \<Rightarrow>
                  let secs = split_sections body
                  in Inr \<lparr>rb_file_name = file_name, rb_service = service, rb_incident_type = incident_type,
                       rb_owner_team = owner_team, rb_title = title_of file_name body,
                       rb_symptoms = extract_bullets (section_text secs ''symptoms''),
                       rb_likely_causes = extract_bullets (section_text secs ''likely causes''),
                       rb_recommended_actions = extract_bullets (section_text secs ''recommended actions''),
                       rb_raw_markdown = content, rb_sections = secs\<rparr>
              | _ \<Rightarrow> Inl (AttributeErr ''get'')))"

subsection \<open>The index\<close>

text \<open>A file that cannot be parsed is logged and left out.\<close>

definition reload :: "yaml_loader \<Rightarrow> directory \<Rightarrow> runbook list" where
  "reload yaml dir =
     (case dir of
        None \<Rightarrow> []
      | Some files \<Rightarrow> concat (map (\<lambda>(n, t). case parse_runbook_file yaml n t of Inl _ \<Rightarrow> [] | Inr d \<Rightarrow> [d]) files))"

subsection \<open>Scoring\<close>

definition common_terms :: "str list \<Rightarrow> str list \<Rightarrow> nat" where
  "common_terms query_terms terms = length (remdups (filter (\<lambda>t. t \<in> set terms) query_terms))"

definition py_lower :: "json \<Rightarrow> exn + str" where
  "py_lower v = (case v of JStr s \<Rightarrow> Inr (lower s) | _ \<Rightarrow> Inl (AttributeErr ''lower''))"

definition service_score :: "str \<Rightarrow> json \<Rightarrow> exn + rat" where
  "service_score service_name service =
     (if service_name = [] \<or> \<not> truthy service then Inr 0
      else case py_lower service of
          Inl e \<Rightarrow> Inl e
        | Inr s \<Rightarrow> Inr (if s = lower service_name then 2 else if contains (lower service_name) s then 1 else 0))"

definition float_0_8 :: rat where "float_0_8 = fl (8 / 10)"
definition float_0_2 :: rat where "float_0_2 = fl (2 / 10)"

definition symptom_score :: "str list \<Rightarrow> str list \<Rightarrow> rat \<Rightarrow> rat" where
  "symptom_score query_terms symptoms score0 =
     foldl (\<lambda>score symptom. fadd score (fmul (of_nat (common_terms query_terms (words (lower symptom)))) float_0_8))
       score0 symptoms"

definition term_score :: "str list \<Rightarrow> str \<Rightarrow> runbook \<Rightarrow> rat \<Rightarrow> rat" where
  "term_score query_terms incident_type doc score0 =
     (let score1 = fadd score0 (fmul (of_nat (common_terms query_terms (words incident_type))) (3 / 2));
          score2 = fadd score1 (fmul (of_nat (common_terms query_terms (words (lower (rb_title doc))))) 1);
          score3 = symptom_score query_terms (rb_symptoms doc) score2
      in fadd score3 (fmul (of_nat (common_terms query_terms (words (lower (rb_raw_markdown doc))))) float_0_2))"

definition score_of :: "str \<Rightarrow> str list \<Rightarrow> runbook \<Rightarrow> exn + rat" where
  "score_of service_name query_terms doc =
     (case service_score service_name (rb_service doc) of
        Inl e \<Rightarrow> Inl e
      | Inr s \<Rightarrow> (case py_lower (rb_incident_type doc) of
          Inl e \<Rightarrow> Inl e
        | Inr ty \<Rightarrow> Inr (term_score query_terms ty doc s)))"

fun score_loop :: "str \<Rightarrow> str list \<Rightarrow> runbook list \<Rightarrow> exn + (runbook \<times> rat) list" where
  "score_loop service_name query_terms [] = Inr []"
| "score_loop service_name query_terms (doc # docs) =
     (case score_of service_name query_terms doc of
        Inl e \<Rightarrow> Inl e
      | Inr s \<Rightarrow> (case score_loop service_name query_terms docs of
          Inl e \<Rightarrow> Inl e
        | Inr results \<Rightarrow> Inr (if 0 < s then (doc, s) # results else results)))"

text \<open>\<open>results.sort(key=score, reverse=True)\<close> keeps the order of equal scores.\<close>

definition retrieve :: "yaml_loader \<Rightarrow> directory \<Rightarrow> runbook list \<Rightarrow> str \<Rightarrow> str \<Rightarrow> nat \<Rightarrow> exn + (runbook \<times> rat) list" where
  "retrieve yaml dir documents service_name query top_k =
     (let docs = (if documents = [] then reload yaml dir else documents)
      in (case score_loop service_name (words (lower query)) docs of
            Inl e \<Rightarrow> Inl e
          | Inr results \<Rightarrow> Inr (take top_k (sort_key (\<lambda>r. - snd r) results))))"

subsection \<open>As evidence\<close>

definition texts :: "str list \<Rightarrow> json" where
  "texts xs = JList (map JStr xs)"

definition in_quotes :: "str \<Rightarrow> str" where
  "in_quotes s = CHR 0x27 # s @ [CHR 0x27]"

definition runbook_summary :: "runbook \<Rightarrow> str \<Rightarrow> str" where
  "runbook_summary doc otherwise =
     ''Runbook '' @ in_quotes (rb_title doc) @ '' ('' @ rb_file_name doc @ ''): Recommended action: '' @
       (if rb_recommended_actions doc \<noteq> [] then join ''; '' (take 2 (rb_recommended_actions doc)) else otherwise)"

record runbook_result =
  rr_source_name :: str
  rr_query :: str
  rr_query_params :: "(str \<times> json) list"
  rr_summary :: str
  rr_raw_data :: "(str \<times> json) list"
  rr_collected :: time

definition runbook_fields :: "runbook \<Rightarrow> (str \<times> json) list" where
  "runbook_fields doc =
     [(''file_name'', JStr (rb_file_name doc)), (''title'', JStr (rb_title doc)), (''service'', rb_service doc),
      (''incident_type'', rb_incident_type doc), (''owner_team'', rb_owner_team doc),
      (''symptoms'', texts (rb_symptoms doc)), (''likely_causes'', texts (rb_likely_causes doc)),
      (''recommended_actions'', texts (rb_recommended_actions doc))]"

definition runbook_result_ok :: "runbook_result \<Rightarrow> bool" where
  "runbook_result_ok r \<longleftrightarrow> len_between 1 128 (rr_source_name r) \<and> 1 \<le> length (rr_query r) \<and>
     1 \<le> length (rr_summary r) \<and> obj_finite (rr_query_params r) \<and> obj_finite (rr_raw_data r)"

text \<open>\<open>service_name or '*'\<close>; the time range of a runbook result stays None.\<close>

definition runbook_result_of :: "str \<Rightarrow> str \<Rightarrow> time \<Rightarrow> runbook \<times> rat \<Rightarrow> runbook_result" where
  "runbook_result_of service_name query now m =
     (let doc = fst m; score = snd m in
      \<lparr>rr_source_name = ''runbooks/'' @ rb_file_name doc,
        rr_query = ''service='' @ (if service_name = [] then ''*'' else service_name) @ '' query='' @ query,
        rr_query_params = [(''service_name'', JStr service_name), (''query'', JStr query),
          (''score'', JFloat (Fin (round2 score)))],
        rr_summary = runbook_summary doc ''Check logs'',
        rr_raw_data = runbook_fields doc @ [(''score'', JFloat (Fin score))],
        rr_collected = now\<rparr>)"

fun collect_results :: "runbook_result list \<Rightarrow> exn + runbook_result list" where
  "collect_results [] = Inr []"
| "collect_results (r # rs) =
     (if runbook_result_ok r then (case collect_results rs of Inl e \<Rightarrow> Inl e | Inr qs \<Rightarrow> Inr (r # qs))
      else Inl ValidationErr)"

definition retrieve_as_connector_result ::
    "yaml_loader \<Rightarrow> directory \<Rightarrow> runbook list \<Rightarrow> str \<Rightarrow> str \<Rightarrow> time option \<Rightarrow> world \<Rightarrow>
     (exn + runbook_result list) \<times> world" where
  "retrieve_as_connector_result yaml dir documents service_name query collected_at w =
     (case retrieve yaml dir documents service_name query 2 of
        Inl e \<Rightarrow> (Inl e, w)
      | Inr matches \<Rightarrow>
          (case collected_at of
             Some t \<Rightarrow> (collect_results (map (runbook_result_of service_name query t) matches), w)
           | None \<Rightarrow> (let (t, w1) = utc_now w in
               (collect_results (map (runbook_result_of service_name query t) matches), w1))))"

subsection \<open>What a search returns\<close>

lemma common_terms_card: "common_terms q t = card (set q \<inter> set t)"
proof -
  have "set (remdups (filter (\<lambda>x. x \<in> set t) q)) = set q \<inter> set t" by auto
  then show ?thesis unfolding common_terms_def by (metis distinct_card distinct_remdups)
qed

lemma common_terms_mono: "set q \<subseteq> set p \<Longrightarrow> common_terms q t \<le> common_terms p t"
  unfolding common_terms_card by (intro card_mono) auto

lemma score_loop_Inr:
  assumes "score_loop sn q docs = Inr rs"
  shows "(\<forall>d \<in> set docs. \<exists>s. score_of sn q d = Inr s) \<and>
    set rs = {(d, s). d \<in> set docs \<and> score_of sn q d = Inr s \<and> 0 < s}"
  using assms
proof (induction docs arbitrary: rs)
  case (Cons d docs)
  obtain s where s: "score_of sn q d = Inr s" using Cons.prems by (auto split: sum.splits)
  obtain qs where qs: "score_loop sn q docs = Inr qs" using Cons.prems s by (auto split: sum.splits)
  have rs: "rs = (if 0 < s then (d, s) # qs else qs)" using Cons.prems s qs by simp
  note ih = Cons.IH [OF qs]
  have "set rs = {(x, y). (x = d \<and> y = s \<and> 0 < s) \<or> (x, y) \<in> set qs}" unfolding rs by auto
  also have "\<dots> = {(x, y). x \<in> set (d # docs) \<and> score_of sn q x = Inr y \<and> 0 < y}"
    using ih s by auto
  finally show ?case using ih s by simp
qed simp

lemma score_loop_Inl:
  "(\<exists>e. score_loop sn q docs = Inl e) \<longleftrightarrow> (\<exists>d \<in> set docs. \<exists>e. score_of sn q d = Inl e)"
proof (induction docs)
  case (Cons d docs)
  show ?case
  proof (cases "score_of sn q d")
    case (Inr s)
    then show ?thesis using Cons.IH by (auto split: sum.splits)
  qed auto
qed simp

text \<open>The documents a search looks at: the index, read again when it is empty.\<close>

definition searched :: "yaml_loader \<Rightarrow> directory \<Rightarrow> runbook list \<Rightarrow> runbook list" where
  "searched yaml dir documents = (if documents = [] then reload yaml dir else documents)"

lemma retrieve_Inr:
  assumes "retrieve yaml dir docs sn query k = Inr rs"
  obtains ms where "score_loop sn (words (lower query)) (searched yaml dir docs) = Inr ms"
    and "rs = take k (sort_key (\<lambda>r. - snd r) ms)"
  using assms by (auto simp: retrieve_def searched_def split: sum.splits)

lemma taken_sorted_desc: "sorted_wrt (\<lambda>a b. snd b \<le> (snd a :: rat)) (take k (sort_key (\<lambda>r. - snd r) ms))"
proof -
  have "sorted (map (\<lambda>r. - snd r) (sort_key (\<lambda>r. - snd r) ms))" by (rule sorted_sort_key)
  then have "sorted_wrt (\<lambda>a b. snd b \<le> snd a) (sort_key (\<lambda>r. - snd r) ms)"
    by (simp add: sorted_wrt_map)
  then show ?thesis by (rule sorted_wrt_take)
qed

lemma desc_append:
  "sorted (map (\<lambda>r. - snd r) (xs @ ys)) \<Longrightarrow> \<forall>t \<in> set xs. \<forall>u \<in> set ys. snd u \<le> (snd t :: rat)"
  by (auto simp: sorted_append)

lemma left_out:
  assumes "r \<in> set ms" "r \<notin> set (take k (sort_key (\<lambda>r. - snd r) ms))"
  shows "length (take k (sort_key (\<lambda>r. - snd r) ms)) = k \<and>
    (\<forall>t \<in> set (take k (sort_key (\<lambda>r. - snd r) ms)). snd r \<le> (snd t :: rat))"
proof -
  let ?s = "sort_key (\<lambda>r. - snd r) ms"
  have "r \<in> set (take k ?s) \<union> set (drop k ?s)" using assms(1) by (metis append_take_drop_id set_append set_sort)
  then have r: "r \<in> set (drop k ?s)" using assms(2) by blast
  then have "k < length ?s" by (metis drop_eq_Nil empty_iff empty_set not_le)
  moreover have "sorted (map (\<lambda>r. - snd r) (take k ?s @ drop k ?s))" by (simp only: append_take_drop_id sorted_sort_key)
  then have "\<forall>t \<in> set (take k ?s). \<forall>u \<in> set (drop k ?s). snd u \<le> snd t" by (rule desc_append)
  ultimately show ?thesis using r by auto
qed

text \<open>C30: A search returns at most \<open>top_k\<close> documents of the index with their positive scores, the best first; a document with a positive score is only left out when the result is full of documents that score at least as high.\<close>

theorem retrieve_best:
  assumes "retrieve yaml dir docs sn query k = Inr rs"
  shows "length rs \<le> k \<and> sorted_wrt (\<lambda>a b. snd b \<le> snd a) rs \<and>
    (\<forall>r \<in> set rs. fst r \<in> set (searched yaml dir docs) \<and>
       score_of sn (words (lower query)) (fst r) = Inr (snd r) \<and> 0 < snd r) \<and>
    (\<forall>d s. d \<in> set (searched yaml dir docs) \<and> score_of sn (words (lower query)) d = Inr s \<and> 0 < s \<and>
       (d, s) \<notin> set rs \<longrightarrow> length rs = k \<and> (\<forall>r \<in> set rs. s \<le> snd r))"
proof -
  obtain ms where ms: "score_loop sn (words (lower query)) (searched yaml dir docs) = Inr ms"
    and rs: "rs = take k (sort_key (\<lambda>r. - snd r) ms)"
    using assms by (rule retrieve_Inr)
  note sc = score_loop_Inr [OF ms]
  have sub: "set rs \<subseteq> set ms" unfolding rs by (metis set_sort set_take_subset)
  have "length rs = k \<and> (\<forall>r \<in> set rs. s \<le> snd r)"
    if "d \<in> set (searched yaml dir docs) \<and> score_of sn (words (lower query)) d = Inr s \<and> 0 < s \<and> (d, s) \<notin> set rs" for d s
    using left_out [of "(d, s)" ms k] sc that unfolding rs by simp
  moreover have "fst r \<in> set (searched yaml dir docs) \<and> score_of sn (words (lower query)) (fst r) = Inr (snd r) \<and> 0 < snd r"
    if "r \<in> set rs" for r
  proof -
    have "r \<in> set ms" using that sub by auto
    then show ?thesis unfolding conjunct2 [OF sc] by auto
  qed
  ultimately show ?thesis using taken_sorted_desc rs by auto
qed

subsection \<open>More query words never lower a score\<close>

lemma term_fmul_mono:
  assumes "set q \<subseteq> set p" "0 \<le> c"
  shows "fmul (of_nat (common_terms q t)) c \<le> fmul (of_nat (common_terms p t)) c"
  using common_terms_mono [OF assms(1), of t] assms(2) by (intro fmul_mono) simp_all

lemma symptom_score_mono:
  assumes "set q \<subseteq> set p" "a \<le> b"
  shows "symptom_score q ss a \<le> symptom_score p ss b"
  using assms(2)
proof (induction ss arbitrary: a b)
  case (Cons x ss)
  have "0 \<le> float_0_8" by (simp add: float_0_8_def fl_nonneg)
  then have "fadd a (fmul (of_nat (common_terms q (words (lower x)))) float_0_8) \<le>
      fadd b (fmul (of_nat (common_terms p (words (lower x)))) float_0_8)"
    using Cons.prems term_fmul_mono [OF assms(1)] by (intro fadd_mono) simp_all
  then show ?case using Cons.IH by (simp add: symptom_score_def)
qed (simp add: symptom_score_def)

lemma term_score_mono:
  assumes "set q \<subseteq> set p"
  shows "term_score q ty doc s \<le> term_score p ty doc s"
proof -
  have "0 \<le> float_0_2" by (simp add: float_0_2_def fl_nonneg)
  then show ?thesis
    unfolding term_score_def Let_def
    by (intro fadd_mono symptom_score_mono [OF assms] term_fmul_mono [OF assms] order_refl) simp_all
qed

text \<open>The score of a document grows with the query: a query with more words scores every document at least as high, through every rounding of the float sums.\<close>

theorem score_monotone:
  assumes "set (words (lower q)) \<subseteq> set (words (lower p))"
    and "score_of sn (words (lower q)) doc = Inr s"
  shows "\<exists>t. score_of sn (words (lower p)) doc = Inr t \<and> s \<le> t"
  using assms(2) term_score_mono [OF assms(1)] by (auto simp: score_of_def split: sum.splits)

subsection \<open>Front matter that breaks every search\<close>

fun is_text :: "json \<Rightarrow> bool" where
  "is_text (JStr _) = True"
| "is_text _ = False"

definition searchable :: "str \<Rightarrow> runbook \<Rightarrow> bool" where
  "searchable sn d \<longleftrightarrow> is_text (rb_incident_type d) \<and> (sn \<noteq> [] \<and> truthy (rb_service d) \<longrightarrow> is_text (rb_service d))"

lemma score_of_Inl: "(\<exists>e. score_of sn q d = Inl e) \<longleftrightarrow> \<not> searchable sn d"
  by (cases "rb_incident_type d"; cases "rb_service d")
    (auto simp: score_of_def service_score_def py_lower_def searchable_def)

lemma retrieve_raises_iff:
  "(\<exists>e. retrieve yaml dir docs sn query k = Inl e) \<longleftrightarrow>
    (\<exists>d \<in> set (searched yaml dir docs). \<not> searchable sn d)"
proof -
  have "(\<exists>e. retrieve yaml dir docs sn query k = Inl e) \<longleftrightarrow>
      (\<exists>e. score_loop sn (words (lower query)) (searched yaml dir docs) = Inl e)"
    by (auto simp: retrieve_def searched_def split: sum.splits)
  then show ?thesis by (simp add: score_loop_Inl score_of_Inl)
qed

text \<open>C32: A search raises exactly when the front matter of one indexed runbook holds an incident type, or with a named service a non-empty service, that is not text (an \<open>incident_type:\<close> left empty is None): \<open>reload\<close> skips a file it cannot parse, but such a file is indexed and \<open>.lower()\<close> then fails every search.\<close>

theorem retrieve_raises:
  "(\<exists>e. retrieve yaml dir docs sn query k = Inl e) \<longleftrightarrow>
    (\<exists>d \<in> set (searched yaml dir docs). \<not> searchable sn d)"
  by (rule retrieve_raises_iff)

subsection \<open>Written and read back\<close>

text \<open>
  \<open>render_runbook\<close> writes a runbook the way the files under \<open>runbooks/\<close> are written: front matter,
  title, the symptoms with dashes, the causes and the actions numbered, any of these wrapped over
  indented lines, and further sections. An item is its first line and the lines it goes on with. A
  \<open>plain\<close> text is one line without white space around it.
\<close>

type_synonym item = "str \<times> str list"

definition plain :: "str \<Rightarrow> bool" where
  "plain s \<longleftrightarrow> s \<noteq> [] \<and> \<not> is_space (hd s) \<and> \<not> is_space (last s) \<and> (\<forall>c \<in> set s. \<not> is_line_end c)"

definition item_ok :: "item \<Rightarrow> bool" where
  "item_ok x \<longleftrightarrow> plain (fst x) \<and> (\<forall>l \<in> set (snd x). plain l \<and> bullet_match l = None)"

definition item_lines :: "str \<Rightarrow> item \<Rightarrow> str list" where
  "item_lines marker x = (marker @ CHR '' '' # fst x) # map (\<lambda>l. ''   '' @ l) (snd x)"

definition dashed :: "item list \<Rightarrow> str list" where
  "dashed items = concat (map (item_lines ''-'') items)"

fun numbered :: "nat \<Rightarrow> item list \<Rightarrow> str list" where
  "numbered n [] = []"
| "numbered n (x # xs) = item_lines (str_nat n @ ''.'') x @ numbered (Suc n) xs"

definition section_ok :: "str \<times> str list \<Rightarrow> bool" where
  "section_ok x \<longleftrightarrow> plain (fst x) \<and> lower (fst x) \<notin> {''symptoms'', ''likely causes'', ''recommended actions''} \<and>
     (\<forall>l \<in> set (snd x). heading ''##'' l = None \<and> (\<forall>c \<in> set l. \<not> is_line_end c))"

definition section_lines :: "(str \<times> str list) list \<Rightarrow> str list" where
  "section_lines secs = concat (map (\<lambda>x. [[], ''## '' @ fst x, []] @ snd x) secs)"

definition lines_text :: "str list \<Rightarrow> str" where
  "lines_text ls = concat (map (\<lambda>l. l @ newline) ls)"

definition runbook_lines :: "str \<Rightarrow> item list \<Rightarrow> item list \<Rightarrow> item list \<Rightarrow> (str \<times> str list) list \<Rightarrow> str list" where
  "runbook_lines title symptoms causes actions extra =
     [''# '' @ title, []] @ [''## Symptoms'', []] @ dashed symptoms @
     [[], ''## Likely causes'', []] @ numbered 1 causes @
     [[], ''## Recommended actions'', []] @ numbered 1 actions @ section_lines extra"

definition render_runbook :: "str \<Rightarrow> str \<Rightarrow> item list \<Rightarrow> item list \<Rightarrow> item list \<Rightarrow> (str \<times> str list) list \<Rightarrow> str" where
  "render_runbook front title symptoms causes actions extra =
     ''---'' @ newline @ front @ newline @ ''---'' @ newline @ newline @
     lines_text (runbook_lines title symptoms causes actions extra)"

lemma space_facts [simp]: "is_space CHR 0x0A" "is_space CHR '' ''" "\<not> is_space CHR ''-''" "\<not> is_space CHR ''#''"
  by (simp_all add: is_space_def)

lemma line_end_newline [simp]: "is_line_end CHR 0x0A"
  by (simp add: is_line_end_def)

lemma strip_core:
  assumes "\<forall>c \<in> set a. is_space c" "\<forall>c \<in> set b. is_space c" "s \<noteq> []" "\<not> is_space (hd s)" "\<not> is_space (last s)"
  shows "strip (a @ s @ b) = s"
proof -
  obtain x t where s: "s = x # t" "\<not> is_space x" using assms(3,4) by (cases s) auto
  have "dropWhile is_space (a @ s @ b) = s @ b" using assms(1) s by (simp add: dropWhile_append2)
  moreover have "dropWhile is_space (rev s) = rev s"
    using assms(3,5) by (cases s rule: rev_cases) auto
  moreover have "dropWhile is_space (rev b @ rev s) = dropWhile is_space (rev s)"
    using assms(2) by (intro dropWhile_append2) simp
  ultimately show ?thesis by (simp add: strip_def strip_by_def)
qed

lemma strip_plain: "plain s \<Longrightarrow> strip s = s"
  using strip_core [of "[]" "[]" s] by (simp add: plain_def)

lemma after_spaces_solid: "s \<noteq> [] \<Longrightarrow> \<not> is_space (hd s) \<Longrightarrow> after_spaces (s @ r) = []"
  by (cases s) auto

lemma plain_no_newline: "plain s \<Longrightarrow> c \<in> set s \<Longrightarrow> c \<noteq> CHR 0x0A"
  by (auto simp: plain_def)

lemma dot_plus_plain:
  assumes "plain s" "r = [] \<or> hd r = CHR 0x0A"
  shows "dot_plus (s @ r) = Some s"
proof -
  obtain x t where s: "s = x # t" using assms(1) by (cases s) (auto simp: plain_def)
  have "takeWhile (\<lambda>c. c \<noteq> CHR 0x0A) (s @ r) = s"
    using plain_no_newline [OF assms(1)] assms(2) by (cases r) (auto simp: takeWhile_append2 takeWhile_eq_all_conv)
  then show ?thesis using s plain_no_newline [OF assms(1)] by (auto simp: dot_plus_def)
qed

lemma after_marker:
  assumes "plain s" "r = [] \<or> hd r = CHR 0x0A"
  shows "first_some dot_plus (after_spaces (CHR '' '' # s @ r)) = Some s"
  using dot_plus_plain [OF assms] after_spaces_solid [of s r] assms(1) by (simp add: plain_def)

lemma heading_plain:
  assumes "plain t" "r = [] \<or> hd r = CHR 0x0A"
  shows "heading m (m @ CHR '' '' # t @ r) = Some t"
  using after_marker [OF assms] by (simp add: heading_def)

text \<open>What a list of lines must be to be read back as the items \<open>bs\<close>.\<close>

definition reads :: "str list \<Rightarrow> str list \<Rightarrow> bool" where
  "reads ls bs \<longleftrightarrow>
     concat (map (\<lambda>l. case bullet_match (strip l) of None \<Rightarrow> [] | Some t \<Rightarrow> [strip t]) ls) = bs \<and>
     (\<forall>l \<in> set ls. l \<noteq> [] \<and> \<not> is_space (last l) \<and> heading ''##'' l = None \<and> (\<forall>c \<in> set l. \<not> is_line_end c)) \<and>
     (ls \<noteq> [] \<longrightarrow> \<not> is_space (hd (hd ls)))"

lemma reads_Nil: "reads [] []"
  by (simp add: reads_def)

lemma reads_append: "reads as bs \<Longrightarrow> reads cs ds \<Longrightarrow> reads (as @ cs) (bs @ ds)"
  by (cases "as") (auto simp: reads_def)

text \<open>The markers of an item: a dash, or a number and a dot.\<close>

definition marker_ok :: "str \<Rightarrow> bool" where
  "marker_ok m \<longleftrightarrow> m \<noteq> [] \<and> \<not> is_space (hd m) \<and> hd m \<noteq> CHR ''#'' \<and> (\<forall>c \<in> set m. \<not> is_line_end c) \<and>
     (\<forall>t. plain t \<longrightarrow> bullet_match (m @ CHR '' '' # t) = Some t)"

lemma marker_dash: "marker_ok ''-''"
  using after_marker [of _ "[]"] by (auto simp: marker_ok_def bullet_match_def is_line_end_def)

lemma digit_facts: "c \<in> digit_chars \<Longrightarrow> is_digit c \<and> \<not> is_space c \<and> c \<noteq> CHR ''#'' \<and> c \<noteq> CHR ''-'' \<and> \<not> is_line_end c"
  by (auto simp: digit_chars_def is_digit_def is_space_def is_line_end_def less_eq_char_def)

lemma marker_number: "marker_ok (str_nat n @ ''.'')"
proof -
  obtain c q where d: "digits_of n = c # q" using digits_of_nonempty by (cases "digits_of n") auto
  have f: "is_digit x \<and> \<not> is_space x \<and> x \<noteq> CHR ''#'' \<and> x \<noteq> CHR ''-'' \<and> \<not> is_line_end x" if "x \<in> set (c # q)" for x
    using that digits_of_digits [of n] digit_facts unfolding d by blast
  have w: "dropWhile is_digit (q @ CHR ''.'' # r) = CHR ''.'' # r" for r
    using f by (subst dropWhile_append2) (auto simp: is_digit_def)
  have "bullet_match ((str_nat n @ ''.'') @ CHR '' '' # t) = Some t" if "plain t" for t
    using f [of c] w after_marker [OF that, of "[]"] by (simp add: bullet_match_def str_nat_def d)
  moreover have "\<not> is_line_end CHR ''.''" by (simp add: is_line_end_def)
  ultimately show ?thesis using f by (auto simp: marker_ok_def str_nat_def d)
qed

lemma is_line_end_space: "\<not> is_line_end CHR '' ''" "\<not> is_line_end CHR ''#''"
  by (simp_all add: is_line_end_def)

lemma reads_item:
  assumes "marker_ok m" "item_ok x"
  shows "reads (item_lines m x) [fst x]"
proof -
  let ?l = "m @ CHR '' '' # fst x"
  have p: "plain (fst x)" using assms(2) by (simp add: item_ok_def)
  have m: "m \<noteq> []" "\<not> is_space (hd m)" "hd m \<noteq> CHR ''#''" "\<forall>c \<in> set m. \<not> is_line_end c" "bullet_match ?l = Some (fst x)"
    using assms(1) p by (simp_all add: marker_ok_def)
  have l: "?l \<noteq> []" "hd ?l = hd m" "last ?l = last (fst x)" using m(1) p by (auto simp: plain_def)
  then have "strip ?l = ?l" using strip_core [of "[]" "[]" ?l] m(2) p by (simp add: plain_def)
  then have first: "(case bullet_match (strip ?l) of None \<Rightarrow> [] | Some t \<Rightarrow> [strip t]) = [fst x]"
    using m(5) strip_plain [OF p] by simp
  have ok: "\<not> is_space (last ?l)" "heading ''##'' ?l = None" "\<forall>c \<in> set ?l. \<not> is_line_end c"
  proof -
    obtain c q where c: "m = c # q" "c \<noteq> CHR ''#''" using m(1,3) by (cases m) auto
    show "\<not> is_space (last ?l)" unfolding l(3) using p by (simp add: plain_def)
    show "heading ''##'' ?l = None" using c by (simp add: heading_def)
    show "\<forall>c \<in> set ?l. \<not> is_line_end c" using m(4) p by (auto simp: plain_def is_line_end_space)
  qed
  have more: "strip (''   '' @ k) = k \<and> bullet_match k = None \<and> \<not> is_space (last (''   '' @ k)) \<and>
      heading ''##'' (''   '' @ k) = None \<and> (\<forall>c \<in> set (''   '' @ k). \<not> is_line_end c)" if "k \<in> set (snd x)" for k
  proof -
    have k: "plain k" "bullet_match k = None" using assms(2) that by (auto simp: item_ok_def)
    then have "strip (''   '' @ k) = k" using strip_core [of "''   ''" "[]" k] by (simp add: plain_def)
    then show ?thesis using k by (auto simp: plain_def heading_def is_line_end_space)
  qed
  then have rest: "concat (map (\<lambda>l. case bullet_match (strip l) of None \<Rightarrow> [] | Some t \<Rightarrow> [strip t]) (map (\<lambda>l. ''   '' @ l) (snd x))) = []"
    by (simp only: concat_eq_Nil_conv set_map) auto
  show ?thesis
    unfolding reads_def item_lines_def using first rest ok l m(2) more by auto
qed

lemma reads_dashed: "\<forall>x \<in> set items. item_ok x \<Longrightarrow> reads (dashed items) (map fst items)"
proof (induction items)
  case (Cons x xs)
  then have "reads (item_lines ''-'' x @ dashed xs) ([fst x] @ map fst xs)"
    by (intro reads_append reads_item marker_dash) simp_all
  then show ?case by (simp add: dashed_def)
qed (simp add: dashed_def reads_Nil)

lemma reads_numbered: "\<forall>x \<in> set items. item_ok x \<Longrightarrow> reads (numbered n items) (map fst items)"
proof (induction items arbitrary: n)
  case (Cons x xs)
  then have "reads (item_lines (str_nat n @ ''.'') x @ numbered (Suc n) xs) ([fst x] @ map fst xs)"
    by (intro reads_append reads_item marker_number) simp_all
  then show ?case by simp
qed (simp add: reads_Nil)

lemma join_Cons: "xs \<noteq> [] \<Longrightarrow> join sep (x # xs) = x @ sep @ join sep xs"
  by (cases xs) auto

lemma join_append: "xs \<noteq> [] \<Longrightarrow> ys \<noteq> [] \<Longrightarrow> join sep (xs @ ys) = join sep xs @ sep @ join sep ys"
  by (induction sep xs rule: join.induct) (auto simp: neq_Nil_conv)

lemma join_first: "x \<noteq> [] \<Longrightarrow> join sep (x # xs) \<noteq> [] \<and> hd (join sep (x # xs)) = hd x"
  by (cases xs) auto

lemma join_last: "xs \<noteq> [] \<Longrightarrow> last xs \<noteq> [] \<Longrightarrow> last (join sep xs) = last (last xs)"
proof (induction sep xs rule: join.induct)
  case (3 sep x y zs)
  have "join sep (y # zs) \<noteq> []"
    using 3(3) by (induction sep "y # zs" arbitrary: y zs rule: join.induct) auto
  then show ?case using 3 by simp
qed auto

lemma splitlines_join:
  assumes "\<forall>l \<in> set ls. l \<noteq> [] \<and> (\<forall>c \<in> set l. \<not> is_line_end c)"
  shows "splitlines (join newline ls) = ls"
  using assms
proof (induction "newline" ls rule: join.induct)
  case 1
  then show ?case by (simp add: splitlines.simps)
next
  case (2 x)
  then show ?case by (simp add: splitlines_last)
next
  case (3 x y zs)
  then show ?case by (simp add: newline_def splitlines_line)
qed

lemma splitlines_lines_text:
  "\<forall>l \<in> set ls. \<forall>c \<in> set l. \<not> is_line_end c \<Longrightarrow> splitlines (lines_text ls) = ls"
  by (induction ls) (simp_all add: lines_text_def newline_def splitlines_line splitlines.simps [of "[]"])

lemma items_text:
  assumes "reads ls bs" "e = [] \<or> e = [[]]"
  shows "extract_bullets (strip (join newline ([[]] @ ls @ e))) = bs"
proof (cases "ls = []")
  case True
  have "strip [] = []" "strip newline = []" by code_simp+
  then show ?thesis
    using assms True by (auto simp: extract_bullets_def splitlines.simps [of "[]"] reads_def)
next
  case False
  let ?j = "join newline ls"
  have f: "\<forall>l \<in> set ls. l \<noteq> [] \<and> \<not> is_space (last l) \<and> (\<forall>c \<in> set l. \<not> is_line_end c)" "\<not> is_space (hd (hd ls))"
    using assms(1) False by (auto simp: reads_def)
  have h: "?j \<noteq> [] \<and> hd ?j = hd (hd ls)"
    using False f(1) join_first [of "hd ls" newline "tl ls"] by (cases ls) auto
  have l: "\<not> is_space (last ?j)" using join_last [OF False, of newline] f(1) False by simp
  have "join newline ([[]] @ ls @ e) = newline @ ?j @ (if e = [] then [] else newline)"
    using assms(2) False by (auto simp: join_append join_Cons)
  then have "strip (join newline ([[]] @ ls @ e)) = ?j"
    using strip_core [of newline "if e = [] then [] else newline" ?j] h l f(2) by (simp add: newline_def)
  moreover have "splitlines ?j = ls" using f(1) by (intro splitlines_join) auto
  ultimately show ?thesis using assms(1) by (simp add: extract_bullets_def reads_def)
qed

lemma section_loop_lines:
  "\<forall>l \<in> set ls. heading ''##'' l = None \<Longrightarrow> section_loop (ls @ rest) cur acc d = section_loop rest cur (acc @ ls) d"
  by (induction ls arbitrary: acc) auto

lemma no_heading [simp]:
  "heading ''##'' [] = None" "heading ''##'' (CHR ''#'' # CHR '' '' # t) = None"
  by (simp_all add: heading_def)

lemma section_headings:
  "heading ''##'' ''## Symptoms'' = Some ''Symptoms''" "lower (strip ''Symptoms'') = ''symptoms''"
  "heading ''##'' ''## Likely causes'' = Some ''Likely causes''" "lower (strip ''Likely causes'') = ''likely causes''"
  "heading ''##'' ''## Recommended actions'' = Some ''Recommended actions''"
  "lower (strip ''Recommended actions'') = ''recommended actions''"
  by code_simp+

lemma section_step:
  assumes "\<forall>l \<in> set ls. heading ''##'' l = None" "heading ''##'' h = Some t" "ls \<noteq> []"
  shows "section_loop (ls @ h # rest) cur [] d =
    section_loop rest (lower (strip t)) [] (AList.update cur (strip (join newline ls)) d)"
  using section_loop_lines [OF assms(1), of "h # rest" cur "[]" d] assms(2,3) by simp

text \<open>The further sections leave the ones before them alone.\<close>

lemma section_loop_more:
  assumes "\<forall>x \<in> set secs. section_ok x" "n \<in> {''symptoms'', ''likely causes'', ''recommended actions''}" "acc \<noteq> []"
  shows "map_of (section_loop (section_lines secs) cur acc d) n =
    (if n = cur then Some (strip (join newline (acc @ (if secs = [] then [] else [[]])))) else map_of d n)"
  using assms(1,3)
proof (induction secs arbitrary: cur acc d)
  case Nil
  then show ?case by (simp add: section_lines_def update_conv')
next
  case (Cons x xs)
  have x: "section_ok x" using Cons.prems(1) by simp
  then have p: "plain (fst x)" "lower (fst x) \<noteq> n" using assms(2) by (auto simp: section_ok_def)
  have "heading ''##'' (''## '' @ fst x) = Some (fst x)" using heading_plain [OF p(1), of "[]" "''##''"] by simp
  then have "section_loop (section_lines (x # xs)) cur acc d =
      section_loop ([[]] @ snd x @ section_lines xs) (lower (fst x)) [] (AList.update cur (strip (join newline (acc @ [[]]))) d)"
    using strip_plain [OF p(1)] by (simp add: section_lines_def)
  also have "\<dots> = section_loop (section_lines xs) (lower (fst x)) ([[]] @ snd x)
      (AList.update cur (strip (join newline (acc @ [[]]))) d)"
    using section_loop_lines [of "[[]] @ snd x" "section_lines xs" "lower (fst x)" "[]"] x by (simp add: section_ok_def)
  finally show ?case using Cons.IH [of "[[]] @ snd x" "lower (fst x)"] Cons.prems p(2) by (simp add: update_conv')
qed

lemma runbook_sections:
  assumes "reads ss bs" "reads cs ds" "reads as es" "\<forall>x \<in> set secs. section_ok x"
  shows "\<exists>e. (e = [] \<or> e = [[]]) \<and>
    (let secs = section_loop ([''# '' @ title, []] @ ''## Symptoms'' # ([[]] @ ss @ [[]]) @ ''## Likely causes'' #
         ([[]] @ cs @ [[]]) @ ''## Recommended actions'' # ([[]] @ as) @ section_lines secs) ''intro'' [] []
     in section_text secs ''symptoms'' = strip (join newline ([[]] @ ss @ [[]])) \<and>
        section_text secs ''likely causes'' = strip (join newline ([[]] @ cs @ [[]])) \<and>
        section_text secs ''recommended actions'' = strip (join newline ([[]] @ as @ e)))"
proof -
  have h: "reads ls xs \<Longrightarrow> \<forall>l \<in> set ([[]] @ ls @ [[]]). heading ''##'' l = None" for ls xs
    by (auto simp: reads_def)
  have hl: "reads ls xs \<Longrightarrow> \<forall>l \<in> set ([[]] @ ls). heading ''##'' l = None" for ls xs
    by (auto simp: reads_def)
  have i: "\<forall>l \<in> set [''# '' @ title, []]. heading ''##'' l = None" by simp
  let ?d = "AList.update ''likely causes'' (strip (join newline ([[]] @ cs @ [[]])))
       (AList.update ''symptoms'' (strip (join newline ([[]] @ ss @ [[]])))
        (AList.update ''intro'' (strip (join newline [''# '' @ title, []])) []))"
  have ne: "[''# '' @ title, []] \<noteq> []" "[[]] @ ls @ [[]] \<noteq> []" for ls by simp_all
  have l: "section_loop ([''# '' @ title, []] @ ''## Symptoms'' # ([[]] @ ss @ [[]]) @ ''## Likely causes'' #
         ([[]] @ cs @ [[]]) @ ''## Recommended actions'' # ([[]] @ as) @ section_lines secs) ''intro'' [] [] =
      section_loop (section_lines secs) ''recommended actions'' ([[]] @ as) ?d"
    using section_step [OF i section_headings(1) ne(1)] section_step [OF h [OF assms(1)] section_headings(3) ne(2)]
      section_step [OF h [OF assms(2)] section_headings(5) ne(2)]
      section_loop_lines [OF hl [OF assms(3)], of "section_lines secs" "''recommended actions''" "[]" ?d]
    unfolding section_headings by (simp only: append_Nil)
  note m = section_loop_more [OF assms(4), of _ "[[]] @ as" "''recommended actions''" ?d]
  show ?thesis
    unfolding l Let_def section_text_def
    using m [of "''symptoms''"] m [of "''likely causes''"] m [of "''recommended actions''"]
    by (intro exI [of _ "if secs = [] then [] else [[]]"]) (simp add: update_conv')
qed

lemma starts_with_cut_last: "starts_with p (f @ c # x) \<Longrightarrow> c \<notin> set p \<Longrightarrow> starts_with p f"
  by (induction p f rule: starts_with.induct) auto

lemma starts_with_cut:
  assumes "starts_with (a # p) (f @ c # x)" "f \<noteq> []" "c \<notin> set p"
  shows "starts_with (a # p) f"
  using assms starts_with_cut_last by (cases f) auto

lemma close_front_found:
  assumes "\<not> contains (CHR 0x0A # ''---'') front" "body \<noteq> []" "\<not> is_space (hd body)"
  shows "close_front acc (front @ newline @ ''---'' @ newline @ newline @ body) = Some (rev acc @ front, body)"
  using assms(1)
proof (induction front arbitrary: acc)
  case Nil
  have "after_newlines (newline @ newline @ body) = [body, newline @ body]"
    using assms(2,3) by (cases body) (simp_all add: newline_def)
  then show ?case by (simp add: newline_def)
next
  case (Cons c front)
  have n: "\<not> starts_with (CHR 0x0A # ''---'') (c # front)" "\<not> contains (CHR 0x0A # ''---'') front"
    using Cons.prems by auto
  have "\<not> starts_with (CHR 0x0A # ''---'') ((c # front) @ newline @ ''---'' @ newline @ newline @ body)"
  proof
    assume "starts_with (CHR 0x0A # ''---'') ((c # front) @ newline @ ''---'' @ newline @ newline @ body)"
    then have "starts_with (CHR 0x0A # ''---'') ((c # front) @ CHR 0x0A # (''---'' @ newline @ newline @ body))"
      by (simp only: newline_def append_Cons append_Nil)
    then have "starts_with (CHR 0x0A # ''---'') (c # front)" by (rule starts_with_cut) simp_all
    then show False using n(1) by contradiction
  qed
  then show ?case using Cons.IH [OF n(2), of "c # acc"] by (simp del: starts_with.simps)
qed

lemma render_front:
  assumes "front \<noteq> []" "\<not> is_space (hd front)" "\<not> contains (CHR 0x0A # ''---'') front"
  shows "frontmatter_match (render_runbook front title symptoms causes actions extra) =
    Some (front, lines_text (runbook_lines title symptoms causes actions extra))"
proof -
  let ?body = "lines_text (runbook_lines title symptoms causes actions extra)"
  have b: "?body \<noteq> []" "\<not> is_space (hd ?body)" by (simp_all add: lines_text_def runbook_lines_def)
  let ?rest = "front @ newline @ ''---'' @ newline @ newline @ ?body"
  have "after_newlines (newline @ ?rest) = [?rest]"
    using assms(1,2) by (cases front) (simp_all add: newline_def)
  then have "first_some (close_front []) (after_newlines (newline @ ?rest)) = Some (front, ?body)"
    using close_front_found [OF assms(3) b, of "[]"] by simp
  then show ?thesis by (simp add: frontmatter_match_def render_runbook_def)
qed

lemma render_title:
  assumes "plain title"
  shows "title_of file_name (lines_text (runbook_lines title symptoms causes actions extra)) = title"
proof -
  obtain r where "lines_text (runbook_lines title symptoms causes actions extra) = ''#'' @ CHR '' '' # title @ CHR 0x0A # r"
    by (simp add: lines_text_def runbook_lines_def newline_def)
  then show ?thesis
    using heading_plain [OF assms, of "CHR 0x0A # r" "''#''"] strip_plain [OF assms]
    by (simp add: title_of_def title_match.simps)
qed

lemma render_lines:
  assumes "plain title" "reads (dashed symptoms) bs" "reads (numbered 1 causes) cs" "reads (numbered 1 actions) as"
    "\<forall>x \<in> set extra. section_ok x"
  shows "splitlines (lines_text (runbook_lines title symptoms causes actions extra)) =
    runbook_lines title symptoms causes actions extra"
proof -
  have t: "\<forall>c \<in> set (''# '' @ title). \<not> is_line_end c" using assms(1) by (auto simp: plain_def is_line_end_def)
  have b: "\<forall>c \<in> set l. \<not> is_line_end c" if "l \<in> set (dashed symptoms) \<union> set (numbered 1 causes) \<union> set (numbered 1 actions)" for l
    using that assms(2-4) unfolding reads_def by blast
  have m: "\<forall>c \<in> set l. \<not> is_line_end c" if "l \<in> set (section_lines extra)" for l
  proof -
    have "\<exists>x \<in> set extra. l = [] \<or> l = ''## '' @ fst x \<or> l \<in> set (snd x)"
      using that ex_in_conv [of "set extra"] by (force simp: section_lines_def split: if_splits)
    then obtain x where x: "x \<in> set extra" "l = [] \<or> l = ''## '' @ fst x \<or> l \<in> set (snd x)" ..
    then have "plain (fst x)" "\<forall>k \<in> set (snd x). \<forall>c \<in> set k. \<not> is_line_end c"
      using assms(5) by (simp_all add: section_ok_def)
    then show ?thesis using x(2) by (auto simp: plain_def is_line_end_space)
  qed
  have lit: "\<forall>l \<in> set [''## Symptoms'', []]. \<forall>c \<in> set l. \<not> is_line_end c"
    "\<forall>l \<in> set [[], ''## Likely causes'', []]. \<forall>c \<in> set l. \<not> is_line_end c"
    "\<forall>l \<in> set [[], ''## Recommended actions'', []]. \<forall>c \<in> set l. \<not> is_line_end c"
    "\<forall>l \<in> set [''# '' @ title, []]. \<forall>c \<in> set l. \<not> is_line_end c"
    using t by (simp_all add: is_line_end_def)
  have "\<forall>l \<in> set (dashed symptoms). \<forall>c \<in> set l. \<not> is_line_end c"
    "\<forall>l \<in> set (numbered 1 causes). \<forall>c \<in> set l. \<not> is_line_end c"
    "\<forall>l \<in> set (numbered 1 actions). \<forall>c \<in> set l. \<not> is_line_end c"
    "\<forall>l \<in> set (section_lines extra). \<forall>c \<in> set l. \<not> is_line_end c"
    using b m by blast+
  then have "\<forall>l \<in> set (runbook_lines title symptoms causes actions extra). \<forall>c \<in> set l. \<not> is_line_end c"
    unfolding runbook_lines_def set_append ball_Un by (intro conjI lit)
  then show ?thesis by (simp add: splitlines_lines_text)
qed

text \<open>C31: Round trip: a runbook written in the format of the repository's runbooks (dashed symptoms,
  numbered causes and actions, wrapped items, further sections), with any front matter the YAML
  loader reads as a dict, is parsed back to its service, incident type, owner, title, symptoms,
  causes and actions, each item by its first line: the lines a wrapped item goes on with are lost.\<close>

theorem runbook_roundtrip:
  assumes "front \<noteq> []" "\<not> is_space (hd front)" "\<not> contains (CHR 0x0A # ''---'') front"
    and "yaml front = Some (JObj (m # ms))"
    and "plain title" "\<forall>x \<in> set symptoms \<union> set causes \<union> set actions. item_ok x" "\<forall>x \<in> set extra. section_ok x"
  shows "\<exists>d. parse_runbook_file yaml name (Some (render_runbook front title symptoms causes actions extra)) = Inr d \<and>
    rb_file_name d = name \<and>
    Inr (rb_service d) = meta_get (JObj (m # ms)) ''service'' \<and>
    Inr (rb_incident_type d) = meta_get (JObj (m # ms)) ''incident_type'' \<and>
    Inr (rb_owner_team d) = meta_get (JObj (m # ms)) ''owner_team'' \<and>
    rb_title d = title \<and> rb_symptoms d = map fst symptoms \<and> rb_likely_causes d = map fst causes \<and>
    rb_recommended_actions d = map fst actions \<and>
    rb_raw_markdown d = render_runbook front title symptoms causes actions extra"
proof -
  have rd: "reads (dashed symptoms) (map fst symptoms)" "reads (numbered 1 causes) (map fst causes)"
    "reads (numbered 1 actions) (map fst actions)"
    using assms(6) by (auto intro!: reads_dashed reads_numbered)
  have e: "runbook_lines title symptoms causes actions extra =
      [''# '' @ title, []] @ ''## Symptoms'' # ([[]] @ dashed symptoms @ [[]]) @ ''## Likely causes'' #
         ([[]] @ numbered 1 causes @ [[]]) @ ''## Recommended actions'' # ([[]] @ numbered 1 actions) @ section_lines extra"
    by (simp add: runbook_lines_def)
  let ?secs = "split_sections (lines_text (runbook_lines title symptoms causes actions extra))"
  have sp: "?secs = section_loop (runbook_lines title symptoms causes actions extra) ''intro'' [] []"
    unfolding split_sections_def render_lines [OF assms(5) rd assms(7)] ..
  obtain e where "e = [] \<or> e = [[]]" "section_text ?secs ''symptoms'' = strip (join newline ([[]] @ dashed symptoms @ [[]]))"
    "section_text ?secs ''likely causes'' = strip (join newline ([[]] @ numbered 1 causes @ [[]]))"
    "section_text ?secs ''recommended actions'' = strip (join newline ([[]] @ numbered 1 actions @ e))"
    using runbook_sections [OF rd assms(7), of title, folded e, folded sp, unfolded Let_def]
    by (elim exE conjE) (rule that)
  then have "extract_bullets (section_text ?secs ''symptoms'') = map fst symptoms"
    "extract_bullets (section_text ?secs ''likely causes'') = map fst causes"
    "extract_bullets (section_text ?secs ''recommended actions'') = map fst actions"
    using items_text [OF rd(1), of "[[]]"] items_text [OF rd(2), of "[[]]"] items_text [OF rd(3), of e] by simp_all
  then show ?thesis
    using render_front [OF assms(1-3)] render_title [OF assms(5)] assms(4)
    by (simp add: parse_runbook_file_def load_metadata_def meta_get_def)
qed

subsection \<open>Concrete runs\<close>

definition demo_runbook :: runbook where
  "demo_runbook = \<lparr>rb_file_name = ''checkout.md'', rb_service = JStr ''checkout-api'',
     rb_incident_type = JStr ''high_latency'', rb_owner_team = JStr ''payments'', rb_title = ''Checkout latency'',
     rb_symptoms = [''P95 above 1s'', ''Request timeout''], rb_likely_causes = [''A slow dependency''],
     rb_recommended_actions = [''Check the dependency''], rb_raw_markdown = ''latency timeout'', rb_sections = []\<rparr>"

lemma demo_retrieval:
  "case retrieve (\<lambda>_. None) None [demo_runbook] ''checkout-api'' ''request timeout'' 2 of
     Inr rs \<Rightarrow> length rs = 1 | Inl _ \<Rightarrow> False"
  by code_simp

theorem retrieve_best_witness:
  "\<exists>rs. retrieve (\<lambda>_. None) None [demo_runbook] ''checkout-api'' ''request timeout'' 2 = Inr rs \<and>
     length rs = 1 \<and> (\<forall>r \<in> set rs. 0 < snd r)"
proof -
  obtain rs where rs: "retrieve (\<lambda>_. None) None [demo_runbook] ''checkout-api'' ''request timeout'' 2 = Inr rs"
    "length rs = 1"
    using demo_retrieval by (auto split: sum.splits)
  then show ?thesis using retrieve_best [OF rs(1)] by blast
qed

lemma demo_score:
  "case score_of ''checkout-api'' (words (lower ''timeout'')) demo_runbook of Inr s \<Rightarrow> 2 < s | Inl _ \<Rightarrow> False"
  "set (words (lower ''timeout'')) \<subseteq> set (words (lower ''Request timeout''))"
  by code_simp+

theorem score_monotone_witness:
  "\<exists>t. score_of ''checkout-api'' (words (lower ''Request timeout'')) demo_runbook = Inr t \<and> 2 < t"
proof -
  obtain s where s: "score_of ''checkout-api'' (words (lower ''timeout'')) demo_runbook = Inr s" "2 < s"
    using demo_score(1) by (auto split: sum.splits)
  show ?thesis using score_monotone [OF demo_score(2) s(1)] s(2) by auto
qed

text \<open>
  The text of \<open>runbooks/checkout-api-database-connection-exhaustion.md\<close> (its dash in the title is
  ASCII here): its first cause is wrapped, and a fourth section follows.
\<close>

definition exhaustion_front :: str where
  "exhaustion_front = ''service: checkout-api'' @ newline @ ''incident_type: database_connection_exhaustion'' @ newline @
     ''owner_team: payments-team''"

definition exhaustion_title :: str where
  "exhaustion_title = ''Checkout API - database connection exhaustion''"

definition exhaustion_symptoms :: "item list" where
  "exhaustion_symptoms =
     [(''`database connection timeout` entries in application logs'', []),
      (''`db_connections_active` approaching `db_connections_max`'', []),
      (''Checkout request latency rising, then 500s'', []),
      (''Error rate climbs within minutes of a deployment'', [])]"

definition exhaustion_causes :: "item list" where
  "exhaustion_causes =
     [(''A recent deployment introduced a connection leak (connections opened per request and never'',
       [''returned to the pool).'']),
      (''Connection pool sized below current traffic.'', []),
      (''A slow query holding connections open longer than usual.'', [])]"

definition exhaustion_actions :: "item list" where
  "exhaustion_actions =
     [(''Check `deployment_events` for a release in the 30 minutes before the error rate rose.'', []),
      (''Compare `db_connections_active` before and after that deployment.'', []),
      (''If the climb starts at the deployment boundary, roll back to the previous version.'', []),
      (''If there was no recent deployment, look for a slow query and consider raising pool size.'', [])]"

definition exhaustion_more :: "(str \<times> str list) list" where
  "exhaustion_more =
     [(''Rollback'', [''Rolling back `checkout-api` is safe: it is stateless and carries no forward-only migrations.'',
       ''Rollback requires human approval.''])]"

definition exhaustion_yaml :: yaml_loader where
  "exhaustion_yaml = (\<lambda>_. Some (JObj [(''service'', JStr ''checkout-api''),
     (''incident_type'', JStr ''database_connection_exhaustion''), (''owner_team'', JStr ''payments-team'')]))"

lemma exhaustion_ok:
  "\<not> is_space (hd exhaustion_front)" "\<not> contains (CHR 0x0A # ''---'') exhaustion_front" "plain exhaustion_title"
  "\<forall>x \<in> set exhaustion_symptoms \<union> set exhaustion_causes \<union> set exhaustion_actions. item_ok x"
  "\<forall>x \<in> set exhaustion_more. section_ok x"
  by code_simp+

theorem runbook_roundtrip_witness:
  "\<exists>d. parse_runbook_file exhaustion_yaml ''exhaustion.md'' (Some (render_runbook exhaustion_front exhaustion_title
       exhaustion_symptoms exhaustion_causes exhaustion_actions exhaustion_more)) = Inr d \<and>
     rb_owner_team d = JStr ''payments-team'' \<and> length (rb_symptoms d) = 4 \<and> length (rb_recommended_actions d) = 4 \<and>
     rb_likely_causes d =
       [''A recent deployment introduced a connection leak (connections opened per request and never'',
        ''Connection pool sized below current traffic.'', ''A slow query holding connections open longer than usual.'']"
proof -
  have ne: "exhaustion_front \<noteq> []" by (simp add: exhaustion_front_def)
  have y: "exhaustion_yaml exhaustion_front = Some (JObj ((''service'', JStr ''checkout-api'') #
      [(''incident_type'', JStr ''database_connection_exhaustion''), (''owner_team'', JStr ''payments-team'')]))"
    by (simp add: exhaustion_yaml_def)
  obtain d where d: "parse_runbook_file exhaustion_yaml ''exhaustion.md'' (Some (render_runbook exhaustion_front exhaustion_title
       exhaustion_symptoms exhaustion_causes exhaustion_actions exhaustion_more)) = Inr d"
    "Inr (rb_owner_team d) = meta_get (JObj ((''service'', JStr ''checkout-api'') #
      [(''incident_type'', JStr ''database_connection_exhaustion''), (''owner_team'', JStr ''payments-team'')])) ''owner_team''"
    "rb_symptoms d = map fst exhaustion_symptoms" "rb_likely_causes d = map fst exhaustion_causes"
    "rb_recommended_actions d = map fst exhaustion_actions"
    using runbook_roundtrip [where yaml = exhaustion_yaml and name = "''exhaustion.md''", OF ne exhaustion_ok(1,2) y exhaustion_ok(3-5)]
    by blast
  show ?thesis
    using d(1,2) unfolding meta_get_def obj_get_def
    by (intro exI [of _ d]) (simp add: d(3-5) exhaustion_symptoms_def exhaustion_causes_def exhaustion_actions_def)
qed

end
