(* ===== verification/Providers.thy ===== *)
theory Providers
  imports Runbooks
begin

section \<open>LLM providers\<close>

text \<open>
  \<open>apps/worker/agent/providers\<close>: the interface of a provider, the deterministic mock, the two
  adapters of a remote model and the factory. What a model returns is untrusted, so the fields of
  \<open>llm_response\<close> that the adapters copy from parsed JSON are JSON values of any shape. An exception
  that leaves \<open>generate_hypothesis\<close> is its text (\<open>Inl\<close>): the one caller catches it and uses only that.
  The remote services are parameters: \<open>anthropic_api\<close> and \<open>openai_api\<close> map the model name and the
  user message to a reply or the text of the error; the constant system prompt is part of them.
  \<open>provider_contract\<close> is the contract the docstring of \<open>LLMProvider\<close> states; the mock is proved to
  satisfy it, of the remote ones nothing is assumed.
\<close>

record agent_evidence =
  ae_id :: str
  ae_source_type :: source_type
  ae_source_name :: str
  ae_query :: str
  ae_query_params :: "(str \<times> json) list"
  ae_summary :: str
  ae_raw_data :: "(str \<times> json) list"
  ae_collected_at :: str

record llm_request =
  lq_incident_id :: str
  lq_service_name :: str
  lq_alert_type :: str
  lq_severity :: str
  lq_evidence :: "agent_evidence list"
  lq_runbooks :: "(str \<times> json) list list"
  lq_signals :: "(str \<times> json) list"
  lq_min_confidence :: pyfloat
  lq_prompt_version :: str

record llm_response =
  lr_reasoning :: json
  lr_root_cause :: json
  lr_hypothesis_summary :: json
  lr_confidence :: pyfloat
  lr_cited_evidence_ids :: json
  lr_action_type :: json
  lr_action_parameters :: json
  lr_action_rationale :: json
  lr_input_tokens :: int
  lr_output_tokens :: int
  lr_is_mock :: bool

record provider =
  pv_name :: str
  pv_generate :: "llm_request \<Rightarrow> str + llm_response"

definition get_or :: "(str \<times> json) list \<Rightarrow> str \<Rightarrow> json \<Rightarrow> json" where
  "get_or kvs k d = (case obj_get kvs k of None \<Rightarrow> d | Some v \<Rightarrow> v)"

subsection \<open>The mock\<close>

definition cited_of :: "agent_evidence list \<Rightarrow> str list" where
  "cited_of evidence = filter (\<lambda>i. i \<noteq> []) (map ae_id evidence)"

definition no_hypothesis :: "str \<Rightarrow> rat \<Rightarrow> str list \<Rightarrow> llm_response" where
  "no_hypothesis reasoning confidence cited =
     \<lparr>lr_reasoning = JStr reasoning, lr_root_cause = JNull, lr_hypothesis_summary = JNull,
       lr_confidence = Fin confidence, lr_cited_evidence_ids = texts cited, lr_action_type = JNull,
       lr_action_parameters = JObj [], lr_action_rationale = JNull,
       lr_input_tokens = 0, lr_output_tokens = 0, lr_is_mock = True\<rparr>"

definition mock_confidence :: "nat \<Rightarrow> rat" where
  "mock_confidence n = min (fl (95 / 100)) (fadd (fl (55 / 100)) (fmul (fl (1 / 10)) (of_nat (min n 4))))"

text \<open>The three flavours: hypothesis summary and reasoning text.\<close>

definition mock_flavour :: "(str \<times> json) list \<Rightarrow> str \<Rightarrow> str \<times> str" where
  "mock_flavour signals service_name =
     (if truthy (get_or signals ''is_connection_exhaustion'' JNull)
      then (''A recent deployment to '' @ service_name @ '' introduced database connection '' @
              ''exhaustion, leading to timeouts and elevated error rates as documented '' @
              ''in the service runbook.'',
            ''The deployment event temporally precedes the connection exhaustion '' @
              ''pattern.  Log evidence shows timeout errors; metrics confirm rising '' @
              ''5xx rates.  Runbook recommends rollback as the primary mitigation.'')
      else if truthy (get_or signals ''is_high_latency'' JNull)
      then (''A recent deployment to '' @ service_name @ '' caused latency degradation '' @
              ''without 5xx errors, consistent with increased synchronous processing time.'',
            ''Latency metrics spiked after the deployment but error logs are absent, '' @
              ''suggesting a slow code path rather than a hard failure.  '' @
              ''Rollback is the safest recovery action pending profiling.'')
      else (''A recent deployment to '' @ service_name @ '' is the most likely cause of '' @
              ''the incident: deployment evidence aligns with metric or log degradation.'',
            ''Correlated deployment and degradation signals are present.  '' @
              ''Without a more specific failure signature the safest remediation '' @
              ''is a controlled rollback pending human review.''))"

text \<open>\<open>_REASONING_TEMPLATE.format(...)\<close>.\<close>

definition reasoning_template :: "str \<Rightarrow> str \<Rightarrow> str \<Rightarrow> str \<Rightarrow> str \<Rightarrow> str \<Rightarrow> str \<Rightarrow> str \<Rightarrow> str \<Rightarrow> str" where
  "reasoning_template evidence_summary runbooks_part signals_summary root_cause confidence cited reasoning_text action_type rationale =
     ''## Evidence Review'' @ newline @ evidence_summary @ newline @ newline @
     ''## Runbook Cross-Reference'' @ newline @ runbooks_part @ newline @ newline @
     ''## Signals'' @ newline @ signals_summary @ newline @ newline @
     ''## Hypothesis'' @ newline @
     ''Root cause: '' @ root_cause @ newline @
     ''Confidence: '' @ confidence @ newline @
     ''Cited evidence IDs: '' @ cited @ newline @ newline @
     ''## Reasoning'' @ newline @ reasoning_text @ newline @ newline @
     ''## Recommendation'' @ newline @
     ''Action: '' @ action_type @ newline @
     ''Rationale: '' @ rationale @ newline @
     ''Requires human approval: true'' @ newline"

definition mock_reasoning ::
    "pylib \<Rightarrow> llm_request \<Rightarrow> rat \<Rightarrow> str list \<Rightarrow> str \<Rightarrow> str \<Rightarrow> str" where
  "mock_reasoning py r confidence cited reasoning_text rationale =
     (let evidence_summary = join newline (map (\<lambda>e. ''  ['' @ source_type_value (ae_source_type e) @ ''] '' @ take 80 (ae_summary e)) (lq_evidence r));
          listed = join newline (map (\<lambda>rb. ''  - '' @ py_str py (get_or rb ''title'' (JStr ''?''))) (lq_runbooks r));
          runbook_text = (if listed = [] then ''  (none retrieved)'' else listed)
      in reasoning_template evidence_summary runbook_text (dumps_indent py (JObj (lq_signals r)))
           ''deployment_regression'' (percent (Fin confidence)) (join '', '' cited) reasoning_text
           ''simulated_rollback'' rationale)"

definition mock_rationale :: "pylib \<Rightarrow> (str \<times> json) list list \<Rightarrow> str" where
  "mock_rationale py runbooks =
     (let runbook_title = (case runbooks of [] \<Rightarrow> JStr ''standard runbook''
            | rb # _ \<Rightarrow> get_or rb ''title'' (JStr ''standard runbook''))
      in ''Roll back the implicated deployment after human approval, '' @
         ''then verify recovery in accordance with '' @ in_quotes (py_str py runbook_title) @ ''.'')"

definition mock_generate :: "pylib \<Rightarrow> llm_request \<Rightarrow> str + llm_response" where
  "mock_generate py r =
     (let has_deployment = truthy (get_or (lq_signals r) ''has_deployment'' (JBool False));
          has_degradation = (truthy (get_or (lq_signals r) ''has_metric_anomaly'' (JBool False)) \<or>
             truthy (get_or (lq_signals r) ''has_error_logs'' (JBool False)));
          cited = cited_of (lq_evidence r)
      in if \<not> (has_deployment \<and> has_degradation) \<or> length cited < 2
         then Inr (no_hypothesis
           (''Evidence review did not surface both a deployment event and a '' @
            ''corresponding degradation signal.  Concluding insufficient evidence.'') 0 cited)
         else let confidence = mock_confidence (length cited)
           in if pf_lt (Fin confidence) (lq_min_confidence r)
              then Inr (no_hypothesis
                (''Computed confidence '' @ percent (Fin confidence) @ '' is below the requested threshold '' @
                 percent (lq_min_confidence r) @ ''.  Declining to propose a hypothesis.'') confidence cited)
              else let (hypothesis_summary, reasoning_text) = mock_flavour (lq_signals r) (lq_service_name r);
                       rationale = mock_rationale py (lq_runbooks r)
                in Inr \<lparr>lr_reasoning = JStr (mock_reasoning py r confidence cited reasoning_text rationale),
                     lr_root_cause = JStr ''deployment_regression'',
                     lr_hypothesis_summary = JStr hypothesis_summary,
                     lr_confidence = Fin confidence, lr_cited_evidence_ids = texts cited,
                     lr_action_type = JStr ''simulated_rollback'',
                     lr_action_parameters = JObj [(''incident_id'', JStr (lq_incident_id r))],
                     lr_action_rationale = JStr rationale,
                     lr_input_tokens = 0, lr_output_tokens = 0, lr_is_mock = True\<rparr>)"

definition mock_provider :: "pylib \<Rightarrow> provider" where
  "mock_provider py = \<lparr>pv_name = ''mock'', pv_generate = mock_generate py\<rparr>"

subsection \<open>The remote adapters\<close>

text \<open>A reply of a remote service: its text and the two token counts.\<close>

record api_reply =
  rp_texts :: "str list"
  rp_input_tokens :: int
  rp_output_tokens :: int

type_synonym llm_api = "str \<Rightarrow> str \<Rightarrow> str + api_reply"

definition evidence_brief :: "agent_evidence \<Rightarrow> json" where
  "evidence_brief e = JObj [(''id'', JStr (ae_id e)), (''source_type'', JStr (source_type_value (ae_source_type e))),
     (''summary'', JStr (ae_summary e)), (''raw_data'', JObj (ae_raw_data e))]"

definition runbook_brief :: "(str \<times> json) list \<Rightarrow> json" where
  "runbook_brief rb = JObj [(''title'', get_or rb ''title'' JNull), (''symptoms'', get_or rb ''symptoms'' (JList [])),
     (''likely_causes'', get_or rb ''likely_causes'' (JList [])),
     (''recommended_actions'', get_or rb ''recommended_actions'' (JList []))]"

text \<open>The text both adapters send; the sentence at its end differs.\<close>

definition user_message :: "str \<Rightarrow> pylib \<Rightarrow> llm_request \<Rightarrow> str" where
  "user_message closing py r =
     ''## Incident Context'' @ newline @
     ''- incident_id: '' @ lq_incident_id r @ newline @
     ''- service: '' @ lq_service_name r @ newline @
     ''- alert_type: '' @ lq_alert_type r @ newline @
     ''- severity: '' @ lq_severity r @ newline @
     ''- min_confidence_required: '' @ float_text py (lq_min_confidence r) @ newline @ newline @
     ''## Collected Evidence'' @ newline @
     dumps_indent py (JList (map evidence_brief (lq_evidence r))) @ newline @ newline @
     ''## Correlated Signals'' @ newline @
     dumps_indent py (JObj (lq_signals r)) @ newline @ newline @
     ''## Retrieved Runbooks'' @ newline @
     dumps_indent py (JList (map runbook_brief (lq_runbooks r))) @ newline @ newline @
     closing @ newline"

definition anthropic_message :: "pylib \<Rightarrow> llm_request \<Rightarrow> str" where
  "anthropic_message = user_message
     ''Analyse the evidence above and respond with the JSON object described in the system prompt.''"

definition openai_message :: "pylib \<Rightarrow> llm_request \<Rightarrow> str" where
  "openai_message = user_message
     ''Analyse the evidence and respond with the JSON object described in the system prompt.''"

definition type_name :: "json \<Rightarrow> str" where
  "type_name v = (case v of JNull \<Rightarrow> ''NoneType'' | JBool _ \<Rightarrow> ''bool'' | JInt _ \<Rightarrow> ''int'' | JFloat _ \<Rightarrow> ''float''
     | JStr _ \<Rightarrow> ''str'' | JList _ \<Rightarrow> ''list'' | JObj _ \<Rightarrow> ''dict'')"

text \<open>\<open>float(v)\<close> of a parsed value.\<close>

definition float_of_json :: "json \<Rightarrow> str + pyfloat" where
  "float_of_json v =
     (case v of
        JFloat f \<Rightarrow> Inr f
      | JBool b \<Rightarrow> Inr (Fin (if b then 1 else 0))
      | JInt i \<Rightarrow> (case to_double (of_int i) of Fin x \<Rightarrow> Inr (Fin x) | _ \<Rightarrow> Inl ''int too large to convert to float'')
      | JStr s \<Rightarrow> (case parse_float s of Some f \<Rightarrow> Inr f
          | None \<Rightarrow> Inl (''could not convert string to float: '' @ repr_str s))
      | _ \<Rightarrow> Inl (''float() argument must be a string or a real number, not '' @ in_quotes (type_name v)))"

definition unparsed_response :: "str \<Rightarrow> api_reply \<Rightarrow> llm_response" where
  "unparsed_response raw_text rp =
     \<lparr>lr_reasoning = JStr raw_text, lr_root_cause = JNull, lr_hypothesis_summary = JNull,
       lr_confidence = Fin 0, lr_cited_evidence_ids = JList [], lr_action_type = JNull,
       lr_action_parameters = JObj [], lr_action_rationale = JNull,
       lr_input_tokens = rp_input_tokens rp, lr_output_tokens = rp_output_tokens rp, lr_is_mock = False\<rparr>"

definition parsed_response :: "json \<Rightarrow> api_reply \<Rightarrow> str + llm_response" where
  "parsed_response parsed rp =
     (case parsed of
        JObj kvs \<Rightarrow>
          (case float_of_json (get_or kvs ''confidence'' (JFloat (Fin 0))) of
             Inl m \<Rightarrow> Inl m
           | Inr confidence \<Rightarrow> Inr
               \<lparr>lr_reasoning = get_or kvs ''reasoning'' (JStr []), lr_root_cause = get_or kvs ''root_cause'' JNull,
                 lr_hypothesis_summary = get_or kvs ''hypothesis_summary'' JNull,
                 lr_confidence = confidence,
                 lr_cited_evidence_ids = get_or kvs ''cited_evidence_ids'' (JList []),
                 lr_action_type = get_or kvs ''action_type'' JNull,
                 lr_action_parameters = get_or kvs ''action_parameters'' (JObj []),
                 lr_action_rationale = get_or kvs ''action_rationale'' JNull,
                 lr_input_tokens = rp_input_tokens rp, lr_output_tokens = rp_output_tokens rp,
                 lr_is_mock = False\<rparr>)
      | v \<Rightarrow> Inl (in_quotes (type_name v) @ '' object has no attribute '' @ in_quotes ''get''))"

definition fence :: str where
  "fence = [CHR 0x60, CHR 0x60, CHR 0x60]"

text \<open>Claude's markdown fences are taken off before the text is parsed.\<close>

definition strip_fences :: "str \<Rightarrow> str" where
  "strip_fences raw_text =
     (let stripped = strip raw_text
      in if starts_with fence stripped
         then strip (join newline (filter (\<lambda>l. \<not> starts_with fence l) (splitlines stripped)))
         else stripped)"

definition anthropic_generate :: "pylib \<Rightarrow> llm_api \<Rightarrow> str \<Rightarrow> llm_request \<Rightarrow> str + llm_response" where
  "anthropic_generate py api model r =
     (case api model (anthropic_message py r) of
        Inl m \<Rightarrow> Inl m
      | Inr rp \<Rightarrow>
          (case rp_texts rp of
             [] \<Rightarrow> Inl ''list index out of range''
           | raw_text # _ \<Rightarrow>
               (case json_loads py (strip_fences raw_text) of
                  None \<Rightarrow> Inr (unparsed_response raw_text rp)
                | Some parsed \<Rightarrow> parsed_response parsed rp)))"

text \<open>
  The texts are the contents of the choices, the empty text where a content is None; the token
  counts are 0 where the usage is missing.
\<close>

definition openai_generate :: "pylib \<Rightarrow> llm_api \<Rightarrow> str \<Rightarrow> llm_request \<Rightarrow> str + llm_response" where
  "openai_generate py api model r =
     (case api model (openai_message py r) of
        Inl m \<Rightarrow> Inl m
      | Inr rp \<Rightarrow>
          (case rp_texts rp of
             [] \<Rightarrow> Inl ''list index out of range''
           | raw_text # _ \<Rightarrow>
               (case json_loads py raw_text of
                  None \<Rightarrow> Inr (unparsed_response raw_text rp)
                | Some parsed \<Rightarrow> parsed_response parsed rp)))"

subsection \<open>The factory\<close>

text \<open>
  The adapters take their key when they are built; a remote service is a function of the key and,
  for OpenAI, of the base address.
\<close>

definition build_provider :: "pylib \<Rightarrow> (str \<Rightarrow> llm_api) \<Rightarrow> (str \<Rightarrow> str \<Rightarrow> llm_api) \<Rightarrow> settings \<Rightarrow> exn + provider" where
  "build_provider py anthropic openai s =
     (let provider_name = strip (lower (llm_provider s))
      in if provider_name = ''mock'' \<or> provider_name = [] then Inr (mock_provider py)
         else if provider_name = ''anthropic'' then
           (let api_key = (if anthropic_api_key s \<noteq> [] then anthropic_api_key s else llm_api_key s)
            in if api_key = []
               then Inl (ValueErr ''ANTHROPIC_API_KEY (or LLM_API_KEY) must be set when LLM_PROVIDER=anthropic'')
               else Inr \<lparr>pv_name = ''anthropic'', pv_generate = anthropic_generate py (anthropic api_key) (llm_model s)\<rparr>)
         else if provider_name = ''openai'' then
           (let api_key = (if openai_api_key s \<noteq> [] then openai_api_key s else llm_api_key s)
            in if api_key = []
               then Inl (ValueErr ''OPENAI_API_KEY (or LLM_API_KEY) must be set when LLM_PROVIDER=openai'')
               else Inr \<lparr>pv_name = ''openai'',
                 pv_generate = openai_generate py (openai api_key (llm_base_url s)) (llm_model s)\<rparr>)
         else Inl (ValueErr (''Unknown LLM_PROVIDER '' @ in_quotes provider_name @ ''. Supported values: mock, anthropic, openai'')))"

subsection \<open>The contract of a provider\<close>

text \<open>
  The docstring of \<open>LLMProvider.generate_hypothesis\<close>: cite only evidence that was given, a
  confidence between 0 and 1, an action of the allow-list or none.
\<close>

definition response_ok :: "llm_request \<Rightarrow> llm_response \<Rightarrow> bool" where
  "response_ok r a \<longleftrightarrow>
     (\<exists>ids. lr_cited_evidence_ids a = texts ids \<and> set ids \<subseteq> ae_id ` set (lq_evidence r)) \<and>
     in_unit (lr_confidence a) \<and>
     (lr_action_type a = JNull \<or> (\<exists>t \<in> set ALLOWED_ACTIONS. lr_action_type a = JStr t))"

locale provider_contract =
  fixes generate :: "llm_request \<Rightarrow> str + llm_response"
  assumes answers: "\<exists>a. generate r = Inr a"
    and honest: "generate r = Inr a \<Longrightarrow> response_ok r a"
begin

lemma cites_given: "generate r = Inr a \<Longrightarrow> py_iter (lr_cited_evidence_ids a) = Inr xs \<Longrightarrow>
    x \<in> set xs \<Longrightarrow> \<exists>e \<in> set (lq_evidence r). x = JStr (ae_id e)"
  using honest [of r a] by (fastforce simp: response_ok_def texts_def)

end

lemma cited_of_in: "set (cited_of es) \<subseteq> ae_id ` set es"
  by (auto simp: cited_of_def)

lemma mock_confidence_unit: "0 \<le> mock_confidence n \<and> mock_confidence n \<le> 1"
proof -
  have "fl (95 / 100) \<le> 1" "0 \<le> fl (95 / 100)" by code_simp+
  moreover have "0 \<le> fadd (fl (55 / 100)) (fmul (fl (1 / 10)) (of_nat (min n 4)))"
    by (intro fadd_nonneg fmul_nonneg fl_nonneg) simp_all
  ultimately show ?thesis by (simp add: mock_confidence_def)
qed

lemma mock_honest: "mock_generate py r = Inr a \<Longrightarrow> response_ok r a"
proof -
  have c: "\<exists>ids. texts (cited_of (lq_evidence r)) = texts ids \<and> set ids \<subseteq> ae_id ` set (lq_evidence r)"
    using cited_of_in by blast
  assume "mock_generate py r = Inr a"
  then show ?thesis
    using mock_confidence_unit
    by (auto simp: mock_generate_def response_ok_def no_hypothesis_def Let_def ALLOWED_ACTIONS_def c
        split: if_splits prod.splits)
qed

lemma mock_answers: "\<exists>a. mock_generate py r = Inr a"
  by (auto simp: mock_generate_def Let_def split: prod.splits)

interpretation mock: provider_contract "mock_generate py"
  by unfold_locales (rule mock_answers, rule mock_honest)


text \<open>The mock honours the contract the interface documents: it always answers, cites only evidence it was given, its confidence lies between 0 and 1 and its action is on the allow-list or none.\<close>

theorem mock_keeps_contract: "\<exists>a. mock_generate py r = Inr a \<and> response_ok r a"
  using mock_answers mock_honest by blast

subsection \<open>Fences\<close>

lemma starts_with_fence: "starts_with fence (fence @ s)"
  by (rule starts_with_append)

lemma fenced_lines:
  assumes "\<forall>l \<in> set ls. l \<noteq> [] \<and> (\<forall>c \<in> set l. \<not> is_line_end c)" "\<forall>c \<in> set lang. \<not> is_line_end c"
  shows "splitlines (join newline ((fence @ lang) # ls @ [fence])) = (fence @ lang) # ls @ [fence]"
proof (rule splitlines_join)
  have "\<forall>c \<in> set fence. \<not> is_line_end c" by code_simp
  then show "\<forall>l \<in> set ((fence @ lang) # ls @ [fence]). l \<noteq> [] \<and> (\<forall>c \<in> set l. \<not> is_line_end c)"
    using assms by (auto simp: fence_def)
qed

text \<open>A reply wrapped in a markdown fence, with any language tag after the opening fence, is read as the text inside the fence.\<close>

theorem fenced_reply:
  assumes "\<forall>l \<in> set ls. l \<noteq> [] \<and> (\<forall>c \<in> set l. \<not> is_line_end c) \<and> \<not> starts_with fence l"
    and "\<forall>c \<in> set lang. \<not> is_line_end c"
    and "strip (join newline ls) = join newline ls"
  shows "strip_fences (join newline ((fence @ lang) # ls @ [fence])) = join newline ls"
proof -
  let ?t = "join newline ((fence @ lang) # ls @ [fence])"
  have f: "fence \<noteq> []" "\<not> is_space (hd fence)" "\<not> is_space (last fence)" by code_simp+
  have h: "?t \<noteq> []" "hd ?t = hd fence"
    using join_first [of "fence @ lang" newline "ls @ [fence]"] f(1) by simp_all
  have l: "last ?t = last fence" using join_last [of "(fence @ lang) # ls @ [fence]" newline] f(1) by simp
  have st: "strip ?t = ?t" using strip_core [of "[]" "[]" ?t] h l f by simp
  have "starts_with fence ?t"
    using starts_with_append [of fence "lang @ newline @ join newline (ls @ [fence])"]
    by (simp add: join_Cons)
  moreover have "splitlines ?t = (fence @ lang) # ls @ [fence]"
    using assms(1,2) by (intro fenced_lines) auto
  moreover have "filter (\<lambda>l. \<not> starts_with fence l) ((fence @ lang) # ls @ [fence]) = ls"
    using assms(1) starts_with_append [of fence lang] starts_with_append [of fence "[]"] by (simp add: filter_id_conv)
  ultimately show ?thesis using assms(3) by (simp add: strip_fences_def st)
qed

lemma demo_fence:
  "\<forall>l \<in> set [''{}'']. l \<noteq> [] \<and> (\<forall>c \<in> set l. \<not> is_line_end c) \<and> \<not> starts_with fence l"
  "\<forall>c \<in> set ''json''. \<not> is_line_end c" "strip (join newline [''{}'']) = join newline [''{}'']"
  by code_simp+

theorem fenced_reply_witness: "strip_fences (join newline ((fence @ ''json'') # [''{}''] @ [fence])) = join newline [''{}'']"
  by (rule fenced_reply [OF demo_fence])

text \<open>The factory gives a provider for the mock (also when the setting is blank) and for the two services when a key is set; every other setting raises.\<close>

theorem build_provider_succeeds:
  "(\<exists>p. build_provider py anthropic openai s = Inr p) \<longleftrightarrow>
    (let name = strip (lower (llm_provider s)) in
      name = [] \<or> name = ''mock'' \<or>
      (name = ''anthropic'' \<and> (anthropic_api_key s \<noteq> [] \<or> llm_api_key s \<noteq> [])) \<or>
      (name = ''openai'' \<and> (openai_api_key s \<noteq> [] \<or> llm_api_key s \<noteq> [])))"
  by (auto simp: build_provider_def Let_def)

end
