(* ===== verification/Agent.thy ===== *)
theory Agent
  imports Providers
begin

section \<open>The investigation agent\<close>

text \<open>
  \<open>apps/worker/agent\<close>: the state, the six nodes and the graph. A node returns the keys it
  updates; here it returns the updated state. The graph walks from \<open>retrieve_runbooks\<close> to the end;
  \<open>next_node\<close> holds its edges, with the conditional one after the grounding check, and \<open>rank\<close> decreases along every edge, so
  every walk ends after at most six nodes. The world gives identifiers and the clock to the runbook
  node; nothing else of it changes. \<open>agent_env\<close> holds what the nodes read from outside: the runbook directory, the
  YAML loader, the settings and the provider the factory builds from them.
\<close>

record agent_hypothesis =
  gh_root_cause :: json
  gh_summary :: json
  gh_confidence :: pyfloat
  gh_evidence_ids :: json
  gh_reasoning :: json
  gh_provider :: str
  gh_is_mock :: bool

record agent_hint =
  hn_action_type :: json
  hn_parameters :: json
  hn_rationale :: json

record agent_recommendation =
  gr_action_type :: json
  gr_parameters :: json
  gr_rationale :: json
  gr_risk_level :: risk_level
  gr_requires_approval :: bool
  gr_status :: str

record agent_state =
  as_incident_id :: str
  as_agent_run_id :: str
  as_service_name :: str
  as_alert_type :: str
  as_severity :: str
  as_started_at :: "str option"
  as_lookback_seconds :: int
  as_step_seconds :: int
  as_log_limit :: int
  as_min_confidence :: pyfloat
  as_metrics_evidence :: "agent_evidence list"
  as_logs_evidence :: "agent_evidence list"
  as_deployments_evidence :: "agent_evidence list"
  as_runbook_evidence :: "agent_evidence list"
  as_evidence_records :: "agent_evidence list"
  as_retrieved_runbooks :: "(str \<times> json) list list"
  as_signals :: "(str \<times> json) list"
  as_hypotheses :: "agent_hypothesis list"
  as_selected_hypothesis :: "agent_hypothesis option"
  as_llm_recommendation_hint :: "agent_hint option"
  as_recommendations :: "agent_recommendation list"
  as_selected_recommendation :: "agent_recommendation option"
  as_status :: str
  as_summary :: json
  as_error_message :: "str option"
  as_safety_check_passed :: bool
  as_requires_approval :: bool
  as_tool_calls :: "json list"
  as_input_tokens :: int
  as_output_tokens :: int

record agent_env =
  env_py :: pylib
  env_yaml :: yaml_loader
  env_runbooks :: directory
  env_prompt_version :: str
  env_provider :: "exn + provider"

type_synonym node_step = "agent_state \<Rightarrow> world \<Rightarrow> (exn + agent_state) \<times> world"

subsection \<open>Retrieve runbooks\<close>

definition runbook_info :: "runbook \<Rightarrow> rat \<Rightarrow> (str \<times> json) list" where
  "runbook_info doc score = runbook_fields doc @ [(''relevance_score'', JFloat (Fin score))]"

definition runbook_source :: "runbook \<Rightarrow> str" where
  "runbook_source doc = ''runbooks/'' @ rb_file_name doc"

definition runbook_known :: "runbook \<Rightarrow> agent_evidence list \<Rightarrow> bool" where
  "runbook_known doc evidence \<longleftrightarrow>
     list_ex (\<lambda>e. ae_source_type e = RUNBOOK \<and> ae_source_name e = runbook_source doc) evidence"

definition runbook_record :: "agent_env \<Rightarrow> str \<Rightarrow> str \<Rightarrow> runbook \<times> rat \<Rightarrow> world \<Rightarrow> agent_evidence \<times> world" where
  "runbook_record env service_name query_text m w =
     (let (u, w1) = new_uuid w; (now, w2) = utc_now w1
      in (\<lparr>ae_id = uuid_text (env_py env) u, ae_source_type = RUNBOOK, ae_source_name = runbook_source (fst m),
            ae_query = ''service='' @ service_name @ '' query='' @ take 60 query_text,
            ae_query_params = [], ae_summary = runbook_summary (fst m) ''Follow standard procedures'',
            ae_raw_data = runbook_info (fst m) (snd m), ae_collected_at = iso_text (env_py env) (utc now)\<rparr>, w2))"

text \<open>The loop over the matches: the new runbook evidence so far and all the evidence so far.\<close>

fun runbook_loop ::
    "agent_env \<Rightarrow> str \<Rightarrow> str \<Rightarrow> (runbook \<times> rat) list \<Rightarrow> agent_evidence list \<Rightarrow> agent_evidence list \<Rightarrow> world \<Rightarrow>
     (agent_evidence list \<times> agent_evidence list) \<times> world" where
  "runbook_loop env sn q [] rbs every w = ((rbs, every), w)"
| "runbook_loop env sn q (m # ms) rbs every w =
     (if runbook_known (fst m) every then runbook_loop env sn q ms rbs every w
      else let (r, w1) = runbook_record env sn q m w
        in runbook_loop env sn q ms (rbs @ [r]) (every @ [r]) w1)"

definition retrieve_runbooks_node :: "agent_env \<Rightarrow> node_step" where
  "retrieve_runbooks_node env s w =
     (let query_text = join '' '' (as_alert_type s # map ae_summary (as_evidence_records s));
          documents = reload (env_yaml env) (env_runbooks env)
      in case retrieve (env_yaml env) (env_runbooks env) documents (as_service_name s) query_text 2 of
           Inl e \<Rightarrow> (Inl e, w)
         | Inr matches \<Rightarrow>
             (case runbook_loop env (as_service_name s) query_text matches (as_runbook_evidence s) (as_evidence_records s) w of
                ((rbs, every), w1) \<Rightarrow>
                  (Inr (s\<lparr>as_retrieved_runbooks := map (\<lambda>m. runbook_info (fst m) (snd m)) matches,
                          as_runbook_evidence := rbs, as_evidence_records := every\<rparr>), w1)))"

subsection \<open>Correlate evidence\<close>

definition of_type :: "source_type \<Rightarrow> agent_evidence list \<Rightarrow> agent_evidence list" where
  "of_type t es = filter (\<lambda>e. ae_source_type e = t) es"

definition combined_text :: "pylib \<Rightarrow> agent_evidence list \<Rightarrow> str" where
  "combined_text py es = join '' '' (map (\<lambda>e. lower (ae_summary e @ '' '' @ py_str py (JObj (ae_raw_data e)))) es)"

definition says :: "str \<Rightarrow> agent_evidence \<Rightarrow> bool" where
  "says t e = contains t (lower (ae_summary e))"

definition shows_deployment :: "agent_evidence \<Rightarrow> bool" where
  "shows_deployment e \<longleftrightarrow> truthy (get_or (ae_raw_data e) ''deployments'' JNull) \<or>
     (\<not> says ''no deployment'' e \<and> \<not> says ''0 records'' e \<and> \<not> says ''not found'' e)"

definition signals_of :: "pylib \<Rightarrow> agent_evidence list \<Rightarrow> (str \<times> json) list" where
  "signals_of py es =
     (let metrics = of_type METRIC es; logs = of_type LOG es; deployments = of_type DEPLOYMENT es;
          runbooks = of_type RUNBOOK es; combined = combined_text py es;
          has_deployment = list_ex shows_deployment deployments;
          has_error_logs = (list_ex (\<lambda>e. says ''timeout'' e \<or> says ''error'' e \<or> says ''500'' e) logs \<or>
             contains ''database connection timeout'' combined);
          has_metric_anomaly = (list_ex (\<lambda>e. says ''error rate'' e \<or> says ''latency'' e) metrics \<or>
             contains ''error rate'' combined);
          is_connection_exhaustion = (contains ''connection timeout'' combined \<or>
             contains ''connection exhaustion'' combined \<or> contains ''db_connections'' combined);
          is_high_latency = (contains ''latency'' combined \<and> \<not> has_error_logs)
      in [(''has_deployment'', JBool has_deployment), (''has_error_logs'', JBool has_error_logs),
          (''has_metric_anomaly'', JBool has_metric_anomaly),
          (''is_connection_exhaustion'', JBool is_connection_exhaustion),
          (''is_high_latency'', JBool is_high_latency),
          (''metrics_count'', JInt (int (length metrics))), (''logs_count'', JInt (int (length logs))),
          (''deployments_count'', JInt (int (length deployments))),
          (''runbooks_count'', JInt (int (length runbooks)))])"

definition correlate_evidence_node :: "agent_env \<Rightarrow> node_step" where
  "correlate_evidence_node env s w = (Inr (s\<lparr>as_signals := signals_of (env_py env) (as_evidence_records s)\<rparr>), w)"

subsection \<open>Generate hypotheses\<close>

definition request_of :: "agent_env \<Rightarrow> agent_state \<Rightarrow> llm_request" where
  "request_of env s = \<lparr>lq_incident_id = as_incident_id s, lq_service_name = as_service_name s,
     lq_alert_type = as_alert_type s, lq_severity = as_severity s, lq_evidence = as_evidence_records s,
     lq_runbooks = as_retrieved_runbooks s, lq_signals = as_signals s,
     lq_min_confidence = as_min_confidence s, lq_prompt_version = env_prompt_version env\<rparr>"

definition no_selection :: "json \<Rightarrow> agent_state \<Rightarrow> agent_state" where
  "no_selection summary s = s\<lparr>as_status := ''insufficient_evidence'', as_summary := summary,
     as_selected_hypothesis := None, as_hypotheses := []\<rparr>"

definition hint_of :: "llm_response \<Rightarrow> agent_hint option" where
  "hint_of a = (if truthy (lr_action_type a)
     then Some \<lparr>hn_action_type = lr_action_type a, hn_parameters = lr_action_parameters a,
       hn_rationale = (if truthy (lr_action_rationale a) then lr_action_rationale a else JStr [])\<rparr>
     else None)"

definition take_response :: "str \<Rightarrow> llm_response \<Rightarrow> agent_state \<Rightarrow> agent_state" where
  "take_response provider_name a s =
     (if lr_root_cause a = JNull \<or> lr_hypothesis_summary a = JNull
      then (no_selection (if truthy (lr_reasoning a) then lr_reasoning a
              else JStr ''Insufficient evidence to determine a reliable root cause.'') s)
             \<lparr>as_input_tokens := lr_input_tokens a, as_output_tokens := lr_output_tokens a\<rparr>
      else if pf_lt (lr_confidence a) (as_min_confidence s)
      then (no_selection (JStr (''LLM confidence '' @ percent (lr_confidence a) @ '' is below the required threshold '' @
              percent (as_min_confidence s) @ ''.'')) s)
             \<lparr>as_input_tokens := lr_input_tokens a, as_output_tokens := lr_output_tokens a\<rparr>
      else let h = \<lparr>gh_root_cause = lr_root_cause a, gh_summary = lr_hypothesis_summary a,
                 gh_confidence = lr_confidence a, gh_evidence_ids = lr_cited_evidence_ids a,
                 gh_reasoning = lr_reasoning a, gh_provider = provider_name, gh_is_mock = lr_is_mock a\<rparr>
        in s\<lparr>as_hypotheses := [h], as_selected_hypothesis := Some h, as_summary := lr_hypothesis_summary a,
             as_status := ''running'', as_llm_recommendation_hint := hint_of a,
             as_input_tokens := as_input_tokens s + lr_input_tokens a,
             as_output_tokens := as_output_tokens s + lr_output_tokens a\<rparr>)"

definition generate_hypotheses_node :: "agent_env \<Rightarrow> node_step" where
  "generate_hypotheses_node env s w =
     (case env_provider env of
        Inl e \<Rightarrow> (Inl e, w)
      | Inr p \<Rightarrow>
          (case pv_generate p (request_of env s) of
             Inl m \<Rightarrow> (Inr ((no_selection (JStr (''LLM provider error ('' @ pv_name p @ ''): '' @ m)) s)
                 \<lparr>as_error_message := Some m\<rparr>), w)
           | Inr a \<Rightarrow> (Inr (take_response (pv_name p) a s), w)))"

subsection \<open>Validate grounding\<close>

definition NO_RELIABLE_CAUSE :: str where
  "NO_RELIABLE_CAUSE = ''Insufficient evidence to determine a reliable root cause.''"

definition collected_ids :: "agent_evidence list \<Rightarrow> str list" where
  "collected_ids es = filter (\<lambda>i. i \<noteq> []) (map ae_id es)"

definition invalid_ids :: "pylib \<Rightarrow> agent_evidence list \<Rightarrow> json list \<Rightarrow> json list" where
  "invalid_ids py es cited = filter (\<lambda>c. py_str py c \<notin> set (collected_ids es)) cited"

definition reject_grounding :: "str \<Rightarrow> agent_state \<Rightarrow> agent_state" where
  "reject_grounding m s = (no_selection (JStr NO_RELIABLE_CAUSE) s)\<lparr>as_error_message := Some m\<rparr>"

definition validate_grounding_node :: "agent_env \<Rightarrow> node_step" where
  "validate_grounding_node env s w =
     (case as_selected_hypothesis s of
        None \<Rightarrow> (Inr (s\<lparr>as_status := ''insufficient_evidence'', as_summary := JStr NO_RELIABLE_CAUSE,
                    as_selected_hypothesis := None\<rparr>), w)
      | Some h \<Rightarrow>
          if \<not> truthy (gh_evidence_ids h)
          then (Inr (reject_grounding ''Grounding check failed: Hypothesis contains zero evidence citations.'' s), w)
          else (case py_iter (gh_evidence_ids h) of
              Inl e \<Rightarrow> (Inl e, w)
            | Inr cited \<Rightarrow>
                (let bad = invalid_ids (env_py env) (as_evidence_records s) cited
                 in if bad \<noteq> []
                    then (Inr (reject_grounding (''Grounding check failed: Hallucinated evidence IDs cited: '' @
                           py_repr (env_py env) (JList bad)) s), w)
                    else (Inr (s\<lparr>as_status := ''running''\<rparr>), w))))"

subsection \<open>Propose actions\<close>

text \<open>\<open>value in ALLOWED_ACTIONS\<close> hashes the value first.\<close>

definition in_allowlist :: "json \<Rightarrow> exn + bool" where
  "in_allowlist v = (if hashable v then Inr (v \<in> JStr ` set ALLOWED_ACTIONS) else Inl (TypeErr ''unhashable type''))"

definition default_rationale :: "pylib \<Rightarrow> agent_state \<Rightarrow> json" where
  "default_rationale py s =
     (let runbook_title = (case as_retrieved_runbooks s of [] \<Rightarrow> JStr ''standard runbook'' | rb # _ \<Rightarrow> get_or rb ''title'' JNull)
      in JStr (''Rollback the implicated deployment after human approval, then verify recovery '' @
           ''in accordance with '' @ py_str py runbook_title @ ''.''))"

definition default_parameters :: "agent_state \<Rightarrow> json" where
  "default_parameters s = JObj [(''incident_id'', JStr (as_incident_id s))]"

definition with_recommendation :: "json \<Rightarrow> json \<Rightarrow> json \<Rightarrow> agent_state \<Rightarrow> agent_state" where
  "with_recommendation action_type parameters rationale s =
     (let r = \<lparr>gr_action_type = action_type, gr_parameters = parameters, gr_rationale = rationale,
               gr_risk_level = Risk_MEDIUM, gr_requires_approval = True, gr_status = ''proposed''\<rparr>
      in s\<lparr>as_recommendations := [r], as_selected_recommendation := Some r\<rparr>)"

definition propose_actions_node :: "agent_env \<Rightarrow> node_step" where
  "propose_actions_node env s w =
     (case as_selected_hypothesis s of
        None \<Rightarrow> (Inr (s\<lparr>as_selected_recommendation := None, as_recommendations := []\<rparr>), w)
      | Some _ \<Rightarrow>
          (case (case as_llm_recommendation_hint s of None \<Rightarrow> Inr None
                 | Some h \<Rightarrow> map_sum id (\<lambda>b. if b then Some h else None) (in_allowlist (hn_action_type h))) of
             Inl e \<Rightarrow> (Inl e, w)
           | Inr (Some h) \<Rightarrow>
               (Inr (with_recommendation (hn_action_type h)
                  (if truthy (hn_parameters h) then hn_parameters h else default_parameters s)
                  (if truthy (hn_rationale h) then hn_rationale h else default_rationale (env_py env) s) s), w)
           | Inr None \<Rightarrow>
               (Inr (with_recommendation (JStr ''simulated_rollback'') (default_parameters s)
                  (default_rationale (env_py env) s) s), w)))"

subsection \<open>Safety check\<close>

definition safety_check_node :: "agent_env \<Rightarrow> node_step" where
  "safety_check_node env s w =
     (case as_selected_recommendation s of
        None \<Rightarrow> (Inr (s\<lparr>as_safety_check_passed := False, as_status := ''failed'',
            as_error_message := Some ''Safety check failed: No recommendation provided.''\<rparr>), w)
      | Some r \<Rightarrow>
          (case in_allowlist (gr_action_type r) of
             Inl e \<Rightarrow> (Inl e, w)
           | Inr False \<Rightarrow>
               (Inr (s\<lparr>as_safety_check_passed := False, as_status := ''failed'',
                  as_error_message := Some (''Safety policy violation: Action '' @
                    in_quotes (py_str (env_py env) (gr_action_type r)) @ '' is not allowed.''),
                  as_selected_recommendation := None\<rparr>), w)
           | Inr True \<Rightarrow>
               (let r' = r\<lparr>gr_requires_approval := True\<rparr>
                in (Inr (s\<lparr>as_selected_recommendation := Some r', as_safety_check_passed := True,
                     as_requires_approval := True, as_status := ''completed''\<rparr>), w))))"

subsection \<open>The graph\<close>

datatype node =
    Retrieve_runbooks | Correlate_evidence | Generate_hypotheses
  | Validate_grounding | Propose_actions | Safety_check

definition should_continue_investigation :: "agent_state \<Rightarrow> bool" where
  "should_continue_investigation s \<longleftrightarrow>
     \<not> (as_status s = ''insufficient_evidence'' \<or> as_selected_hypothesis s = None)"

fun next_node :: "node \<Rightarrow> agent_state \<Rightarrow> node option" where
  "next_node Retrieve_runbooks s = Some Correlate_evidence"
| "next_node Correlate_evidence s = Some Generate_hypotheses"
| "next_node Generate_hypotheses s = Some Validate_grounding"
| "next_node Validate_grounding s = (if should_continue_investigation s then Some Propose_actions else None)"
| "next_node Propose_actions s = Some Safety_check"
| "next_node Safety_check s = None"

fun run_node :: "agent_env \<Rightarrow> node \<Rightarrow> node_step" where
  "run_node env Retrieve_runbooks = retrieve_runbooks_node env"
| "run_node env Correlate_evidence = correlate_evidence_node env"
| "run_node env Generate_hypotheses = generate_hypotheses_node env"
| "run_node env Validate_grounding = validate_grounding_node env"
| "run_node env Propose_actions = propose_actions_node env"
| "run_node env Safety_check = safety_check_node env"

fun rank :: "node \<Rightarrow> nat" where
  "rank Retrieve_runbooks = 6"
| "rank Correlate_evidence = 5"
| "rank Generate_hypotheses = 4"
| "rank Validate_grounding = 3"
| "rank Propose_actions = 2"
| "rank Safety_check = 1"

lemma next_node_rank: "next_node n s = Some m \<Longrightarrow> rank m < rank n"
  by (cases n) (auto split: if_splits)

function run_graph :: "agent_env \<Rightarrow> node \<Rightarrow> node_step" where
  "run_graph env n s w =
     (case run_node env n s w of
        (Inl e, w1) \<Rightarrow> (Inl e, w1)
      | (Inr s1, w1) \<Rightarrow>
          (case next_node n s1 of None \<Rightarrow> (Inr s1, w1) | Some m \<Rightarrow> run_graph env m s1 w1))"
  by auto
termination
  by (relation "measure (\<lambda>(env, n, s, w). rank n)") (auto dest: next_node_rank)

declare run_graph.simps [simp del]

definition investigation_graph :: "agent_env \<Rightarrow> node_step" where
  "investigation_graph env = run_graph env Retrieve_runbooks"


subsection \<open>What the nodes leave alone\<close>

text \<open>Between \<open>w\<close> and \<open>w'\<close> only identifiers were drawn and the clock was read.\<close>

definition only_draws :: "world \<Rightarrow> world \<Rightarrow> bool" where
  "only_draws w w' \<longleftrightarrow> uuid_count w \<le> uuid_count w' \<and> clock_reads w \<le> clock_reads w' \<and>
     w' = w\<lparr>uuid_count := uuid_count w', clock_reads := clock_reads w'\<rparr>"

lemma only_draws_refl [simp]: "only_draws w w"
  by (simp add: only_draws_def)

lemma only_draws_trans:
  assumes "only_draws a b" "only_draws b c" shows "only_draws a c"
proof -
  have b: "b = a\<lparr>uuid_count := uuid_count b, clock_reads := clock_reads b\<rparr>" using assms(1) by (simp add: only_draws_def)
  have "c = b\<lparr>uuid_count := uuid_count c, clock_reads := clock_reads c\<rparr>" using assms(2) by (simp add: only_draws_def)
  also have "\<dots> = a\<lparr>uuid_count := uuid_count c, clock_reads := clock_reads c\<rparr>" by (subst b) simp
  finally show ?thesis using assms by (auto simp: only_draws_def)
qed

lemma only_draws_same:
  assumes "only_draws w w'"
  shows "work w' = work w" "saved w' = saved w" "uuids w' = uuids w" "clock w' = clock w" "counters w' = counters w"
    "db_now w' = db_now w" "uuid_count w \<le> uuid_count w'" "clock_reads w \<le> clock_reads w'"
proof -
  obtain n m where "w' = w\<lparr>uuid_count := n, clock_reads := m\<rparr>" using assms unfolding only_draws_def by blast
  then show "work w' = work w" "saved w' = saved w" "uuids w' = uuids w" "clock w' = clock w" "counters w' = counters w"
      "db_now w' = db_now w"
    by simp_all
qed (use assms in \<open>simp_all add: only_draws_def\<close>)

lemma runbook_record_draws:
  assumes "runbook_record env sn q m w = (r, w1)"
  shows "only_draws w w1" "ae_id r = uuid_text (env_py env) (uuids w (uuid_count w))" "uuid_count w1 = Suc (uuid_count w)"
    "ae_source_type r = RUNBOOK" "ae_source_name r = runbook_source (fst m)"
  using assms by (auto simp: runbook_record_def new_uuid_def utc_now_def only_draws_def Let_def)

text \<open>The new records of the runbook node carry the identifiers it drew, in order.\<close>

definition drawn_ids :: "pylib \<Rightarrow> world \<Rightarrow> nat \<Rightarrow> str list" where
  "drawn_ids py w n = map (\<lambda>j. uuid_text py (uuids w (uuid_count w + j))) [0..<n]"

lemma drawn_ids_Suc: "drawn_ids py w (Suc n) = uuid_text py (uuids w (uuid_count w)) #
    map (\<lambda>j. uuid_text py (uuids w (uuid_count w + Suc j))) [0..<n]"
  by (simp add: drawn_ids_def upt_conv_Cons map_Suc_upt [symmetric] del: upt_Suc)

lemma runbook_loop_effect:
  assumes "runbook_loop env sn q ms rbs every w = ((rbs', every'), w')"
  shows "\<exists>news. rbs' = rbs @ news \<and> every' = every @ news \<and> length news \<le> length ms \<and>
    map ae_id news = drawn_ids (env_py env) w (length news) \<and> only_draws w w' \<and>
    uuid_count w' = uuid_count w + length news \<and>
    (\<forall>e \<in> set news. ae_source_type e = RUNBOOK \<and> (\<exists>m \<in> set ms. ae_source_name e = runbook_source (fst m)))"
  using assms
proof (induction ms arbitrary: rbs every w)
  case Nil
  then show ?case by (simp add: drawn_ids_def)
next
  case (Cons m ms)
  show ?case
  proof (cases "runbook_known (fst m) every")
    case True
    then have "runbook_loop env sn q ms rbs every w = ((rbs', every'), w')" using Cons.prems by simp
    from Cons.IH [OF this] show ?thesis by (fastforce intro: le_SucI)
  next
    case False
    obtain r w1 where r: "runbook_record env sn q m w = (r, w1)" by fastforce
    then have "runbook_loop env sn q ms (rbs @ [r]) (every @ [r]) w1 = ((rbs', every'), w')" using Cons.prems False by simp
    from Cons.IH [OF this] obtain news where n: "rbs' = rbs @ r # news" "every' = every @ r # news" "length news \<le> length ms"
      "map ae_id news = drawn_ids (env_py env) w1 (length news)" "only_draws w1 w'" "uuid_count w' = uuid_count w1 + length news"
      "\<forall>e \<in> set news. ae_source_type e = RUNBOOK \<and> (\<exists>m \<in> set ms. ae_source_name e = runbook_source (fst m))"
      by auto
    note d = runbook_record_draws [OF r]
    have "map ae_id (r # news) = drawn_ids (env_py env) w (length (r # news))"
      using n(4) d(2,3) only_draws_same(3) [OF d(1)] by (simp add: drawn_ids_Suc) (simp add: drawn_ids_def)
    moreover have "only_draws w w'" by (rule only_draws_trans [OF d(1) n(5)])
    ultimately show ?thesis using n d by (intro exI [of _ "r # news"]) auto
  qed
qed

lemma retrieve_node_effect:
  assumes "retrieve_runbooks_node env s w = (Inr t, w')"
  shows "\<exists>news infos. t = s\<lparr>as_retrieved_runbooks := infos, as_runbook_evidence := as_runbook_evidence s @ news,
      as_evidence_records := as_evidence_records s @ news\<rparr> \<and> length news \<le> 2 \<and>
    map ae_id news = drawn_ids (env_py env) w (length news) \<and> only_draws w w' \<and>
    uuid_count w' = uuid_count w + length news \<and> (\<forall>e \<in> set news. ae_source_type e = RUNBOOK)"
proof -
  obtain ms rbs every where m: "retrieve (env_yaml env) (env_runbooks env) (reload (env_yaml env) (env_runbooks env))
      (as_service_name s) (join '' '' (as_alert_type s # map ae_summary (as_evidence_records s))) 2 = Inr ms"
    and l: "runbook_loop env (as_service_name s) (join '' '' (as_alert_type s # map ae_summary (as_evidence_records s))) ms
      (as_runbook_evidence s) (as_evidence_records s) w = ((rbs, every), w')"
    and t: "t = s\<lparr>as_retrieved_runbooks := map (\<lambda>m. runbook_info (fst m) (snd m)) ms,
       as_runbook_evidence := rbs, as_evidence_records := every\<rparr>"
    using assms by (auto simp: retrieve_runbooks_node_def Let_def split: sum.splits prod.splits)
  have "length ms \<le> 2" by (rule retrieve_Inr [OF m]) simp
  then show ?thesis using runbook_loop_effect [OF l] t by fastforce
qed

lemma later_nodes_draw_nothing:
  assumes "run_node env n s w = (r, w')" "n \<noteq> Retrieve_runbooks"
  shows "w' = w"
  using assms
  by (cases n) (auto simp: correlate_evidence_node_def generate_hypotheses_node_def validate_grounding_node_def
      propose_actions_node_def safety_check_node_def Let_def split: sum.splits option.splits if_splits bool.splits)


definition kept :: "agent_state \<Rightarrow> agent_state \<Rightarrow> bool" where
  "kept s t \<longleftrightarrow> as_runbook_evidence t = as_runbook_evidence s \<and> as_evidence_records t = as_evidence_records s \<and>
     as_min_confidence t = as_min_confidence s \<and> as_incident_id t = as_incident_id s"

lemma kept_trans: "kept a b \<Longrightarrow> kept b c \<Longrightarrow> kept a c"
  by (simp add: kept_def)

lemma later_nodes_keep:
  assumes "run_node env n s w = (Inr t, w')" "n \<noteq> Retrieve_runbooks"
  shows "kept s t"
  using assms
  by (cases n) (auto simp: correlate_evidence_node_def generate_hypotheses_node_def validate_grounding_node_def
      propose_actions_node_def safety_check_node_def take_response_def no_selection_def reject_grounding_def
      with_recommendation_def kept_def Let_def split: sum.splits option.splits if_splits bool.splits)

lemma run_graph_Inr:
  "run_graph env n s w = (Inr t, w') \<longleftrightarrow>
    (\<exists>s1 w1. run_node env n s w = (Inr s1, w1) \<and>
      (case next_node n s1 of None \<Rightarrow> t = s1 \<and> w' = w1 | Some m \<Rightarrow> run_graph env m s1 w1 = (Inr t, w')))"
  by (subst run_graph.simps) (auto split: prod.splits sum.splits option.splits)

lemma next_never_retrieves: "next_node n s = Some m \<Longrightarrow> m \<noteq> Retrieve_runbooks"
  by (cases n) (auto split: if_splits)

lemma run_graph_keeps:
  assumes "run_graph env n s w = (Inr t, w')" "n \<noteq> Retrieve_runbooks"
  shows "kept s t \<and> w' = w"
  using assms
proof (induction env n s w rule: run_graph.induct)
  case (1 env n s w)
  obtain s1 w1 where n: "run_node env n s w = (Inr s1, w1)"
    and k: "case next_node n s1 of None \<Rightarrow> t = s1 \<and> w' = w1 | Some m \<Rightarrow> run_graph env m s1 w1 = (Inr t, w')"
    using "1.prems"(1) run_graph_Inr by blast
  have s1: "kept s s1" "w1 = w" using later_nodes_keep [OF n] later_nodes_draw_nothing [OF n] "1.prems"(2) by auto
  show ?case
  proof (cases "next_node n s1")
    case None
    then show ?thesis using k s1 by simp
  next
    case (Some m)
    then have "kept s1 t \<and> w' = w1"
      using "1.IH" [OF n [symmetric] refl Some] k next_never_retrieves [OF Some] by simp
    then show ?thesis using s1 kept_trans by blast
  qed
qed

lemma run_graph_world:
  assumes "run_graph env n s w = (out, w')" "n \<noteq> Retrieve_runbooks"
  shows "w' = w"
  using assms
proof (induction env n s w rule: run_graph.induct)
  case (1 env n s w)
  obtain o1 w1 where n: "run_node env n s w = (o1, w1)" by fastforce
  have w1: "w1 = w" by (rule later_nodes_draw_nothing [OF n "1.prems"(2)])
  show ?case
  proof (cases o1)
    case (Inl e)
    then show ?thesis using "1.prems"(1) n w1 by (simp add: run_graph.simps [of env n])
  next
    case (Inr s1)
    show ?thesis
    proof (cases "next_node n s1")
      case None
      then show ?thesis using "1.prems"(1) n w1 Inr by (simp add: run_graph.simps [of env n])
    next
      case (Some m)
      then have "run_graph env m s1 w1 = (out, w')" using "1.prems"(1) n Inr by (simp add: run_graph.simps [of env n])
      then show ?thesis using "1.IH" [OF n [symmetric] Inr Some] next_never_retrieves [OF Some] w1 by simp
    qed
  qed
qed

lemma graph_draws:
  assumes "investigation_graph env s w = (out, w')"
  shows "only_draws w w'"
proof -
  obtain o1 w1 where r: "retrieve_runbooks_node env s w = (o1, w1)" by fastforce
  show ?thesis
  proof (cases o1)
    case (Inl e)
    then have "w1 = w" using r by (auto simp: retrieve_runbooks_node_def Let_def split: sum.splits prod.splits)
    then show ?thesis using assms r Inl by (simp add: investigation_graph_def run_graph.simps [of env Retrieve_runbooks])
  next
    case (Inr s1)
    then have "run_graph env Correlate_evidence s1 w1 = (out, w')"
      using assms r by (simp add: investigation_graph_def run_graph.simps [of env Retrieve_runbooks])
    then show ?thesis using run_graph_world retrieve_node_effect [OF r [unfolded Inr]] by blast
  qed
qed

subsection \<open>The model is not trusted\<close>

definition grounded :: "pylib \<Rightarrow> agent_evidence list \<Rightarrow> agent_hypothesis \<Rightarrow> bool" where
  "grounded py es h \<longleftrightarrow> (\<exists>cited. py_iter (gh_evidence_ids h) = Inr cited \<and> cited \<noteq> [] \<and>
     (\<forall>c \<in> set cited. \<exists>e \<in> set es. ae_id e \<noteq> [] \<and> py_str py c = ae_id e))"

definition safe_recommendation :: "agent_recommendation \<Rightarrow> bool" where
  "safe_recommendation r \<longleftrightarrow> (\<exists>t \<in> set ALLOWED_ACTIONS. gr_action_type r = JStr t) \<and> gr_requires_approval r \<and>
     gr_risk_level r = Risk_MEDIUM"

definition declined :: "agent_state \<Rightarrow> bool" where
  "declined t \<longleftrightarrow> as_status t = ''insufficient_evidence'' \<and> as_selected_hypothesis t = None"

definition investigated :: "pylib \<Rightarrow> agent_state \<Rightarrow> bool" where
  "investigated py t \<longleftrightarrow> as_status t = ''completed'' \<and> as_safety_check_passed t \<and> as_requires_approval t \<and>
     (\<exists>h r. as_selected_hypothesis t = Some h \<and> as_selected_recommendation t = Some r \<and>
        grounded py (as_evidence_records t) h \<and> \<not> pf_lt (gh_confidence h) (as_min_confidence t) \<and> safe_recommendation r)"

definition confident :: "agent_state \<Rightarrow> bool" where
  "confident s \<longleftrightarrow> (\<forall>h. as_selected_hypothesis s = Some h \<longrightarrow> \<not> pf_lt (gh_confidence h) (as_min_confidence s))"

lemma generate_confident: "generate_hypotheses_node env s w = (Inr t, w') \<Longrightarrow> confident t"
  by (auto simp: generate_hypotheses_node_def take_response_def no_selection_def confident_def Let_def
      split: sum.splits if_splits)

lemma truthy_iter: "truthy v \<Longrightarrow> py_iter v = Inr cited \<Longrightarrow> cited \<noteq> []"
  by (cases v) auto

lemma validate_cases:
  assumes "validate_grounding_node env s w = (Inr t, w')"
  shows "declined t \<or> (t = s\<lparr>as_status := ''running''\<rparr> \<and>
    (\<exists>h. as_selected_hypothesis s = Some h \<and> grounded (env_py env) (as_evidence_records s) h))"
proof (cases "as_selected_hypothesis s")
  case None
  then show ?thesis using assms by (auto simp: validate_grounding_node_def declined_def)
next
  case (Some h)
  show ?thesis
  proof (cases "truthy (gh_evidence_ids h)")
    case False
    then show ?thesis using assms Some
      by (auto simp: validate_grounding_node_def declined_def reject_grounding_def no_selection_def)
  next
    case True
    obtain cited where c: "py_iter (gh_evidence_ids h) = Inr cited"
      using assms Some True by (auto simp: validate_grounding_node_def split: sum.splits)
    show ?thesis
    proof (cases "invalid_ids (env_py env) (as_evidence_records s) cited = []")
      case False
      then show ?thesis using assms Some True c
        by (auto simp: validate_grounding_node_def declined_def reject_grounding_def no_selection_def Let_def)
    next
      case valid: True
      then have "\<forall>x \<in> set cited. py_str (env_py env) x \<in> set (collected_ids (as_evidence_records s))"
        by (simp add: invalid_ids_def filter_empty_conv)
      then have "grounded (env_py env) (as_evidence_records s) h"
        using c truthy_iter [OF True c] by (fastforce simp: grounded_def collected_ids_def)
      moreover have "t = s\<lparr>as_status := ''running''\<rparr>"
        using assms Some True c valid by (simp add: validate_grounding_node_def)
      ultimately show ?thesis using Some by blast
    qed
  qed
qed

lemma propose_cases:
  assumes "propose_actions_node env s w = (Inr t, w')" "as_selected_hypothesis s = Some h"
  shows "\<exists>r. as_selected_recommendation t = Some r \<and> safe_recommendation r \<and> as_selected_hypothesis t = Some h"
proof -
  have a: "in_allowlist v = Inr True \<Longrightarrow> \<exists>x \<in> set ALLOWED_ACTIONS. v = JStr x" for v
    by (auto simp: in_allowlist_def split: if_splits)
  have d: "\<exists>x \<in> set ALLOWED_ACTIONS. JStr ''simulated_rollback'' = JStr x" by (simp add: ALLOWED_ACTIONS_def)
  show ?thesis
    using assms a d
    by (cases "as_llm_recommendation_hint s"; cases "in_allowlist (hn_action_type (the (as_llm_recommendation_hint s)))")
      (auto simp: propose_actions_node_def with_recommendation_def safe_recommendation_def Let_def split: if_splits)
qed

lemma safety_cases:
  assumes "safety_check_node env s w = (Inr t, w')" "as_selected_recommendation s = Some r" "safe_recommendation r"
  shows "as_status t = ''completed'' \<and> as_safety_check_passed t \<and> as_requires_approval t \<and>
    as_selected_hypothesis t = as_selected_hypothesis s \<and>
    (\<exists>q. as_selected_recommendation t = Some q \<and> safe_recommendation q)"
proof -
  have "in_allowlist (gr_action_type r) = Inr True" using assms(3) by (auto simp: safe_recommendation_def in_allowlist_def)
  then show ?thesis using assms by (auto simp: safety_check_node_def safe_recommendation_def Let_def)
qed

lemma after_grounding:
  assumes "run_graph env Validate_grounding s w = (Inr t, w')" "confident s"
  shows "declined t \<or> investigated (env_py env) t"
proof -
  obtain s1 w1 where v: "validate_grounding_node env s w = (Inr s1, w1)"
    and k: "if should_continue_investigation s1 then run_graph env Propose_actions s1 w1 = (Inr t, w') else t = s1 \<and> w' = w1"
    using assms(1) by (auto simp: run_graph_Inr [of env Validate_grounding] split: if_splits option.splits)
  from validate_cases [OF v] show ?thesis
  proof
    assume "declined s1"
    then show ?thesis using k by (simp add: declined_def should_continue_investigation_def)
  next
    assume "s1 = s\<lparr>as_status := ''running''\<rparr> \<and> (\<exists>h. as_selected_hypothesis s = Some h \<and> grounded (env_py env) (as_evidence_records s) h)"
    then obtain h where s1: "s1 = s\<lparr>as_status := ''running''\<rparr>" and h: "as_selected_hypothesis s = Some h"
      and g: "grounded (env_py env) (as_evidence_records s) h" by blast
    then have "run_graph env Propose_actions s1 w1 = (Inr t, w')" using k by (simp add: should_continue_investigation_def)
    moreover from this obtain s2 w2 where p: "propose_actions_node env s1 w1 = (Inr s2, w2)"
      and "run_graph env Safety_check s2 w2 = (Inr t, w')"
      by (auto simp: run_graph_Inr [of env Propose_actions])
    moreover from this have c: "safety_check_node env s2 w2 = (Inr t, w')"
      by (auto simp: run_graph_Inr [of env Safety_check])
    ultimately have kt: "kept s1 t" using run_graph_keeps by blast
    have h1: "as_selected_hypothesis s1 = Some h" using s1 h by simp
    obtain r where r: "as_selected_recommendation s2 = Some r" "safe_recommendation r" "as_selected_hypothesis s2 = Some h"
      using propose_cases [OF p h1] by blast
    have "\<not> pf_lt (gh_confidence h) (as_min_confidence s)" using assms(2) h by (simp add: confident_def)
    then show ?thesis
      using safety_cases [OF c r(1,2)] r(3) g kt s1 by (auto simp: investigated_def kept_def)
  qed
qed

lemma graph_outcome:
  assumes "investigation_graph env s w = (Inr t, w')"
  shows "\<exists>news. as_runbook_evidence t = as_runbook_evidence s @ news \<and>
    as_evidence_records t = as_evidence_records s @ news \<and> length news \<le> 2 \<and>
    map ae_id news = drawn_ids (env_py env) w (length news) \<and> only_draws w w' \<and>
    uuid_count w' = uuid_count w + length news \<and> (\<forall>e \<in> set news. ae_source_type e = RUNBOOK) \<and>
    as_min_confidence t = as_min_confidence s \<and> (declined t \<or> investigated (env_py env) t)"
proof -
  obtain s1 w1 where r: "retrieve_runbooks_node env s w = (Inr s1, w1)"
    and c: "run_graph env Correlate_evidence s1 w1 = (Inr t, w')"
    using assms by (auto simp: investigation_graph_def run_graph_Inr [of env Retrieve_runbooks])
  obtain s2 w2 where c2: "run_graph env Generate_hypotheses s2 w2 = (Inr t, w')"
    using c by (auto simp: run_graph_Inr [of env Correlate_evidence])
  obtain s3 w3 where g: "generate_hypotheses_node env s2 w2 = (Inr s3, w3)"
    and v: "run_graph env Validate_grounding s3 w3 = (Inr t, w')"
    using c2 by (auto simp: run_graph_Inr [of env Generate_hypotheses])
  have "declined t \<or> investigated (env_py env) t" by (rule after_grounding [OF v generate_confident [OF g]])
  moreover have "kept s1 t" "w' = w1" using run_graph_keeps [OF c] by auto
  ultimately show ?thesis using retrieve_node_effect [OF r] by (fastforce simp: kept_def)
qed

lemma passes_threshold:
  "\<not> pf_lt c m \<Longrightarrow> c = NaN \<or> m = NaN \<or> c = m \<or> pf_lt m c"
  by (cases c; cases m) auto



subsection \<open>The recursion limit\<close>

text \<open>
  LangGraph stops a run with an error (None) when it has not ended within its recursion limit, a
  parameter of the library; \<open>run_limited\<close> counts it down.
\<close>

fun run_limited :: "nat \<Rightarrow> agent_env \<Rightarrow> node \<Rightarrow> agent_state \<Rightarrow> world \<Rightarrow> ((exn + agent_state) \<times> world) option" where
  "run_limited 0 env n s w = None"
| "run_limited (Suc k) env n s w =
     (case run_node env n s w of
        (Inl e, w1) \<Rightarrow> Some (Inl e, w1)
      | (Inr s1, w1) \<Rightarrow>
          (case next_node n s1 of None \<Rightarrow> Some (Inr s1, w1) | Some m \<Rightarrow> run_limited k env m s1 w1))"

lemma run_limited_rank: "rank n \<le> k \<Longrightarrow> run_limited k env n s w = Some (run_graph env n s w)"
proof (induction k env n s w rule: run_limited.induct)
  case (1 env n s w)
  then show ?case by (cases n) auto
next
  case (2 k env n s w)
  show ?case
  proof (cases "run_node env n s w")
    case (Pair out w1)
    show ?thesis
    proof (cases out)
      case (Inl e)
      then show ?thesis using Pair by (simp add: run_graph.simps [of env n])
    next
      case (Inr s1)
      show ?thesis
      proof (cases "next_node n s1")
        case None
        then show ?thesis using Pair Inr by (simp add: run_graph.simps [of env n])
      next
        case (Some m)
        then have "rank m \<le> k" using next_node_rank [OF Some] "2.prems" by simp
        then show ?thesis
          using "2.IH" [OF Pair [symmetric] Inr Some] Pair Inr Some by (simp add: run_graph.simps [of env n])
      qed
    qed
  qed
qed

text \<open>Termination: the graph ends within six nodes whatever the nodes return, so a recursion limit of six or more (the library's default is larger) never cuts an investigation short.\<close>

theorem graph_within_limit:
  assumes "6 \<le> limit"
  shows "run_limited limit env Retrieve_runbooks s w = Some (investigation_graph env s w)"
  unfolding investigation_graph_def using assms by (intro run_limited_rank) simp

theorem graph_within_limit_witness:
  "\<forall>env s w. run_limited 25 env Retrieve_runbooks s w = Some (investigation_graph env s w)"
  using graph_within_limit [of 25] by simp

subsection \<open>An investigation with the mock provider\<close>

text \<open>When the mock proposes: both signals, two identified records and a confidence that reaches the threshold.\<close>

definition mock_proposes :: "pylib \<Rightarrow> pyfloat \<Rightarrow> agent_evidence list \<Rightarrow> bool" where
  "mock_proposes py threshold es \<longleftrightarrow>
     (let signals = signals_of py es
      in truthy (get_or signals ''has_deployment'' (JBool False)) \<and>
         (truthy (get_or signals ''has_metric_anomaly'' (JBool False)) \<or>
          truthy (get_or signals ''has_error_logs'' (JBool False))) \<and>
         2 \<le> length (cited_of es) \<and> \<not> pf_lt (Fin (mock_confidence (length (cited_of es)))) threshold)"

lemma mock_answer:
  assumes "mock_generate py r = Inr a"
    and "lq_signals r = signals_of py (lq_evidence r)"
  shows "lr_cited_evidence_ids a = texts (cited_of (lq_evidence r)) \<and>
    (if mock_proposes py (lq_min_confidence r) (lq_evidence r)
     then lr_root_cause a \<noteq> JNull \<and> lr_hypothesis_summary a \<noteq> JNull \<and> lr_action_type a = JStr ''simulated_rollback'' \<and>
       lr_confidence a = Fin (mock_confidence (length (cited_of (lq_evidence r))))
     else lr_root_cause a = JNull)"
  using assms
  by (auto simp: mock_generate_def mock_proposes_def no_hypothesis_def Let_def split: if_splits prod.splits)

lemma texts_iter: "py_iter (texts xs) = Inr (map JStr xs)" "truthy (texts xs) \<longleftrightarrow> xs \<noteq> []"
  by (simp_all add: texts_def)

lemma invalid_cited: "invalid_ids py es (map JStr (cited_of es)) = []"
  by (auto simp: invalid_ids_def collected_ids_def cited_of_def filter_empty_conv)

lemma graph_tail_mock:
  assumes "env_provider env = Inr (mock_provider (env_py env))"
    and "as_signals s = signals_of (env_py env) (as_evidence_records s)"
  shows "\<exists>t. run_graph env Generate_hypotheses s w = (Inr t, w) \<and>
    (as_status t = ''completed'' \<longleftrightarrow> mock_proposes (env_py env) (as_min_confidence s) (as_evidence_records s))"
proof -
  let ?r = "request_of env s" and ?py = "env_py env" and ?es = "as_evidence_records s"
  obtain a where a: "mock_generate ?py ?r = Inr a" using mock_answers by blast
  have ans: "lr_cited_evidence_ids a = texts (cited_of ?es) \<and>
    (if mock_proposes ?py (as_min_confidence s) ?es
     then lr_root_cause a \<noteq> JNull \<and> lr_hypothesis_summary a \<noteq> JNull \<and> lr_action_type a = JStr ''simulated_rollback'' \<and>
       lr_confidence a = Fin (mock_confidence (length (cited_of ?es)))
     else lr_root_cause a = JNull)"
    using mock_answer [OF a] assms(2) by (simp add: request_of_def)
  have g: "generate_hypotheses_node env s w = (Inr (take_response ''mock'' a s), w)"
    using assms(1) a by (simp add: generate_hypotheses_node_def mock_provider_def)
  show ?thesis
  proof (cases "mock_proposes ?py (as_min_confidence s) ?es")
    case False
    then have n: "take_response ''mock'' a s = (no_selection (if truthy (lr_reasoning a) then lr_reasoning a
        else JStr ''Insufficient evidence to determine a reliable root cause.'') s)
        \<lparr>as_input_tokens := lr_input_tokens a, as_output_tokens := lr_output_tokens a\<rparr>"
      using ans by (simp add: take_response_def)
    have "\<exists>t. run_graph env Generate_hypotheses s w = (Inr t, w) \<and> as_status t = ''insufficient_evidence''"
      using g by (simp add: run_graph_Inr [of env Generate_hypotheses] run_graph_Inr [of env Validate_grounding]
          validate_grounding_node_def n no_selection_def should_continue_investigation_def)
    then show ?thesis using False by fastforce
  next
    case True
    then have p: "\<not> pf_lt (lr_confidence a) (as_min_confidence s)" "2 \<le> length (cited_of ?es)"
      using ans by (auto simp: mock_proposes_def Let_def)
    obtain h where t: "as_selected_hypothesis (take_response ''mock'' a s) = Some h" "gh_evidence_ids h = texts (cited_of ?es)"
      "as_evidence_records (take_response ''mock'' a s) = ?es"
      "as_llm_recommendation_hint (take_response ''mock'' a s) = hint_of a"
      using True ans p(1) by (auto simp: take_response_def Let_def)
    have v: "validate_grounding_node env (take_response ''mock'' a s) w = (Inr ((take_response ''mock'' a s)\<lparr>as_status := ''running''\<rparr>), w)"
      using t p(2) invalid_cited by (auto simp: validate_grounding_node_def texts_iter Let_def)
    obtain hn where hn: "hint_of a = Some hn" "hn_action_type hn = JStr ''simulated_rollback''"
      using True ans by (simp add: hint_of_def)
    have ok: "in_allowlist (JStr ''simulated_rollback'') = Inr True" by code_simp
    let ?t2 = "(take_response ''mock'' a s)\<lparr>as_status := ''running''\<rparr>"
    have "\<exists>t3 q. propose_actions_node env ?t2 w = (Inr t3, w) \<and> as_selected_recommendation t3 = Some q \<and>
        gr_action_type q = JStr ''simulated_rollback''"
      using t hn ok by (simp add: propose_actions_node_def with_recommendation_def Let_def)
    then obtain t3 q where p3: "propose_actions_node env ?t2 w = (Inr t3, w)" "as_selected_recommendation t3 = Some q"
      "gr_action_type q = JStr ''simulated_rollback''" by blast
    have "\<exists>t4. safety_check_node env t3 w = (Inr t4, w) \<and> as_status t4 = ''completed''"
      using p3 ok by (simp add: safety_check_node_def Let_def)
    then obtain t4 where p4: "safety_check_node env t3 w = (Inr t4, w)" "as_status t4 = ''completed''" by blast
    have "should_continue_investigation ?t2" using t by (simp add: should_continue_investigation_def)
    then have "run_graph env Generate_hypotheses s w = (Inr t4, w)"
      using g v p3(1) p4(1)
      by (simp add: run_graph_Inr [of env Generate_hypotheses] run_graph_Inr [of env Validate_grounding]
          run_graph_Inr [of env Propose_actions] run_graph_Inr [of env Safety_check])
    then show ?thesis using True p4(2) by blast
  qed
qed

text \<open>C29: With the mock provider an investigation raises only when a runbook's metadata is not text; otherwise it ends, and it completes with a proposal exactly when the evidence, runbooks included, shows a deployment and a degradation, at least two records can be cited and the confidence computed from their number reaches the threshold.\<close>

theorem mock_investigation:
  assumes "env_provider env = Inr (mock_provider (env_py env))"
    and "\<forall>d \<in> set (reload (env_yaml env) (env_runbooks env)). searchable (as_service_name s) d"
  shows "\<exists>t w'. investigation_graph env s w = (Inr t, w') \<and>
    (as_status t = ''completed'' \<longleftrightarrow>
      mock_proposes (env_py env) (as_min_confidence s) (as_evidence_records t))"
proof -
  let ?docs = "reload (env_yaml env) (env_runbooks env)"
  let ?q = "join '' '' (as_alert_type s # map ae_summary (as_evidence_records s))"
  have "searched (env_yaml env) (env_runbooks env) ?docs = ?docs" by (simp add: searched_def)
  then obtain ms where m: "retrieve (env_yaml env) (env_runbooks env) ?docs (as_service_name s) ?q 2 = Inr ms"
    using retrieve_raises_iff [of "env_yaml env" "env_runbooks env" ?docs "as_service_name s" ?q 2] assms(2)
    by (cases "retrieve (env_yaml env) (env_runbooks env) ?docs (as_service_name s) ?q 2") auto
  have "\<exists>s1 w1. retrieve_runbooks_node env s w = (Inr s1, w1)"
    using m by (auto simp: retrieve_runbooks_node_def Let_def split: prod.splits)
  then obtain s1 w1 where r: "retrieve_runbooks_node env s w = (Inr s1, w1)" by blast
  let ?s2 = "s1\<lparr>as_signals := signals_of (env_py env) (as_evidence_records s1)\<rparr>"
  have "as_signals ?s2 = signals_of (env_py env) (as_evidence_records ?s2)" by simp
  from graph_tail_mock [OF assms(1) this, of w1]
  obtain t where t: "run_graph env Generate_hypotheses ?s2 w1 = (Inr t, w1)"
    "as_status t = ''completed'' \<longleftrightarrow> mock_proposes (env_py env) (as_min_confidence ?s2) (as_evidence_records ?s2)"
    by blast
  have "investigation_graph env s w = (Inr t, w1)"
    using r t(1) by (simp add: investigation_graph_def run_graph_Inr [of env Retrieve_runbooks]
        run_graph_Inr [of env Correlate_evidence] correlate_evidence_node_def)
  moreover have "as_min_confidence s1 = as_min_confidence s" using retrieve_node_effect [OF r] by auto
  moreover have "as_evidence_records t = as_evidence_records ?s2" using run_graph_keeps [OF t(1)] by (simp add: kept_def)
  ultimately show ?thesis using t(2) by auto
qed

subsection \<open>Signals raised by a runbook\<close>

lemma contains_append1: "contains p s \<Longrightarrow> contains p (a @ s)"
  by (induction a) (auto simp: contains.simps)

lemma starts_with_more: "starts_with p s \<Longrightarrow> starts_with p (s @ b)"
  by (induction p s rule: starts_with.induct) auto

lemma contains_append2: "contains p s \<Longrightarrow> contains p (s @ b)"
proof (induction s)
  case Nil
  then have "p = []" by (cases p) auto
  then show ?case by (cases b) auto
next
  case (Cons c s)
  then show ?case using starts_with_more [of p "c # s" b] by auto
qed

lemma join_contains: "x \<in> set xs \<Longrightarrow> contains p x \<Longrightarrow> contains p (join sep xs)"
  by (induction sep xs rule: join.induct) (auto intro: contains_append1 contains_append2)

lemma lower_append: "lower (a @ b) = lower a @ lower b"
  by (simp add: lower_def)

text \<open>The signals are read from the text of all the evidence, runbooks included: one retrieved runbook whose summary mentions an error rate sets the metric anomaly although no metric was collected (and likewise a database connection timeout the error logs), so the degradation the mock needs can come from a runbook alone.\<close>

theorem runbook_text_raises_signals:
  assumes "r \<in> set es" "ae_source_type r = RUNBOOK" "says ''error rate'' r" "of_type METRIC es = []"
  shows "get_or (signals_of py es) ''has_metric_anomaly'' JNull = JBool True \<and>
    get_or (signals_of py es) ''metrics_count'' JNull = JInt 0"
proof -
  have "contains ''error rate'' (lower (ae_summary r @ '' '' @ py_str py (JObj (ae_raw_data r))))"
    using assms(3) unfolding says_def lower_append by (rule contains_append2)
  then have "contains ''error rate'' (combined_text py es)"
    using assms(1) unfolding combined_text_def by (intro join_contains) auto
  then show ?thesis using assms(4) by (simp add: signals_of_def Let_def get_or_def obj_get_def)
qed


subsection \<open>A concrete investigation\<close>

definition demo_env :: agent_env where
  "demo_env = \<lparr>env_py = demo_pylib, env_yaml = (\<lambda>_. None), env_runbooks = None,
     env_prompt_version = ''v1'', env_provider = Inr (mock_provider demo_pylib)\<rparr>"

definition demo_evidence :: "nat \<Rightarrow> source_type \<Rightarrow> str \<Rightarrow> agent_evidence" where
  "demo_evidence n t summary = \<lparr>ae_id = str_nat n, ae_source_type = t, ae_source_name = ''demo'', ae_query = ''q'',
     ae_query_params = [], ae_summary = summary, ae_raw_data = [], ae_collected_at = ''0''\<rparr>"

definition demo_agent_state :: agent_state where
  "demo_agent_state = \<lparr>as_incident_id = ''7'', as_agent_run_id = ''8'', as_service_name = ''checkout-api'',
     as_alert_type = ''high_error_rate'', as_severity = ''high'', as_started_at = None,
     as_lookback_seconds = 300, as_step_seconds = 15, as_log_limit = 100, as_min_confidence = Fin (1 / 2),
     as_metrics_evidence = [], as_logs_evidence = [], as_deployments_evidence = [], as_runbook_evidence = [],
     as_evidence_records = [demo_evidence 1 METRIC ''error rate 0.4'', demo_evidence 2 DEPLOYMENT ''deployed v2''],
     as_retrieved_runbooks = [], as_signals = [], as_hypotheses = [], as_selected_hypothesis = None,
     as_llm_recommendation_hint = None, as_recommendations = [], as_selected_recommendation = None,
     as_status = ''running'', as_summary = JStr [], as_error_message = None, as_safety_check_passed = False,
     as_requires_approval = True, as_tool_calls = [], as_input_tokens = 0, as_output_tokens = 0\<rparr>"

lemma demo_investigation:
  "case investigation_graph demo_env demo_agent_state start_world of
     (Inr t, _) \<Rightarrow> as_status t = ''completed'' | (Inl _, _) \<Rightarrow> False"
  by code_simp

text \<open>A model whose JSON answer has the confidence \<open>NaN\<close>, as \<open>json.loads\<close> reads it.\<close>

definition nan_answer :: json where
  "nan_answer = JObj [(''reasoning'', JStr ''r''), (''root_cause'', JStr ''bad_deploy''), (''hypothesis_summary'', JStr ''h''),
     (''confidence'', JFloat NaN), (''cited_evidence_ids'', JList [JStr ''1'']),
     (''action_type'', JStr ''simulated_rollback'')]"

definition nan_env :: agent_env where
  "nan_env = demo_env\<lparr>env_provider := Inr \<lparr>pv_name = ''anthropic'',
     pv_generate = (\<lambda>_. parsed_response nan_answer \<lparr>rp_texts = [], rp_input_tokens = 1, rp_output_tokens = 1\<rparr>)\<rparr>\<rparr>"

lemma nan_investigation:
  "case investigation_graph nan_env demo_agent_state start_world of
     (Inr t, _) \<Rightarrow> as_status t = ''completed'' \<and> map_option gh_confidence (as_selected_hypothesis t) = Some NaN
   | (Inl _, _) \<Rightarrow> False"
  by code_simp


theorem mock_investigation_witness:
  "\<exists>t w'. investigation_graph demo_env demo_agent_state start_world = (Inr t, w') \<and>
    (as_status t = ''completed'' \<longleftrightarrow> mock_proposes demo_pylib (Fin (1 / 2)) (as_evidence_records t))"
  using mock_investigation [of demo_env demo_agent_state start_world]
  by (simp add: demo_env_def reload_def demo_agent_state_def)

lemma demo_runbook_says: "says ''error rate'' (demo_evidence 3 RUNBOOK ''Watch the error rate'')"
  by code_simp

theorem runbook_text_raises_signals_witness:
  "get_or (signals_of demo_pylib [demo_evidence 3 RUNBOOK ''Watch the error rate'']) ''has_metric_anomaly'' JNull = JBool True"
  using runbook_text_raises_signals [OF list.set_intros(1) _ demo_runbook_says, of "[]" demo_pylib]
  by (simp add: demo_evidence_def of_type_def)

end
