(* ===== verification/Orchestrator.thy ===== *)
theory Orchestrator
  imports Analysis Agent
begin

section \<open>The orchestrator\<close>

text \<open>
  \<open>apps/api/app/services/orchestrator_service.py\<close>: one investigation from the incident to the
  requested approval. It collects evidence, runs the agent over the rows of the new run, stores the
  runbooks the agent found as evidence, and records the hypothesis, the recommendation and the
  approval. \<open>agent_env_of\<close> builds what the agent reads from outside. The statements at the end hold
  for every provider: nothing is assumed of the model's answer.
\<close>

record investigate_response =
  iq_incident :: uuid
  iq_run :: uuid
  iq_incident_status :: incident_status
  iq_evidence_count :: nat
  iq_hypothesis :: "analysis_hypothesis option"
  iq_recommendation :: "analysis_recommendation option"
  iq_approval :: "approval option"
  iq_investigated_at :: time

text \<open>The outside of the agent: the libraries and the services it calls.\<close>

record outside =
  out_yaml :: yaml_loader
  out_runbooks :: directory
  out_anthropic :: "str \<Rightarrow> llm_api"
  out_openai :: "str \<Rightarrow> str \<Rightarrow> llm_api"

definition agent_env_of :: "pylib \<Rightarrow> outside \<Rightarrow> settings \<Rightarrow> agent_env" where
  "agent_env_of py ext st = \<lparr>env_py = py, env_yaml = out_yaml ext, env_runbooks = out_runbooks ext,
     env_prompt_version = prompt_version st, env_provider = build_provider py (out_anthropic ext) (out_openai ext) st\<rparr>"

subsection \<open>Before the agent\<close>

text \<open>The type of one linked alert (the query has no order: the first link here), or the title.\<close>

definition incident_alert_type :: "world \<Rightarrow> incident \<Rightarrow> str" where
  "incident_alert_type w i =
     (case first_row (concat (map (\<lambda>l. if ia_incident l = inc_id i
              then map al_type (filter (\<lambda>a. al_id a = ia_alert l) (alerts (work w))) else [])
            (incident_alerts (work w)))) of
        Some (c # t) \<Rightarrow> c # t
      | _ \<Rightarrow> inc_title i)"

definition begin_investigation :: "settings \<Rightarrow> incident \<Rightarrow> agent_run \<Rightarrow> world \<Rightarrow> agent_run \<times> world" where
  "begin_investigation st incident run w =
     (case started_or_now run w of (started, w1) \<Rightarrow>
        let run' = run\<lparr>run_status := Run_RUNNING, run_started_at := Some started,
                       run_provider := Some ''langgraph'', run_model_name := Some ''incident-agent-graph-v1'',
                       run_prompt_version := prompt_version st\<rparr>;
            w2 = set_run run' w1
        in (run', if inc_status incident = NEW \<or> inc_status incident = COLLECTING_EVIDENCE
                  then set_incident (incident\<lparr>inc_status := ANALYZING\<rparr>) w2 else w2))"

definition evidence_record :: "pylib \<Rightarrow> evidence \<Rightarrow> agent_evidence" where
  "evidence_record py e = \<lparr>ae_id = uuid_text py (evd_id e), ae_source_type = evd_source_type e,
     ae_source_name = evd_source_name e, ae_query = evd_query e, ae_query_params = evd_query_params e,
     ae_summary = evd_summary e, ae_raw_data = evd_raw_data e,
     ae_collected_at = iso_text py (utc (evd_collected_at e))\<rparr>"

definition initial_state ::
    "pylib \<Rightarrow> incident \<Rightarrow> uuid \<Rightarrow> str \<Rightarrow> str \<Rightarrow> investigate_request \<Rightarrow> agent_evidence list \<Rightarrow> agent_state" where
  "initial_state py incident run service_name alert_type request records =
     \<lparr>as_incident_id = uuid_text py (inc_id incident), as_agent_run_id = uuid_text py run,
      as_service_name = service_name, as_alert_type = alert_type,
      as_severity = severity_value (inc_severity incident),
      as_started_at = Some (iso_text py (inc_started_at incident)),
      as_lookback_seconds = iv_lookback_seconds request, as_step_seconds = iv_step_seconds request,
      as_log_limit = iv_log_limit request, as_min_confidence = Fin (iv_min_confidence request),
      as_metrics_evidence = of_type METRIC records, as_logs_evidence = of_type LOG records,
      as_deployments_evidence = of_type DEPLOYMENT records, as_runbook_evidence = of_type RUNBOOK records,
      as_evidence_records = records, as_retrieved_runbooks = [], as_signals = [], as_hypotheses = [],
      as_selected_hypothesis = None, as_llm_recommendation_hint = None, as_recommendations = [],
      as_selected_recommendation = None, as_status = ''running'', as_summary = JStr [],
      as_error_message = None, as_safety_check_passed = False, as_requires_approval = True,
      as_tool_calls = [], as_input_tokens = 0, as_output_tokens = 0\<rparr>"

subsection \<open>After the agent\<close>

text \<open>\<open>uuid.UUID(str(x))\<close>.\<close>

definition parse_uuid :: "pylib \<Rightarrow> str \<Rightarrow> exn + uuid" where
  "parse_uuid py s = (case uuid_of_text py s of None \<Rightarrow> Inl (ValueErr ''badly formed hexadecimal UUID string'') | Some u \<Rightarrow> Inr u)"

definition insert_evidence :: "evidence \<Rightarrow> world \<Rightarrow> world" where
  "insert_evidence e w = with_work (\<lambda>d. d\<lparr>evidences := evidences d @ [e]\<rparr>) w"

definition runbook_row :: "uuid \<Rightarrow> uuid \<Rightarrow> uuid \<Rightarrow> agent_evidence \<Rightarrow> time \<Rightarrow> time \<Rightarrow> evidence" where
  "runbook_row u incident run r now created =
     \<lparr>evd_id = u, evd_incident = incident, evd_run = run, evd_tool_call = None, evd_source_type = RUNBOOK,
      evd_source_name = ae_source_name r, evd_query = ae_query r, evd_query_params = ae_query_params r,
      evd_summary = ae_summary r, evd_raw_data = ae_raw_data r, evd_range_start = None, evd_range_end = None,
      evd_collected_at = now, evd_created_at = created\<rparr>"

text \<open>The column of the source name holds 128 characters: a longer one fails when it is flushed.\<close>

fun store_runbooks :: "pylib \<Rightarrow> uuid \<Rightarrow> uuid \<Rightarrow> agent_evidence list \<Rightarrow> (world, unit) op" where
  "store_runbooks py incident run [] w = (Inr (), w)"
| "store_runbooks py incident run (r # rs) w =
     (case parse_uuid py (ae_id r) of
        Inl e \<Rightarrow> (Inl e, w)
      | Inr u \<Rightarrow>
          if row_get evd_id u (evidences (work w)) \<noteq> None then store_runbooks py incident run rs w
          else let (now, w1) = utc_now w
            in if 128 < length (ae_source_name r) then (Inl DataErr, rollback w1)
               else store_runbooks py incident run rs
                      (insert_evidence (runbook_row u incident run r now (db_now w1)) w1))"

definition run_evidence_count :: "world \<Rightarrow> uuid \<Rightarrow> nat" where
  "run_evidence_count w run = length (filter (\<lambda>e. evd_run e = run) (evidences (work w)))"

definition current_status :: "world \<Rightarrow> uuid \<Rightarrow> exn + incident_status" where
  "current_status w k = (case get_incident w k of None \<Rightarrow> Inl (ValueErr ''Could not refresh instance'') | Some i \<Rightarrow> Inr (inc_status i))"

definition conclude_insufficient :: "uuid \<Rightarrow> agent_run \<Rightarrow> str option \<Rightarrow> nat \<Rightarrow> (world, investigate_response) op" where
  "conclude_insufficient incident run message rows w =
     (let (now, w1) = utc_now w;
          m = (case message of Some (c # t) \<Rightarrow> c # t | _ \<Rightarrow> ''Insufficient evidence to determine a reliable root cause.'');
          run' = run\<lparr>run_status := Run_INSUFFICIENT_EVIDENCE, run_finished_at := Some now, run_error_message := Some m\<rparr>;
          w2 = set_run run' w1; n = run_evidence_count w2 (run_id run)
      in case current_status w2 incident of
           Inl e \<Rightarrow> (Inl e, w2)
         | Inr s \<Rightarrow> (Inr \<lparr>iq_incident = incident, iq_run = run_id run, iq_incident_status = s,
             iq_evidence_count = (if n \<noteq> 0 then n else rows), iq_hypothesis = None, iq_recommendation = None,
             iq_approval = None, iq_investigated_at = now\<rparr>, w2))"

fun parse_uuids :: "pylib \<Rightarrow> json list \<Rightarrow> exn + uuid list" where
  "parse_uuids py [] = Inr []"
| "parse_uuids py (c # cs) =
     (case parse_uuid py (py_str py c) of
        Inl e \<Rightarrow> Inl e
      | Inr u \<Rightarrow> (case parse_uuids py cs of Inl e \<Rightarrow> Inl e | Inr us \<Rightarrow> Inr (u # us)))"

definition cited_uuids :: "pylib \<Rightarrow> agent_hypothesis \<Rightarrow> exn + uuid list" where
  "cited_uuids py h = (case py_iter (gh_evidence_ids h) of Inl e \<Rightarrow> Inl e | Inr cs \<Rightarrow> parse_uuids py cs)"

text \<open>Pydantic refuses a field of the wrong type with a ValidationError.\<close>

definition hypothesis_create_of :: "agent_hypothesis \<Rightarrow> uuid list \<Rightarrow> exn + hypothesis_create" where
  "hypothesis_create_of h ids =
     (case (gh_root_cause h, gh_summary h) of
        (JStr r, JStr s) \<Rightarrow>
          let p = \<lparr>hc_root_cause = r, hc_summary = s, hc_confidence = gh_confidence h, hc_evidence_ids = ids\<rparr>
          in if hypothesis_create_ok p then Inr p else Inl ValidationErr
      | _ \<Rightarrow> Inl ValidationErr)"

definition recommendation_create_of :: "agent_recommendation \<Rightarrow> uuid \<Rightarrow> exn + recommendation_create" where
  "recommendation_create_of r h =
     (case (gr_action_type r, gr_parameters r, gr_rationale r) of
        (JStr t, JObj ps, JStr why) \<Rightarrow>
          let p = \<lparr>pc_hypothesis = h, pc_action_type = t, pc_parameters = ps, pc_rationale = why,
                   pc_risk_level = gr_risk_level r\<rparr>
          in if recommendation_create_ok p then Inr p else Inl ValidationErr
      | _ \<Rightarrow> Inl ValidationErr)"

definition record_proposal ::
    "uuid \<Rightarrow> agent_recommendation option \<Rightarrow> uuid \<Rightarrow> (world, recommendation option) op" where
  "record_proposal run selected h w =
     (case selected of
        None \<Rightarrow> (Inr None, w)
      | Some r \<Rightarrow> (case recommendation_create_of r h of
          Inl e \<Rightarrow> (Inl e, w)
        | Inr p \<Rightarrow> bind (record_recommendation run p w) (\<lambda>rc w1. (Inr (Some rc), w1))))"

definition ask_approval ::
    "pylib \<Rightarrow> bool \<Rightarrow> agent_recommendation option \<Rightarrow> recommendation option \<Rightarrow> (world, approval option) op" where
  "ask_approval py auto selected recorded w =
     (case (selected, recorded) of
        (Some r, Some rc) \<Rightarrow>
          if auto \<and> gr_requires_approval r
          then bind (request_approval py True (rec_id rc) w) (\<lambda>a w1. (Inr (Some a), w1))
          else (Inr None, w)
      | _ \<Rightarrow> (Inr None, w))"

definition hypothesis_read :: "hypothesis \<Rightarrow> uuid list \<Rightarrow> analysis_hypothesis" where
  "hypothesis_read h ids = \<lparr>ah_id = hyp_id h, ah_root_cause = hyp_root_cause h, ah_summary = hyp_summary h,
     ah_confidence = hyp_confidence h, ah_evidence_ids = ids\<rparr>"

definition recommendation_read :: "recommendation \<Rightarrow> analysis_recommendation" where
  "recommendation_read rc = \<lparr>ac_id = rec_id rc, ac_action_type = rec_action_type rc, ac_parameters = rec_parameters rc,
     ac_rationale = rec_rationale rc, ac_risk_level = rec_risk_level rc,
     ac_requires_approval = rec_requires_approval rc, ac_status = rec_status rc\<rparr>"

definition conclude ::
    "pylib \<Rightarrow> uuid \<Rightarrow> agent_run \<Rightarrow> bool \<Rightarrow> agent_hypothesis \<Rightarrow> agent_recommendation option \<Rightarrow> nat \<Rightarrow>
     (world, investigate_response) op" where
  "conclude py incident run auto h selected rows w =
     (case cited_uuids py h of
        Inl e \<Rightarrow> (Inl e, w)
      | Inr ids \<Rightarrow>
     (case hypothesis_create_of h ids of
        Inl e \<Rightarrow> (Inl e, w)
      | Inr p \<Rightarrow>
     bind (record_hypothesis (run_id run) p w) (\<lambda>hyp w1.
     bind (record_proposal (run_id run) selected (hyp_id hyp) w1) (\<lambda>recorded w2.
     let (now, w3) = utc_now w2;
         run' = run\<lparr>run_status := Run_COMPLETED, run_finished_at := Some now, run_error_message := None\<rparr>;
         w4 = set_run run' w3
     in bind (ask_approval py auto selected recorded w4) (\<lambda>appr w5.
          let n = run_evidence_count w5 (run_id run)
          in case current_status w5 incident of
               Inl e \<Rightarrow> (Inl e, w5)
             | Inr s \<Rightarrow> (Inr \<lparr>iq_incident = incident, iq_run = run_id run, iq_incident_status = s,
                 iq_evidence_count = (if n \<noteq> 0 then n else rows), iq_hypothesis = Some (hypothesis_read hyp ids),
                 iq_recommendation = map_option recommendation_read recorded, iq_approval = appr,
                 iq_investigated_at = now\<rparr>, w5))))))"

text \<open>What follows the agent: its runbooks are stored, then the run is concluded one way or the other.\<close>

definition persist_outcome ::
    "pylib \<Rightarrow> uuid \<Rightarrow> agent_run \<Rightarrow> bool \<Rightarrow> nat \<Rightarrow> agent_state \<Rightarrow> (world, investigate_response) op" where
  "persist_outcome py incident run auto rows final w =
     bind (store_runbooks py incident (run_id run) (as_runbook_evidence final) w) (\<lambda>_ w1.
       case as_selected_hypothesis final of
         None \<Rightarrow> conclude_insufficient incident run (as_error_message final) rows w1
       | Some h \<Rightarrow>
           if as_status final = ''insufficient_evidence''
           then conclude_insufficient incident run (as_error_message final) rows w1
           else conclude py incident run auto h (as_selected_recommendation final) rows w1)"

text \<open>Steps 2 to 6: from the collected run on.\<close>

definition investigate_run ::
    "pylib \<Rightarrow> outside \<Rightarrow> settings \<Rightarrow> incident \<Rightarrow> str \<Rightarrow> str \<Rightarrow> agent_run \<Rightarrow> investigate_request \<Rightarrow>
     (world, investigate_response) op" where
  "investigate_run py ext st incident service_name alert_type run request w =
     (let (run1, w1) = begin_investigation st incident run w;
          rows = run_evidence (work w1) (run_id run1);
          start = initial_state py incident (run_id run1) service_name alert_type request (map (evidence_record py) rows)
      in bind (investigation_graph (agent_env_of py ext st) start w1) (\<lambda>final w2.
           persist_outcome py (inc_id incident) run1 (iv_auto_request_approval request) (length rows) final w2))"

definition investigate_incident ::
    "pylib \<Rightarrow> 'e http \<Rightarrow> outside \<Rightarrow> settings \<Rightarrow> uuid \<Rightarrow> investigate_request \<Rightarrow> (world \<times> 'e, investigate_response) op" where
  "investigate_incident py http ext st incident_id request = (\<lambda>(w, e).
     case get_incident w incident_id of
       None \<Rightarrow> (Inl (CollectionNotFoundError ''Incident not found''), w, e)
     | Some incident0 \<Rightarrow>
         let service_name = (case get_service w (inc_service incident0) of Some s \<Rightarrow> sv_name s | None \<Rightarrow> ''unknown'');
             alert_type = incident_alert_type w incident0
         in (case collect_incident_evidence py http st incident_id
                \<lparr>cr_lookback_seconds = iv_lookback_seconds request, cr_end_at = None,
                  cr_step_seconds = iv_step_seconds request, cr_log_limit = iv_log_limit request\<rparr> (w, e) of
               (Inl x, w1, e1) \<Rightarrow> (Inl x, w1, e1)
             | (Inr collected, w1, e1) \<Rightarrow>
                 (case (get_run w1 (co_run collected), get_incident w1 incident_id) of
                    (Some run, Some incident) \<Rightarrow>
                      (case investigate_run py ext st incident service_name alert_type run request w1 of
                         (out, w2) \<Rightarrow> (out, w2, e1))
                  | _ \<Rightarrow> (Inl (CollectionNotFoundError ''Agent run not found''), w1, e1))))"


subsection \<open>A run under investigation\<close>

definition open_run :: "pylib \<Rightarrow> uuid \<Rightarrow> agent_run \<Rightarrow> world \<Rightarrow> bool" where
  "open_run py k run w \<longleftrightarrow> system_inv py w \<and> get_run w (run_id run) = Some run \<and> run_incident run = k \<and>
     (\<exists>s. run_started_at run = Some s \<and> s \<le> now_of w) \<and> get_incident w k \<noteq> None"

lemma open_run_frame:
  assumes "open_run py k run w" "system_inv py w'" "runs (work w') = runs (work w)" "now_of w \<le> now_of w'"
    "keys inc_id (incidents (work w)) \<subseteq> keys inc_id (incidents (work w'))"
  shows "open_run py k run w'"
  using assms unfolding open_run_def row_get_None_iff by (auto intro: order_trans)

lemma begin_investigation_effect:
  assumes "system_inv py w" "get_run w (run_id run) = Some run" "get_incident w (run_incident run) = Some incident"
  shows "\<exists>run1 w1. begin_investigation st incident run w = (run1, w1) \<and> open_run py (run_incident run) run1 w1 \<and>
    run_id run1 = run_id run \<and> keeps_records w w1"
proof -
  obtain s w1 where s: "started_or_now run w = (s, w1)" by fastforce
  let ?r = "run\<lparr>run_status := Run_RUNNING, run_started_at := Some s, run_provider := Some ''langgraph'',
      run_model_name := Some ''incident-agent-graph-v1'', run_prompt_version := prompt_version st\<rparr>"
  have "begin_investigation st incident run w = (?r, mark_started incident ?r w1)"
    by (simp add: begin_investigation_def s Let_def mark_started_def)
  moreover have "same_run ?r run" by (simp add: same_run_def)
  ultimately show ?thesis using mark_started_effect [OF assms s, of ?r] by (simp add: open_run_def)
qed

lemma only_draws_inv:
  assumes "only_draws w w'" "system_inv py w"
  shows "system_inv py w'" "now_of w \<le> now_of w'"
proof -
  note d = system_invD [OF assms(2)] and o = only_draws_same [OF assms(1)]
  show m: "now_of w \<le> now_of w'" using d(3) o(4,8) by (simp add: now_of_def world_ok_def monoD)
  have "uuids w ` {..<uuid_count w} \<subseteq> uuids w ` {..<uuid_count w'}" using o(7) by auto
  then have "records_ok w'" using d(2) o by (auto simp: records_ok_def world_ok_def ids_ok_def)
  then have "approvals_inv py w'"
    by (rule approvals_inv_step [OF d(1)]) (use m o in simp_all)
  then show "system_inv py w'"
    by (rule system_inv_frame [OF assms(2)])
      (use m o assms(2) runs_past_mono in \<open>auto simp: system_inv_def\<close>)
qed

lemma open_run_draws: "only_draws w w' \<Longrightarrow> open_run py k run w \<Longrightarrow> open_run py k run w'"
  using only_draws_inv [of w w' py] only_draws_same(1) [of w w'] by (auto intro: open_run_frame simp: open_run_def)

subsection \<open>Storing the runbooks\<close>

lemma insert_evidence_ok:
  assumes "world_ok w" "evd_id e \<in> uuids w ` {..<uuid_count w}" "evd_id e \<notin> keys evd_id (evidences (work w))"
    "evidence_ok (run_incidents (work w)) (call_runs (work w)) e"
  shows "world_ok (insert_evidence e w)"
proof -
  let ?d = "work w\<lparr>evidences := evidences (work w) @ [e]\<rparr>"
  have "db_ok ?d"
    using world_okD [OF assms(1)] assms(3,4) by (auto simp: db_ok_def evidences_ok_def grow_simps simp del: map_append)
  moreover have "used_ids ?d \<subseteq> insert (evd_id e) (used_ids (work w))" by (auto simp: used_ids_def keys_append keys_Cons keys_Nil)
  ultimately show ?thesis
    using assms(1,2) unfolding insert_evidence_def with_work_def world_ok_def ids_ok_def by auto
qed

lemma insert_evidence_inv:
  assumes "system_inv py w" "evd_id e \<in> uuids w ` {..<uuid_count w}" "evd_id e \<notin> keys evd_id (evidences (work w))"
    "evidence_ok (run_incidents (work w)) (call_runs (work w)) e" "evd_tool_call e = None"
  shows "system_inv py (insert_evidence e w)"
proof (rule system_inv_record [OF assms(1)])
  note d = system_invD(2,3) [OF assms(1)]
  have "world_ok (insert_evidence e w)" by (rule insert_evidence_ok [OF d(2) assms(2-4)])
  then show "records_ok (insert_evidence e w)"
    using d(1) assms(5) by (auto simp: records_ok_def insert_evidence_def with_work_def trail_ok_def)
qed (simp_all add: insert_evidence_def with_work_def same_outside_def)

text \<open>The identifier of a runbook record is one that the session drew before.\<close>

definition drawn :: "pylib \<Rightarrow> world \<Rightarrow> str \<Rightarrow> bool" where
  "drawn py w i \<longleftrightarrow> (\<exists>u \<in> uuids w ` {..<uuid_count w}. i = uuid_text py u)"

lemma store_runbooks_effect:
  assumes "open_run py k run w" "pylib_ok py" "\<forall>r \<in> set rs. drawn py w (ae_id r)"
    "store_runbooks py k (run_id run) rs w = (out, w')"
  shows "system_inv py w' \<and> (out = Inr () \<longrightarrow> open_run py k run w')"
  using assms(1,3,4)
proof (induction rs arbitrary: w)
  case Nil
  then show ?case by (auto simp: open_run_def)
next
  case (Cons r rs)
  obtain u where u: "u \<in> uuids w ` {..<uuid_count w}" "ae_id r = uuid_text py u"
    using Cons.prems(2) by (auto simp: drawn_def)
  then have p: "parse_uuid py (ae_id r) = Inr u" using assms(2) by (simp add: parse_uuid_def pylib_ok_def)
  have i: "system_inv py w" using Cons.prems(1) by (simp add: open_run_def)
  show ?case
  proof (cases "row_get evd_id u (evidences (work w)) = None")
    case False
    then show ?thesis using Cons p by simp
  next
    case True
    obtain w1 where t: "utc_now w = (now_of w, w1)" "system_inv py w1" "now_of w \<le> now_of w1" "work w1 = work w"
      "keeps_records w w1" using clock_tick [OF i] .
    have w1: "uuids w1 = uuids w" "uuid_count w1 = uuid_count w" using t(1) by (auto simp: utc_now_def)
    show ?thesis
    proof (cases "128 < length (ae_source_name r)")
      case long: True
      then have "out = Inl DataErr" "w' = rollback w1" using Cons.prems(3) p True t(1) by auto
      then show ?thesis using system_inv_rollback [OF t(2)] by simp
    next
      case False
      let ?e = "runbook_row u k (run_id run) r (now_of w) (db_now w1)"
      let ?w2 = "insert_evidence ?e w1"
      have "run \<in> set (runs (work w))" using Cons.prems(1) by (auto simp: open_run_def dest: row_get_SomeD)
      then have "(run_id run, k) \<in> run_incidents (work w1)"
        using Cons.prems(1) by (auto simp: t(4) open_run_def keys_def)
      then have "evidence_ok (run_incidents (work w1)) (call_runs (work w1)) ?e"
        by (simp add: evidence_ok_def runbook_row_def opt_ok_def time_range_ok_def)
      then have "system_inv py ?w2"
        using u(1) True w1 by (intro insert_evidence_inv [OF t(2)]) (simp_all add: runbook_row_def t(4) row_get_None_iff)
      then have o: "open_run py k run ?w2"
        by (rule open_run_frame [OF Cons.prems(1)]) (use t(3) in \<open>simp_all add: insert_evidence_def with_work_def t(4) now_of_def\<close>)
      have "\<forall>r \<in> set rs. drawn py ?w2 (ae_id r)"
        using Cons.prems(2) w1 by (simp add: drawn_def insert_evidence_def with_work_def)
      moreover have "store_runbooks py k (run_id run) rs ?w2 = (out, w')" using Cons.prems(3) p True t(1) False by simp
      ultimately show ?thesis using Cons.IH [OF o] by blast
    qed
  qed
qed

subsection \<open>Concluding\<close>

lemma finish_run:
  assumes "open_run py k run w" "run_id r = run_id run" "run_incident r = run_incident run"
    "run_input_tokens r = run_input_tokens run" "run_output_tokens r = run_output_tokens run"
    "run_started_at r = run_started_at run" "run_finished_at r = Some (now_of w)"
    "utc_now w = (now_of w, w1)"
  shows "system_inv py (set_run r w1) \<and> get_run (set_run r w1) (run_id run) = Some r \<and>
    incidents (work (set_run r w1)) = incidents (work w) \<and> keeps_records w (set_run r w1) \<and>
    approvals (work (set_run r w1)) = approvals (work w) \<and> now_of w \<le> now_of (set_run r w1)"
proof -
  have i: "system_inv py w" using assms(1) by (simp add: open_run_def)
  obtain w2 where u: "utc_now w = (now_of w, w2)" "system_inv py w2" "now_of w \<le> now_of w2" "work w2 = work w"
    "keeps_records w w2" using clock_tick [OF i] .
  then have w2: "w2 = w1" using assms(8) by simp
  obtain s where s: "run_started_at run = Some s" "s \<le> now_of w" using assms(1) by (auto simp: open_run_def)
  have g: "get_run w1 (run_id run) = Some run" using assms(1) u(4) w2 by (simp add: open_run_def)
  have "system_inv py (set_run r w1) \<and> get_run (set_run r w1) (run_id run) = Some r \<and>
      keeps_records w1 (set_run r w1) \<and> now_of (set_run r w1) = now_of w1 \<and>
      incidents (work (set_run r w1)) = incidents (work w1)"
    by (rule update_run [OF _ g, where s = s]) (use assms s u(2,3) w2 in \<open>auto simp: same_run_def\<close>)
  moreover have "approvals (work (set_run r w1)) = approvals (work w1)" by (simp add: set_run_def with_work_def)
  ultimately show ?thesis using u w2 keeps_records_trans by auto
qed

lemma current_status_open: "get_incident w k \<noteq> None \<Longrightarrow> \<exists>s. current_status w k = Inr s"
  by (auto simp: current_status_def split: option.splits)

definition run_closed :: "world \<Rightarrow> uuid \<Rightarrow> uuid \<Rightarrow> run_status \<Rightarrow> bool" where
  "run_closed w run k st \<longleftrightarrow> (\<exists>q. get_run w run = Some q \<and> run_incident q = k \<and> run_status q = st \<and> run_finished_at q \<noteq> None)"

lemma conclude_insufficient_effect:
  assumes "open_run py k run w" "conclude_insufficient k run m n w = (out, w')"
  shows "system_inv py w' \<and> (\<exists>r. out = Inr r \<and> iq_incident r = k \<and> iq_run r = run_id run \<and> iq_hypothesis r = None \<and>
    iq_recommendation r = None \<and> iq_approval r = None \<and> run_closed w' (run_id run) k Run_INSUFFICIENT_EVIDENCE)"
proof -
  have i: "system_inv py w" using assms(1) by (simp add: open_run_def)
  obtain w1 where u: "utc_now w = (now_of w, w1)" "system_inv py w1" "now_of w \<le> now_of w1" "work w1 = work w"
    "keeps_records w w1" using clock_tick [OF i] .
  let ?m = "case m of Some (c # t) \<Rightarrow> c # t | _ \<Rightarrow> ''Insufficient evidence to determine a reliable root cause.''"
  let ?r = "run\<lparr>run_status := Run_INSUFFICIENT_EVIDENCE, run_finished_at := Some (now_of w), run_error_message := Some ?m\<rparr>"
  have f: "system_inv py (set_run ?r w1) \<and> get_run (set_run ?r w1) (run_id run) = Some ?r \<and>
    incidents (work (set_run ?r w1)) = incidents (work w) \<and> keeps_records w (set_run ?r w1) \<and>
    approvals (work (set_run ?r w1)) = approvals (work w) \<and> now_of w \<le> now_of (set_run ?r w1)"
    by (rule finish_run [OF assms(1) _ _ _ _ _ _ u(1)]) simp_all
  then obtain s where "current_status (set_run ?r w1) k = Inr s"
    using current_status_open [where w = "set_run ?r w1" and k = k] assms(1) by (auto simp: open_run_def)
  then show ?thesis using assms f u(1) by (auto simp: conclude_insufficient_def Let_def open_run_def run_closed_def)
qed

lemma hypothesis_create_of_Inr:
  "hypothesis_create_of h ids = Inr p \<Longrightarrow>
    hypothesis_create_ok p \<and> hc_evidence_ids p = ids \<and> hc_confidence p = gh_confidence h"
  by (auto simp: hypothesis_create_of_def Let_def split: json.splits if_splits)

lemma recommendation_create_of_Inr:
  "recommendation_create_of r h = Inr p \<Longrightarrow>
    recommendation_create_ok p \<and> pc_hypothesis p = h \<and> gr_action_type r = JStr (pc_action_type p)"
  by (auto simp: recommendation_create_of_def Let_def split: json.splits if_splits)

text \<open>A recommendation that was just recorded has no approval yet.\<close>

definition fresh_recommendation :: "uuid \<Rightarrow> recommendation \<Rightarrow> world \<Rightarrow> bool" where
  "fresh_recommendation run rc w \<longleftrightarrow> get_recommendation w (rec_id rc) = Some rc \<and> rec_run rc = run \<and>
     rec_id rc \<notin> keys ap_recommendation (approvals (work w)) \<and> rec_requires_approval rc \<and> rec_status rc = ''proposed''"

lemma record_proposal_effect:
  assumes "open_run py k run w" "record_proposal (run_id run) sel h w = (out, w')"
  shows "system_inv py w' \<and> (\<forall>recorded. out = Inr recorded \<longrightarrow> open_run py k run w' \<and>
    hypotheses (work w') = hypotheses (work w) \<and> evidences (work w') = evidences (work w) \<and>
    (case sel of None \<Rightarrow> recorded = None
     | Some r \<Rightarrow> \<exists>rc. recorded = Some rc \<and> fresh_recommendation (run_id run) rc w' \<and> gr_action_type r = JStr (rec_action_type rc)))"
proof (cases sel)
  case None
  then show ?thesis using assms by (auto simp: record_proposal_def open_run_def)
next
  case (Some r)
  have i: "system_inv py w" using assms(1) by (simp add: open_run_def)
  show ?thesis
  proof (cases "recommendation_create_of r h")
    case (Inl e)
    then show ?thesis using assms Some i by (auto simp: record_proposal_def)
  next
    case (Inr p)
    note p = recommendation_create_of_Inr [OF Inr]
    obtain o1 w1 where rc: "record_recommendation (run_id run) p w = (o1, w1)" by fastforce
    have i1: "system_inv py w1" using system_inv_recommendation [OF rc i] p by simp
    show ?thesis
    proof (cases o1)
      case (Inl e)
      then show ?thesis using assms(2) Some Inr rc i1 by (auto simp: record_proposal_def)
    next
      case o1: (Inr rc0)
      then have out: "out = Inr (Some rc0)" "w' = w1" using assms(2) Some Inr rc by (auto simp: record_proposal_def)
      note re = record_recommendation_effect [OF rc [unfolded o1] system_invD(2) [OF i] conjunct1 [OF p]]
      have t: "runs (work w1) = runs (work w)" "incidents (work w1) = incidents (work w)" "approvals (work w1) = approvals (work w)"
        "hypotheses (work w1) = hypotheses (work w)" "evidences (work w1) = evidences (work w)"
        "recommendations (work w1) = recommendations (work w) @ [rc0]" by (simp_all add: re(5))
      have n: "now_of w1 = now_of w" using re(6) by (simp add: same_outside_def now_of_def)
      have id: "rec_id rc0 = uuids w (uuid_count w)" "rec_run rc0 = run_id run" "rec_requires_approval rc0" "rec_status rc0 = ''proposed''"
        "rec_action_type rc0 = pc_action_type p"
        by (simp_all add: re(4) recommendation_row_def)
      have new: "rec_id rc0 \<notin> keys rec_id (recommendations (work w))" using new_keys(10) system_invD(3) [OF i] by (simp add: id)
      have "\<forall>a \<in> set (approvals (work w)). ap_recommendation a \<in> keys rec_id (recommendations (work w))"
        using system_invD(4) [OF i] by (simp add: db_ok_def approvals_ok_def)
      then have "rec_id rc0 \<notin> keys ap_recommendation (approvals (work w))" using new by (auto simp: keys_def)
      moreover have "get_recommendation w1 (rec_id rc0) = Some rc0"
        using new [folded row_get_None_iff] by (simp add: t(6) row_get_append row_get_Cons)
      ultimately have "fresh_recommendation (run_id run) rc0 w1" using id t(3) by (simp add: fresh_recommendation_def)
      moreover have "open_run py k run w1" by (rule open_run_frame [OF assms(1) i1]) (simp_all add: t n)
      ultimately show ?thesis using Some out i1 t p id by auto
    qed
  qed
qed

lemma ask_approval_effect:
  assumes "system_inv py w" "ask_approval py auto sel recorded w = (out, w')"
    "\<And>rc. recorded = Some rc \<Longrightarrow> fresh_recommendation run rc w"
  shows "system_inv py w' \<and> (\<forall>appr. out = Inr appr \<longrightarrow> runs (work w') = runs (work w) \<and>
    hypotheses (work w') = hypotheses (work w) \<and> evidences (work w') = evidences (work w) \<and>
    keys inc_id (incidents (work w')) = keys inc_id (incidents (work w)) \<and>
    (case appr of None \<Rightarrow> True | Some a \<Rightarrow> \<exists>rc. recorded = Some rc \<and> ap_recommendation a = rec_id rc \<and>
       ap_status a = Appr_PENDING \<and> ap_executed_at a = None \<and> rec_action_type rc \<in> set ALLOWED_ACTIONS))"
proof (cases "\<exists>r rc. sel = Some r \<and> recorded = Some rc \<and> auto \<and> gr_requires_approval r")
  case False
  then show ?thesis using assms(1,2) by (auto simp: ask_approval_def split: option.splits if_splits)
next
  case True
  then obtain r rc where c: "sel = Some r" "recorded = Some rc" "auto" "gr_requires_approval r" by blast
  obtain o1 w1 where q: "request_approval py True (rec_id rc) w = (o1, w1)" by fastforce
  have i1: "system_inv py w1" using system_inv_request [OF assms(1), of True "rec_id rc"] q by simp
  have out: "w' = w1" "out = (case o1 of Inl e \<Rightarrow> Inl e | Inr a \<Rightarrow> Inr (Some a))"
    using assms(2) c q by (cases o1; simp add: ask_approval_def)+
  have fr: "fresh_recommendation run rc w" using assms(3) c(2) by simp
  show ?thesis
  proof (cases rule: request_approval_cases [OF q system_invD(1) [OF assms(1)], case_names missing refused existing new])
    case (existing a)
    then have "rec_id rc \<in> keys ap_recommendation (approvals (work w))" by (metis keys_def image_eqI)
    then show ?thesis using fr by (simp add: fresh_recommendation_def)
  next
    case (new r' run' a i w2 md)
    have "keys inc_id (incidents (work w1)) = keys inc_id (incidents (work w))" "runs (work w1) = runs (work w)"
      "hypotheses (work w1) = hypotheses (work w)" "evidences (work w1) = evidences (work w)"
      by (simp_all add: new(7,9) write_defs keys_row_set)
    moreover have "r' = rc" using new(2) fr by (simp add: fresh_recommendation_def)
    ultimately show ?thesis using new i1 out c by (simp add: approval_row_def)
  qed (use i1 out in simp_all)
qed

text \<open>What the answer of an investigation may say, given the world it leaves behind.\<close>

definition investigation_safe :: "rat \<Rightarrow> world \<Rightarrow> investigate_response \<Rightarrow> bool" where
  "investigation_safe threshold w r \<longleftrightarrow>
     (case iq_hypothesis r of
        None \<Rightarrow> iq_recommendation r = None \<and> iq_approval r = None \<and>
          run_closed w (iq_run r) (iq_incident r) Run_INSUFFICIENT_EVIDENCE
      | Some h \<Rightarrow> run_closed w (iq_run r) (iq_incident r) Run_COMPLETED \<and>
          ah_evidence_ids h \<noteq> [] \<and> (\<forall>x \<in> set (ah_evidence_ids h). (x, iq_run r) \<in> evd_runs (work w)) \<and>
          (\<exists>c. ah_confidence h = Fin c \<and> threshold \<le> c \<and> c \<le> 1) \<and>
          (\<exists>row \<in> set (hypotheses (work w)). hyp_id row = ah_id h \<and> hyp_run row = iq_run r) \<and>
          (\<exists>c. iq_recommendation r = Some c \<and> ac_action_type c \<in> set ALLOWED_ACTIONS \<and> ac_requires_approval c \<and>
             ac_status c = ''proposed'' \<and>
             (case iq_approval r of None \<Rightarrow> True
              | Some a \<Rightarrow> ap_recommendation a = ac_id c \<and> ap_status a = Appr_PENDING \<and> ap_executed_at a = None)))"

lemma in_unit_above: "in_unit c \<Longrightarrow> \<not> pf_lt c (Fin t) \<Longrightarrow> \<exists>q. c = Fin q \<and> t \<le> q \<and> q \<le> 1"
  by (cases c) auto

lemma conclude_effect:
  assumes "open_run py k run w" "conclude py k run auto h (Some r) n w = (out, w')" "safe_recommendation r"
    "\<not> pf_lt (gh_confidence h) (Fin threshold)"
  shows "system_inv py w' \<and> (\<forall>resp. out = Inr resp \<longrightarrow> iq_incident resp = k \<and> iq_run resp = run_id run \<and>
    investigation_safe threshold w' resp)"
proof -
  have i: "system_inv py w" using assms(1) by (simp add: open_run_def)
  show ?thesis
  proof (cases "cited_uuids py h")
    case (Inl e)
    then show ?thesis using assms(2) i by (auto simp: conclude_def)
  next
    case ids: (Inr ids)
    show ?thesis
    proof (cases "hypothesis_create_of h ids")
      case (Inl e)
      then show ?thesis using assms(2) i ids by (auto simp: conclude_def)
    next
      case (Inr p)
      note base = assms(2) [unfolded conclude_def ids sum.case Inr]
      note p = hypothesis_create_of_Inr [OF Inr]
      obtain o1 w1 where rh: "record_hypothesis (run_id run) p w = (o1, w1)" by fastforce
      have i1: "system_inv py w1" using system_inv_hypothesis [OF rh i] p by simp
      show ?thesis
      proof (cases o1)
        case (Inl e)
        then show ?thesis using base rh i1 by auto
      next
        case o1: (Inr hyp)
        note he = record_hypothesis_effect [OF rh [unfolded o1] system_invD(2) [OF i] conjunct1 [OF p]]
        have t1: "runs (work w1) = runs (work w)" "incidents (work w1) = incidents (work w)"
          "evidences (work w1) = evidences (work w)" "hyp \<in> set (hypotheses (work w1))" by (simp_all add: he(5))
        have n1: "now_of w1 = now_of w" using he(6) by (simp add: same_outside_def now_of_def)
        have hyp: "hyp_run hyp = run_id run" "hyp_confidence hyp = gh_confidence h"
          using p by (simp_all add: he(3) hypothesis_row_def)
        have "in_unit (gh_confidence h)" using p by (auto simp: hypothesis_create_ok_def)
        then have conf: "\<exists>q. hyp_confidence hyp = Fin q \<and> threshold \<le> q \<and> q \<le> 1"
          unfolding hyp by (rule in_unit_above [OF _ assms(4)])
        have cited: "ids \<noteq> []" "\<forall>x \<in> set ids. (x, run_id run) \<in> evd_runs (work w)"
          using p he(4) by (auto simp: hypothesis_create_ok_def)
        have op1: "open_run py k run w1" by (rule open_run_frame [OF assms(1) i1]) (simp_all add: t1 n1)
        obtain o2 w2 where rp: "record_proposal (run_id run) (Some r) (hyp_id hyp) w1 = (o2, w2)" by fastforce
        note pe = record_proposal_effect [OF op1 rp]
        show ?thesis
        proof (cases o2)
          case (Inl e)
          then show ?thesis using base rh o1 rp pe by auto
        next
          case o2: (Inr recorded)
          obtain rc where rc: "recorded = Some rc" "fresh_recommendation (run_id run) rc w2"
            "gr_action_type r = JStr (rec_action_type rc)" using pe o2 by auto
          have op2: "open_run py k run w2" and e2: "hypotheses (work w2) = hypotheses (work w1)"
            "evidences (work w2) = evidences (work w1)" using pe o2 by auto
          obtain w3 where u: "utc_now w2 = (now_of w2, w3)"
            using op2 clock_tick [of py w2] by (auto simp: open_run_def)
          let ?q = "run\<lparr>run_status := Run_COMPLETED, run_finished_at := Some (now_of w2), run_error_message := None\<rparr>"
          let ?w4 = "set_run ?q w3"
          have f: "system_inv py ?w4 \<and> get_run ?w4 (run_id run) = Some ?q \<and>
            incidents (work ?w4) = incidents (work w2) \<and> keeps_records w2 ?w4 \<and>
            approvals (work ?w4) = approvals (work w2) \<and> now_of w2 \<le> now_of ?w4"
            by (rule finish_run [OF op2 _ _ _ _ _ _ u]) simp_all
          have fr4: "\<And>x. recorded = Some x \<Longrightarrow> fresh_recommendation (run_id run) x ?w4"
            using rc f by (simp add: fresh_recommendation_def keeps_records_def)
          obtain o5 w5 where aa: "ask_approval py auto (Some r) recorded ?w4 = (o5, w5)" by fastforce
          note ae = ask_approval_effect [OF conjunct1 [OF f] aa fr4]
          show ?thesis
          proof (cases o5)
            case (Inl e)
            then show ?thesis using base rh o1 rp o2 u aa ae by (auto simp: Let_def)
          next
            case o5: (Inr appr)
            have t5: "runs (work w5) = runs (work ?w4)" "hypotheses (work w5) = hypotheses (work w1)"
              "evidences (work w5) = evidences (work w)" "keys inc_id (incidents (work w5)) = keys inc_id (incidents (work w2))"
              using ae o5 f e2 t1(3) by (auto simp: keeps_records_def)
            have "get_incident w5 k \<noteq> None" using op2 by (simp add: open_run_def row_get_None_iff t5(4))
            then obtain s where s: "current_status w5 k = Inr s" using current_status_open by blast
            have closed: "run_closed w5 (run_id run) k Run_COMPLETED"
              using f assms(1) by (auto simp: run_closed_def t5(1) open_run_def)
            have allowed: "rec_action_type rc \<in> set ALLOWED_ACTIONS" using assms(3) rc(3) by (auto simp: safe_recommendation_def)
            let ?m = "run_evidence_count w5 (run_id run)"
            have w5: "w5 = w'" using base rh o1 rp o2 u aa o5 s rc(1) by (simp add: Let_def split del: if_split)
            have out: "out = Inr \<lparr>iq_incident = k, iq_run = run_id run, iq_incident_status = s,
                iq_evidence_count = (if ?m \<noteq> 0 then ?m else n), iq_hypothesis = Some (hypothesis_read hyp ids),
                iq_recommendation = Some (recommendation_read rc), iq_approval = appr, iq_investigated_at = now_of w2\<rparr>" "w' = w5"
              using base rh o1 rp o2 u aa o5 s rc(1) unfolding w5 by (simp_all add: Let_def split del: if_split)
            have "case appr of None \<Rightarrow> True | Some a \<Rightarrow> ap_recommendation a = rec_id rc \<and>
                ap_status a = Appr_PENDING \<and> ap_executed_at a = None"
              using ae o5 rc(1) by (auto split: option.splits)
            then have "investigation_safe threshold w5 (projr out)"
              unfolding out(1) using closed cited conf hyp(1) t1(4) t5 allowed rc(2)
              by (auto simp: investigation_safe_def hypothesis_read_def recommendation_read_def fresh_recommendation_def
                split: option.splits)
            then show ?thesis using out ae by auto
          qed
        qed
      qed
    qed
  qed
qed

subsection \<open>The whole investigation\<close>

lemma run_evidence_drawn:
  assumes "world_ok w" "e \<in> set (evidences (work w))"
  shows "drawn py w (uuid_text py (evd_id e))"
proof -
  have "evd_id e \<in> used_ids (work w)" using assms(2) by (auto simp: used_ids_def keys_def)
  moreover have "used_ids (work w) \<subseteq> uuids w ` {..<uuid_count w}" using assms(1) by (simp add: world_ok_def ids_ok_def)
  ultimately show ?thesis unfolding drawn_def by blast
qed

lemma drawn_later: "only_draws w w' \<Longrightarrow> drawn py w i \<Longrightarrow> drawn py w' i"
  using only_draws_same(3,7) [of w w'] by (fastforce simp: drawn_def)

lemma persist_outcome_effect:
  assumes "open_run py k run w" "pylib_ok py" "\<forall>r \<in> set (as_runbook_evidence t). drawn py w (ae_id r)"
    "declined t \<or> investigated py' t" "as_min_confidence t = Fin threshold"
    "persist_outcome py k run auto n t w = (out, w')"
  shows "system_inv py w' \<and> (\<forall>resp. out = Inr resp \<longrightarrow> iq_incident resp = k \<and> iq_run resp = run_id run \<and>
    investigation_safe threshold w' resp)"
proof -
  obtain o1 w1 where st: "store_runbooks py k (run_id run) (as_runbook_evidence t) w = (o1, w1)" by fastforce
  note se = store_runbooks_effect [OF assms(1-3) st]
  show ?thesis
  proof (cases o1)
    case (Inl e)
    then show ?thesis using assms(6) st se by (auto simp: persist_outcome_def)
  next
    case (Inr x)
    then have op: "open_run py k run w1" using se by simp
    show ?thesis
    proof (cases "declined t")
      case True
      then have "conclude_insufficient k run (as_error_message t) n w1 = (out, w')"
        using assms(6) st Inr by (simp add: persist_outcome_def declined_def)
      then show ?thesis using conclude_insufficient_effect [OF op] by (fastforce simp: investigation_safe_def)
    next
      case False
      then obtain h r where h: "as_selected_hypothesis t = Some h" "as_selected_recommendation t = Some r"
        "safe_recommendation r" "\<not> pf_lt (gh_confidence h) (Fin threshold)" "as_status t = ''completed''"
        using assms(4,5) by (auto simp: investigated_def)
      then have "conclude py k run auto h (Some r) n w1 = (out, w')"
        using assms(6) st Inr by (simp add: persist_outcome_def)
      then show ?thesis using conclude_effect [OF op _ h(3,4)] by blast
    qed
  qed
qed

lemma investigate_run_effect:
  assumes "system_inv py w" "pylib_ok py" "get_run w (run_id run) = Some run"
    "get_incident w (run_incident run) = Some incident"
    "investigate_run py ext st incident sn ty run request w = (out, w')"
  shows "system_inv py w' \<and> (\<forall>resp. out = Inr resp \<longrightarrow> iq_incident resp = run_incident run \<and> iq_run resp = run_id run \<and>
    investigation_safe (iv_min_confidence request) w' resp)"
proof -
  obtain run1 w1 where b: "begin_investigation st incident run w = (run1, w1)" "open_run py (run_incident run) run1 w1"
    "run_id run1 = run_id run"
    using begin_investigation_effect [OF assms(1,3,4)] by blast
  have k: "inc_id incident = run_incident run" using row_get_SomeD [OF assms(4)] by simp
  let ?rows = "run_evidence (work w1) (run_id run1)" and ?env = "agent_env_of py ext st"
  let ?s = "initial_state py incident (run_id run1) sn ty request (map (evidence_record py) ?rows)"
  have i1: "system_inv py w1" using b(2) by (simp add: open_run_def)
  obtain o2 w2 where g: "investigation_graph ?env ?s w1 = (o2, w2)" by fastforce
  have py: "env_py ?env = py" by (simp add: agent_env_of_def)
  show ?thesis
  proof (cases o2)
    case (Inl e)
    then have "out = Inl e" "w' = w2" using assms(5) b(1) g by (simp_all add: investigate_run_def Let_def)
    moreover have "only_draws w1 w2" by (rule graph_draws [OF g])
    ultimately show ?thesis using only_draws_inv(1) [OF _ i1] by simp
  next
    case (Inr t)
    obtain news where t: "as_runbook_evidence t = as_runbook_evidence ?s @ news"
      "map ae_id news = drawn_ids py w1 (length news)" "only_draws w1 w2" "uuid_count w2 = uuid_count w1 + length news"
      "as_min_confidence t = as_min_confidence ?s" "declined t \<or> investigated py t"
      using graph_outcome [OF g [unfolded Inr]] unfolding py by blast
    have dr: "drawn py w2 (ae_id r)" if mem: "r \<in> set (as_runbook_evidence t)" for r
    proof (cases "r \<in> set news")
      case True
      then have "ae_id r \<in> set (drawn_ids py w1 (length news))" using t(2) by (metis image_eqI set_map)
      then show ?thesis using t(4) only_draws_same(3) [OF t(3)] by (auto simp: drawn_ids_def drawn_def)
    next
      case False
      then obtain e where "e \<in> set ?rows" "r = evidence_record py e"
        using mem unfolding t(1) initial_state_def of_type_def by auto
      then have "drawn py w1 (ae_id r)"
        using run_evidence_drawn [OF system_invD(3) [OF i1]] by (simp add: set_run_evidence evidence_record_def)
      then show ?thesis by (rule drawn_later [OF t(3)])
    qed
    have po: "persist_outcome py (run_incident run) run1 (iv_auto_request_approval request) (length ?rows) t w2 = (out, w')"
      using assms(5) b(1) g Inr k by (simp add: investigate_run_def Let_def)
    have "as_min_confidence t = Fin (iv_min_confidence request)" using t(5) by (simp add: initial_state_def)
    then show ?thesis
      using persist_outcome_effect [OF open_run_draws [OF t(3) b(2)] assms(2) _ t(6) _ po] dr b(3) by simp
  qed
qed

lemma investigate_incident_outcome:
  assumes "investigate_incident py http ext st k request (w, e) = (out, w', e')" "system_inv py w" "pylib_ok py"
  shows "system_inv py w' \<and> (\<forall>resp. out = Inr resp \<longrightarrow> iq_incident resp = k \<and>
    investigation_safe (iv_min_confidence request) w' resp)"
proof (cases "get_incident w k")
  case None
  then show ?thesis using assms by (auto simp: investigate_incident_def)
next
  case (Some inc0)
  let ?req = "\<lparr>cr_lookback_seconds = iv_lookback_seconds request, cr_end_at = None,
      cr_step_seconds = iv_step_seconds request, cr_log_limit = iv_log_limit request\<rparr>"
  let ?sn = "case get_service w (inc_service inc0) of Some s \<Rightarrow> sv_name s | None \<Rightarrow> ''unknown''"
  obtain o1 w1 e1 where c: "collect_incident_evidence py http st k ?req (w, e) = (o1, w1, e1)" by (metis prod.collapse)
  note ce = collection_outcome [OF c assms(2)]
  note base = assms(1) [unfolded investigate_incident_def prod.case Some option.case Let_def c]
  show ?thesis
  proof (cases o1)
    case (Inl x)
    then show ?thesis using base ce by auto
  next
    case (Inr col)
    then obtain run where run: "get_run w1 (co_run col) = Some run" "run_incident run = k"
      using ce by (auto simp: reports_truth_def)
    have id: "run_id run = co_run col" using row_get_SomeD [OF run(1)] by simp
    have i1: "system_inv py w1" using ce by simp
    show ?thesis
    proof (cases "get_incident w1 k")
      case None
      then show ?thesis using base Inr run i1 by auto
    next
      case inc: (Some inc)
      obtain o2 w2 where r: "investigate_run py ext st inc ?sn (incident_alert_type w inc0) run request w1 = (o2, w2)" by fastforce
      then have "out = o2" "w' = w2" using base Inr run inc by auto
      then show ?thesis
        using investigate_run_effect [OF i1 assms(3) _ _ r] run id inc by auto
    qed
  qed
qed

text \<open>C3: The model is not trusted: for every LLM provider, an investigation keeps the invariant of the system whether it returns or raises; a hypothesis it returns is stored for the run, cites at least one evidence row and only rows of that run, has a confidence between the requested threshold and 1, and comes with one proposed, allow-listed recommendation that requires approval; an approval is only requested, never decided or executed; without a hypothesis the run is closed as insufficient with neither.\<close>

theorem investigate_incident_safe:
  assumes "investigate_incident py http ext st k request (w, e) = (out, w', e')" "system_inv py w" "pylib_ok py"
  shows "system_inv py w' \<and> (\<forall>resp. out = Inr resp \<longrightarrow> iq_incident resp = k \<and>
    investigation_safe (iv_min_confidence request) w' resp)"
  by (rule investigate_incident_outcome [OF assms])

definition demo_outside :: outside where
  "demo_outside = \<lparr>out_yaml = (\<lambda>_. None), out_runbooks = None,
     out_anthropic = (\<lambda>_ _ _. Inl ''offline''), out_openai = (\<lambda>_ _ _ _. Inl ''offline'')\<rparr>"

definition demo_request :: investigate_request where
  "demo_request = \<lparr>iv_lookback_seconds = 300, iv_step_seconds = 15, iv_log_limit = 100,
     iv_min_confidence = 3 / 5, iv_auto_request_approval = True\<rparr>"

theorem investigate_incident_safe_witness:
  "case investigate_incident demo_pylib scripted demo_outside default_settings 2 demo_request (alerted_world, metric_reply) of
     (out, w', _) \<Rightarrow> system_inv demo_pylib w' \<and>
       (\<forall>resp. out = Inr resp \<longrightarrow> iq_incident resp = 2 \<and> investigation_safe (3 / 5) w' resp)"
proof -
  obtain out w' e' where d: "investigate_incident demo_pylib scripted demo_outside default_settings 2 demo_request
      (alerted_world, metric_reply) = (out, w', e')" by (metis prod.collapse)
  show ?thesis
    using investigate_incident_safe [OF d alerted_world_inv demo_pylib_ok] unfolding d by (simp add: demo_request_def)
qed

end
