(* ===== verification/Api.thy ===== *)
theory Api
  imports Orchestrator Alertmanager Remediation
begin

section \<open>The HTTP interface\<close>

text \<open>
  \<open>apps/api/app/api/v1\<close>: the handlers, with their commits and the errors they turn into status
  codes. Every request works on a session of its own (\<open>core/db.py\<close>): when the handler ends, what it
  has not committed is lost (\<open>close_session\<close>), and a transaction of the next request sees a later
  \<open>func.now()\<close>. \<open>api_steps\<close> runs any requests in any order, one after the other; the theorems at
  the end hold in every state they reach. Bodies that the framework refuses with 422 never
  reach a handler; the handlers here take every body, so the theorems cover more.
\<close>

datatype 'a response = Ok 'a | Http_failure int str | Crashed exn

definition close_session :: "world \<Rightarrow> world" where
  "close_session w = rollback w"

definition then_commit :: "(exn + 'a) \<times> world \<Rightarrow> (exn + 'a) \<times> world" where
  "then_commit r = bind r (\<lambda>x w. (Inr x, commit w))"

text \<open>\<open>except E as exc: raise HTTPException(...)\<close>: the errors a handler turns into a status.\<close>

type_synonym catcher = "exn \<Rightarrow> (int \<times> str) option"

definition answer :: "catcher \<Rightarrow> (exn + 'a) \<times> world \<Rightarrow> 'a response \<times> world" where
  "answer h r =
     (case r of
        (Inr x, w) \<Rightarrow> (Ok x, close_session w)
      | (Inl e, w) \<Rightarrow> (case h e of Some (code, detail) \<Rightarrow> Http_failure code detail | None \<Rightarrow> Crashed e, close_session w))"

definition answer2 :: "catcher \<Rightarrow> (exn + 'a) \<times> world \<times> 'e \<Rightarrow> 'a response \<times> world \<times> 'e" where
  "answer2 h r = (case r of (out, w, e) \<Rightarrow> (case answer h (out, w) of (resp, w') \<Rightarrow> (resp, w', e)))"

definition catch_nothing :: catcher where
  "catch_nothing e = None"

fun catch_collection :: catcher where
  "catch_collection (CollectionNotFoundError m) = Some (404, m)"
| "catch_collection _ = None"

fun catch_investigation :: catcher where
  "catch_investigation (InvestigationNotFoundError m) = Some (404, m)"
| "catch_investigation _ = None"

fun catch_approval :: catcher where
  "catch_approval (ApprovalError m) = Some (400, m)"
| "catch_approval _ = None"

fun catch_remediation :: catcher where
  "catch_remediation (RemediationError m) = Some (400, m)"
| "catch_remediation _ = None"

subsection \<open>Alerts\<close>

record alert_response =
  at_alert_id :: uuid
  at_incident_id :: uuid
  at_status :: incident_status
  at_correlated :: bool

definition api_ingest_alert :: "pylib \<Rightarrow> settings \<Rightarrow> alert_request \<Rightarrow> world \<Rightarrow> alert_response response \<times> world" where
  "api_ingest_alert py st payload w = answer catch_nothing
     (bind (ingest_alert py payload (correlation_window_seconds st) w) (\<lambda>r w1.
        (Inr \<lparr>at_alert_id = ir_alert_id r, at_incident_id = ir_incident_id r, at_status = ir_status r,
           at_correlated = ir_correlated r\<rparr>, w1)))"

definition found :: "str \<Rightarrow> 'r option \<Rightarrow> 'r response" where
  "found detail r = (case r of None \<Rightarrow> Http_failure 404 detail | Some x \<Rightarrow> Ok x)"

text \<open>\<open>AlertRead\<close>: the raw payload stays inside. The creation time is a column the model leaves out.\<close>

record alert_read =
  alr_id :: uuid
  alr_external_id :: "str option"
  alr_service_id :: uuid
  alr_alert_type :: str
  alr_severity :: severity
  alr_started_at :: datetime
  alr_resolved_at :: "time option"

definition read_alert :: "alert \<Rightarrow> alert_read" where
  "read_alert a = \<lparr>alr_id = al_id a, alr_external_id = al_external_id a, alr_service_id = al_service a,
     alr_alert_type = al_type a, alr_severity = al_severity a, alr_started_at = al_started_at a,
     alr_resolved_at = al_resolved_at a\<rparr>"

definition api_get_alert :: "uuid \<Rightarrow> world \<Rightarrow> alert_read response" where
  "api_get_alert k w = found ''Alert not found'' (map_option read_alert (get_alert w k))"

definition api_webhook :: "pylib \<Rightarrow> settings \<Rightarrow> am_webhook \<Rightarrow> world \<Rightarrow> webhook_response response \<times> world" where
  "api_webhook py st payload w = answer catch_nothing (receive_webhook py st payload w)"

subsection \<open>Lists\<close>

text \<open>
  The other answers have the fields of the rows, one for one: \<open>model_validate\<close> copies them.
\<close>

type_synonym incident_read = incident
type_synonym incident_event_read = incident_event
type_synonym agent_run_read = agent_run
type_synonym tool_call_read = tool_call
type_synonym evidence_read = evidence
type_synonym approval_read = approval

text \<open>
  \<open>SELECT ... WHERE p ORDER BY key LIMIT limit OFFSET offset\<close> with the count of all the matching
  rows. Identifiers are ordered as numbers; a descending order is the ascending one of the
  negated key.
\<close>

record 'r listing =
  li_items :: "'r list"
  li_total :: nat

definition list_rows :: "('r \<Rightarrow> bool) \<Rightarrow> ('r \<Rightarrow> 'k::linorder) \<Rightarrow> nat \<Rightarrow> nat \<Rightarrow> 'r list \<Rightarrow> 'r listing" where
  "list_rows p key limit offset rows =
     \<lparr>li_items = page limit offset (sort_key key (filter p rows)), li_total = length (filter p rows)\<rparr>"

definition matches :: "'a option \<Rightarrow> 'a \<Rightarrow> bool" where
  "matches f x \<longleftrightarrow> (case f of None \<Rightarrow> True | Some y \<Rightarrow> x = y)"

definition api_list_incidents ::
    "str option \<Rightarrow> incident_status option \<Rightarrow> severity option \<Rightarrow> nat \<Rightarrow> nat \<Rightarrow> world \<Rightarrow> incident_read listing" where
  "api_list_incidents service_name status sev limit offset w =
     (let rows = (\<lambda>svc. list_rows (\<lambda>i. matches svc (inc_service i) \<and> matches status (inc_status i) \<and> matches sev (inc_severity i))
            (\<lambda>i. - as_utc (inc_started_at i)) limit offset (incidents (work w)))
      in case service_name of
           None \<Rightarrow> rows None
         | Some n \<Rightarrow> (case List.find (\<lambda>s. sv_name s = n) (services (work w)) of
             None \<Rightarrow> \<lparr>li_items = [], li_total = 0\<rparr>
           | Some s \<Rightarrow> rows (Some (sv_id s))))"

definition api_get_incident :: "uuid \<Rightarrow> world \<Rightarrow> incident_read response" where
  "api_get_incident k w = found ''Incident not found'' (get_incident w k)"

definition api_timeline :: "uuid \<Rightarrow> world \<Rightarrow> incident_event_read list response" where
  "api_timeline k w =
     (case get_incident w k of
        None \<Rightarrow> Http_failure 404 ''Incident not found''
      | Some _ \<Rightarrow> Ok (sort_key ev_created_at (filter (\<lambda>e. ev_incident e = k) (events (work w)))))"

definition evidence_page ::
    "uuid \<Rightarrow> uuid option \<Rightarrow> source_type option \<Rightarrow> str option \<Rightarrow> nat \<Rightarrow> nat \<Rightarrow> world \<Rightarrow> evidence_read listing" where
  "evidence_page incident run ty name limit offset w =
     list_rows (\<lambda>e. evd_incident e = incident \<and> matches run (evd_run e) \<and> matches ty (evd_source_type e) \<and>
         matches name (evd_source_name e))
       (\<lambda>e. (evd_collected_at e, evd_id e)) limit offset (evidences (work w))"

definition require_incident :: "uuid \<Rightarrow> world \<Rightarrow> 'a response \<Rightarrow> 'a response" where
  "require_incident k w r = (if get_incident w k = None then Http_failure 404 ''Incident not found'' else r)"

definition require_run_row :: "uuid \<Rightarrow> world \<Rightarrow> (agent_run \<Rightarrow> 'a response) \<Rightarrow> 'a response" where
  "require_run_row k w f = (case get_run w k of None \<Rightarrow> Http_failure 404 ''Agent run not found'' | Some r \<Rightarrow> f r)"

definition api_list_incident_evidence ::
    "uuid \<Rightarrow> uuid option \<Rightarrow> source_type option \<Rightarrow> str option \<Rightarrow> nat \<Rightarrow> nat \<Rightarrow> world \<Rightarrow> evidence_read listing response" where
  "api_list_incident_evidence k run ty name limit offset w =
     require_incident k w (Ok (evidence_page k run ty name limit offset w))"

definition api_get_incident_evidence :: "uuid \<Rightarrow> uuid \<Rightarrow> world \<Rightarrow> evidence_read response" where
  "api_get_incident_evidence k ev w =
     require_incident k w (found ''Evidence not found in this incident''
       (List.find (\<lambda>e. evd_id e = ev \<and> evd_incident e = k) (evidences (work w))))"

definition api_list_runs :: "uuid \<Rightarrow> nat \<Rightarrow> nat \<Rightarrow> world \<Rightarrow> agent_run_read listing response" where
  "api_list_runs k limit offset w =
     require_incident k w (Ok (list_rows (\<lambda>r. run_incident r = k)
       (\<lambda>r. (- run_created_at r, - int (run_id r))) limit offset (runs (work w))))"

definition api_get_run :: "uuid \<Rightarrow> world \<Rightarrow> agent_run_read response" where
  "api_get_run k w = require_run_row k w Ok"

definition api_list_run_evidence ::
    "uuid \<Rightarrow> source_type option \<Rightarrow> str option \<Rightarrow> nat \<Rightarrow> nat \<Rightarrow> world \<Rightarrow> evidence_read listing response" where
  "api_list_run_evidence k ty name limit offset w =
     require_run_row k w (\<lambda>r. Ok (evidence_page (run_incident r) (Some (run_id r)) ty name limit offset w))"

definition api_list_tool_calls :: "uuid \<Rightarrow> nat \<Rightarrow> nat \<Rightarrow> world \<Rightarrow> tool_call_read listing response" where
  "api_list_tool_calls k limit offset w =
     require_run_row k w (\<lambda>_. Ok (list_rows (\<lambda>c. call_run c = k)
       (\<lambda>c. (call_started_at c, call_id c)) limit offset (tool_calls (work w))))"

subsection \<open>Investigations\<close>

definition api_collect ::
    "pylib \<Rightarrow> 'e http \<Rightarrow> settings \<Rightarrow> uuid \<Rightarrow> collect_request option \<Rightarrow> world \<times> 'e \<Rightarrow> collect_response response \<times> world \<times> 'e" where
  "api_collect py http st k payload s = answer2 catch_collection
     (collect_incident_evidence py http st k (case payload of None \<Rightarrow> default_collect_request | Some p \<Rightarrow> p) s)"

definition default_analyze_request :: analyze_request where
  "default_analyze_request = \<lparr>an_agent_run = None, an_min_confidence = fl (6 / 10)\<rparr>"

definition api_analyze :: "pylib \<Rightarrow> uuid \<Rightarrow> analyze_request option \<Rightarrow> world \<Rightarrow> analyze_response response \<times> world" where
  "api_analyze py k payload w = answer catch_investigation
     (then_commit (analyze_incident py k (case payload of None \<Rightarrow> default_analyze_request | Some p \<Rightarrow> p) w))"

definition default_investigate_request :: investigate_request where
  "default_investigate_request = \<lparr>iv_lookback_seconds = 900, iv_step_seconds = 15, iv_log_limit = 100,
     iv_min_confidence = fl (6 / 10), iv_auto_request_approval = True\<rparr>"

definition api_investigate ::
    "pylib \<Rightarrow> 'e http \<Rightarrow> outside \<Rightarrow> settings \<Rightarrow> uuid \<Rightarrow> investigate_request option \<Rightarrow> world \<times> 'e \<Rightarrow>
     investigate_response response \<times> world \<times> 'e" where
  "api_investigate py http ext st k payload s = answer2 catch_collection
     (bind (investigate_incident py http ext st k (case payload of None \<Rightarrow> default_investigate_request | Some p \<Rightarrow> p) s)
        (\<lambda>r (w, e). (Inr r, commit w, e)))"

subsection \<open>Approvals\<close>

definition api_create_approval :: "pylib \<Rightarrow> uuid \<Rightarrow> world \<Rightarrow> approval_read response \<times> world" where
  "api_create_approval py k w = answer catch_approval (then_commit (request_approval py False k w))"

definition api_pending_approvals :: "nat \<Rightarrow> nat \<Rightarrow> world \<Rightarrow> approval_read listing" where
  "api_pending_approvals limit offset w =
     list_rows (\<lambda>a. ap_status a = Appr_PENDING) (\<lambda>a. (ap_created_at a, ap_id a)) limit offset (approvals (work w))"

definition api_get_approval :: "uuid \<Rightarrow> world \<Rightarrow> approval_read response" where
  "api_get_approval k w = found ''Approval not found'' (get_approval w k)"

definition api_incident_approval :: "uuid \<Rightarrow> world \<Rightarrow> approval_read response" where
  "api_incident_approval k w = found ''No approval found for this incident''
     (first_row (sort_key (\<lambda>a. (- ap_created_at a, - int (ap_id a)))
        (filter (\<lambda>a. \<exists>r \<in> set (runs (work w)). run_id r = ap_run a \<and> run_incident r = k) (approvals (work w)))))"

definition api_decide :: "pylib \<Rightarrow> uuid \<Rightarrow> approval_decision \<Rightarrow> world \<Rightarrow> approval_read response \<times> world" where
  "api_decide py k payload w = answer catch_approval (then_commit (decide_approval py k payload w))"

definition api_execute ::
    "pylib \<Rightarrow> 'e http \<Rightarrow> settings \<Rightarrow> uuid \<Rightarrow> world \<times> 'e \<Rightarrow> approval response \<times> world \<times> 'e" where
  "api_execute py http st k s = answer2 catch_remediation
     (bind (execute_approval py http st k s) (\<lambda>a (w, e). (Inr a, commit w, e)))"

subsection \<open>The simulator\<close>

record simulation_response =
  sm_scenario :: fault_mode
  sm_service_name :: str
  sm_alert_id :: "uuid option"
  sm_incident_id :: "uuid option"
  sm_fault_mode_applied :: bool
  sm_detail :: str

definition DEMO_SERVICE_NAME :: str where
  "DEMO_SERVICE_NAME = ''checkout-api''"

definition apply_fault_mode :: "'e http \<Rightarrow> str \<Rightarrow> fault_mode \<Rightarrow> 'e \<Rightarrow> bool \<times> 'e" where
  "apply_fault_mode http base_url mode e =
     (case http (Post (base_url @ ''/internal/fault-mode'') [(''mode'', JStr (fault_mode_value mode))]) e of
        (Inl err, e1) \<Rightarrow> (False, e1)
      | (Inr r, e1) \<Rightarrow> (is_success r, e1))"

definition record_regression :: "time \<Rightarrow> (world, unit) op" where
  "record_regression now w =
     bind (get_or_create_service DEMO_SERVICE_NAME ''staging'' w) (\<lambda>s w1.
     bind (record_deployment s ''v1.4.2'' (Some ''v1.4.1'') now (Some ''9f2c1ab'') (Some ''simulator'') w1) (\<lambda>_ w2.
       (Inr (), commit w2)))"

definition run_scenario ::
    "'e http \<Rightarrow> settings \<Rightarrow> fault_mode \<Rightarrow> (world \<times> 'e, simulation_response) op" where
  "run_scenario http st scenario = (\<lambda>(w, e).
     let (now, w1) = utc_now w; (applied, e1) = apply_fault_mode http (demo_service_url st) scenario e;
         resp = \<lparr>sm_scenario = scenario, sm_service_name = DEMO_SERVICE_NAME, sm_alert_id = None, sm_incident_id = None, sm_fault_mode_applied = applied,
           sm_detail = (if applied
             then ''Fault mode activated. Prometheus will open the incident after the alert threshold.''
             else ''The demo service did not accept the fault mode; no incident will be generated.'')\<rparr>
     in if scenario = DEPLOYMENT_REGRESSION \<and> applied
        then (case record_regression now w1 of (Inl x, w2) \<Rightarrow> (Inl x, w2, e1) | (Inr _, w2) \<Rightarrow> (Inr resp, w2, e1))
        else (Inr resp, w1, e1))"

definition api_simulate ::
    "'e http \<Rightarrow> settings \<Rightarrow> fault_mode \<Rightarrow> world \<times> 'e \<Rightarrow> simulation_response response \<times> world \<times> 'e" where
  "api_simulate http st scenario s = answer2 catch_nothing (run_scenario http st scenario s)"

definition api_recover :: "'e http \<Rightarrow> settings \<Rightarrow> 'e \<Rightarrow> simulation_response \<times> 'e" where
  "api_recover http st e =
     (let (applied, e1) = apply_fault_mode http (demo_service_url st) NORMAL e
      in (\<lparr>sm_scenario = NORMAL, sm_service_name = DEMO_SERVICE_NAME, sm_alert_id = None, sm_incident_id = None, sm_fault_mode_applied = applied,
           sm_detail = (if applied then ''Demo service returned to normal.'' else ''Demo service unreachable.'')\<rparr>, e1))"

text \<open>\<open>/health\<close> and \<open>/ready\<close>: liveness without the database, readiness with a query.\<close>

definition api_health :: "(str \<times> str) list" where
  "api_health = [(''status'', ''ok'')]"

definition api_ready :: "bool \<Rightarrow> (str \<times> str) list response" where
  "api_ready database_answers = (if database_answers then Ok [(''status'', ''ready'')]
     else Http_failure 503 ''database unavailable'')"

subsection \<open>Any requests in any order\<close>

text \<open>The requests that may write; the reading ones leave the world as it is.\<close>

datatype api_call =
    C_ingest alert_request
  | C_webhook am_webhook
  | C_collect uuid "collect_request option"
  | C_analyze uuid "analyze_request option"
  | C_investigate uuid "investigate_request option"
  | C_create_approval uuid
  | C_decide uuid approval_decision
  | C_execute uuid
  | C_simulate fault_mode

record 'e api_env =
  av_py :: pylib
  av_http :: "'e http"
  av_outside :: outside
  av_settings :: settings

fun api_effect :: "'e api_env \<Rightarrow> api_call \<Rightarrow> world \<times> 'e \<Rightarrow> world \<times> 'e" where
  "api_effect v (C_ingest p) (w, e) = (snd (api_ingest_alert (av_py v) (av_settings v) p w), e)"
| "api_effect v (C_webhook p) (w, e) = (snd (api_webhook (av_py v) (av_settings v) p w), e)"
| "api_effect v (C_collect k p) (w, e) = snd (api_collect (av_py v) (av_http v) (av_settings v) k p (w, e))"
| "api_effect v (C_analyze k p) (w, e) = (snd (api_analyze (av_py v) k p w), e)"
| "api_effect v (C_investigate k p) (w, e) =
     snd (api_investigate (av_py v) (av_http v) (av_outside v) (av_settings v) k p (w, e))"
| "api_effect v (C_create_approval k) (w, e) = (snd (api_create_approval (av_py v) k w), e)"
| "api_effect v (C_decide k p) (w, e) = (snd (api_decide (av_py v) k p w), e)"
| "api_effect v (C_execute k) (w, e) = snd (api_execute (av_py v) (av_http v) (av_settings v) k (w, e))"
| "api_effect v (C_simulate m) (w, e) = snd (api_simulate (av_http v) (av_settings v) m (w, e))"

inductive api_steps :: "'e api_env \<Rightarrow> world \<times> 'e \<Rightarrow> world \<times> 'e \<Rightarrow> bool" for v where
  no_request: "api_steps v s s"
| request: "api_steps v s (w, e) \<Longrightarrow> api_steps v s (api_effect v call (w\<lparr>db_now := t\<rparr>, e))"

end
