(* ===== verification/System.thy ===== *)
theory System
  imports Api
begin

section \<open>The system in motion\<close>

text \<open>
  What holds in every state that the requests of \<open>Api\<close> can reach, from any state that satisfies
  the invariant, whatever the callers, the clock, the HTTP peers and the LLM provider do. Each
  handler is proved to keep \<open>system_inv\<close>; the properties read off what that means for the rows
  the database has committed.
\<close>

subsection \<open>Execution\<close>

lemma executed_groups:
  assumes "approvals_inv py w" "executable w k a" "get_incident w m = Some i" "status \<in> {''succeeded'', ''failed''}"
    "inc_id r = inc_id i" "inc_service r = inc_service i" "inc_severity r = inc_severity i"
    "w1 = set_approval (executed a status err (now_of w)) (snd (utc_now (set_incident (i\<lparr>inc_status := EXECUTING\<rparr>) w)))"
  shows "same_groups (work w) (work (set_incident r w1))"
proof -
  let ?x = "i\<lparr>inc_status := EXECUTING\<rparr>" let ?wx = "set_incident ?x w"
  note ok = approvals_inv_parts(1) [OF assms(1)]
  note g = get_incident_service [OF assms(3) ok]
  have ix: "approvals_inv py ?wx" using approvals_inv_set_incident [OF assms(1), of ?x] g by simp
  have "approvals_inv py w1" unfolding assms(8)
    by (rule executed_inv [OF ix _ assms(4), where k = k])
      (use assms(2) in \<open>auto simp: executable_def set_incident_def with_work_def now_of_def\<close>)
  then have ok1: "world_ok w1" by (rule approvals_inv_parts(1))
  have s1: "same_groups (work w) (work w1)"
    using same_groups_status(2) [OF ok assms(3) refl, of EXECUTING]
    by (simp add: assms(8) same_groups_def write_defs)
  have g1: "get_incident w1 (inc_id r) = Some ?x"
    using assms(3,5) row_get_in_keys [OF assms(3)] row_get_SomeD [OF assms(3)]
    by (simp add: assms(8) write_defs row_get_row_set)
  have "same_groups (work w1) (work (set_incident r w1))"
    by (rule same_groups_set_incident [OF ok1 g1]) (simp_all add: assms(6,7))
  then show ?thesis by (rule same_groups_trans [OF s1])
qed

lemma execute_approval_frame:
  assumes "execute_approval py http st k (w, e) = (out, w', e')" "approvals_inv py w"
  shows "same_groups (work w) (work w') \<and> runs (work w') = runs (work w) \<and> now_of w \<le> now_of w' \<and> saved w' = saved w"
proof (cases rule: execute_approval_cases [OF assms, case_names refused crashed failed succeeded])
  case (refused x)
  then show ?thesis by simp
next
  case (crashed a run i x)
  then show ?thesis using same_groups_status(2) [OF approvals_inv_parts(1) [OF assms(2)] crashed(3) refl]
    by (simp add: set_incident_def with_work_def now_of_def)
next
  case (failed a run i msg)
  have "same_groups (work w) (work w')" unfolding failed(6)
    by (rule executed_groups [OF assms(2) failed(1,3)]) simp_all
  moreover have "now_of w \<le> now_of w'"
    using utc_now_tick(1,2) [of w] approvals_inv_parts(1) [OF assms(2)]
    by (simp add: failed(6) write_defs now_of_def world_ok_def monoD)
  ultimately show ?thesis by (simp add: failed(6) write_defs)
next
  case (succeeded a run i md)
  let ?w2 = "set_incident (i\<lparr>inc_status := RESOLVED, inc_resolved_at := Some (now_of w)\<rparr>)
    (set_approval (executed a ''succeeded'' None (now_of w)) (snd (utc_now (set_incident (i\<lparr>inc_status := EXECUTING\<rparr>) w))))"
  have "same_groups (work w) (work ?w2)"
    by (rule executed_groups [OF assms(2) succeeded(1,3)]) simp_all
  then have "same_groups (work w) (work w')"
    unfolding succeeded(6) by (simp add: same_groups_def add_event_def new_uuid_def with_work_def)
  moreover have "now_of w \<le> now_of w'"
    using approvals_inv_parts(1) [OF assms(2)]
    by (simp add: succeeded(6) write_defs now_of_def world_ok_def monoD)
  ultimately show ?thesis by (simp add: succeeded(6) write_defs)
qed

lemma system_inv_execute:
  assumes "execute_approval py http st k (w, e) = (out, w', e')" "system_inv py w"
  shows "system_inv py w'"
proof -
  note f = execute_approval_frame [OF assms(1) system_invD(1) [OF assms(2)]]
  have "approvals_inv py w'" using execute_approval_inv [OF system_invD(1) [OF assms(2)], of http st k e] by (simp add: assms(1))
  then show ?thesis
    by (rule system_inv_frame [OF assms(2)])
      (use f assms(2) runs_past_mono in \<open>auto simp: system_inv_def\<close>)
qed

subsection \<open>Webhooks and the simulator\<close>

lemma system_inv_webhook_loop:
  "system_inv py w \<Longrightarrow> system_inv py (snd (webhook_loop py ws payload as c w))"
proof (induction "as" arbitrary: c w)
  case (Cons a as)
  show ?case
  proof (cases "to_ingest_request py a")
    case (Inl x)
    then show ?thesis using Cons by simp
  next
    case (Inr p)
    obtain out w1 where i: "ingest_alert py p ws w = (out, w1)" by fastforce
    have "system_inv py w1" using system_inv_ingest [OF Cons.prems, of py p ws] by (simp add: i)
    then show ?thesis using Cons Inr i by (cases out) simp_all
  qed
qed simp

lemma system_inv_webhook: "system_inv py w \<Longrightarrow> system_inv py (snd (receive_webhook py st payload w))"
  unfolding receive_webhook_def by (rule bind_keeps) (simp_all add: system_inv_webhook_loop)

text \<open>Services and deployments are outside the approvals, the runs and the grouping.\<close>

lemma system_inv_catalogue:
  assumes "system_inv py w" "world_ok w'" "same_investigations (work w) (work w')" "same_groups (work w) (work w')"
    "saved w' = saved w" "now_of w' = now_of w"
  shows "system_inv py w'"
proof -
  have "records_ok w'"
    using system_invD(2) [OF assms(1)] assms(2,5) trail_ok_same [OF assms(3)] by (simp add: records_ok_def)
  then have "approvals_inv py w'"
    by (rule approvals_inv_investigations [OF system_invD(1) [OF assms(1)]]) (use assms in auto)
  then show ?thesis
    by (rule system_inv_frame [OF assms(1)])
      (use assms in \<open>auto simp: same_investigations_def system_inv_def\<close>)
qed

lemma system_inv_deployment:
  assumes "system_inv py w" "get_service w (sv_id s) = Some s"
  shows "system_inv py (snd (record_deployment s v p t c d w))"
proof (cases "64 < length v \<or> \<not> opt_ok (\<lambda>s. length s \<le> 64) p \<or> \<not> opt_ok (\<lambda>s. length s \<le> 64) c \<or>
    \<not> opt_ok (\<lambda>s. length s \<le> 128) d")
  case True
  then show ?thesis using system_inv_rollback [OF assms(1)] by (simp add: record_deployment_def)
next
  case False
  let ?mk = "\<lambda>u. \<lparr>dp_id = u, dp_service = sv_id s, dp_version = v, dp_previous_version = p, dp_commit_sha = c,
    dp_deployed_by = d, dp_status = Dep_SUCCEEDED, dp_deployed_at = t, dp_metadata = []\<rparr>"
  let ?w1 = "snd (add_deployment ?mk w)" let ?w2 = "set_service (s\<lparr>sv_current_version := Some v\<rparr>) ?w1"
  have w: "snd (record_deployment s v p t c d w) = ?w2"
    using False by (simp add: record_deployment_def add_deployment_def Let_def split: prod.split)
  have k: "sv_id s \<in> keys sv_id (services (work w))" using assms(2) by (rule row_get_in_keys)
  have w1: "world_ok ?w1" using system_invD(3) [OF assms(1)] k by (intro add_deployment_ok) simp_all
  have "get_service ?w1 (sv_id s) = Some s" using assms(2) by (simp add: write_defs)
  then have "world_ok ?w2" by (intro set_service_ok [OF w1, where q = s]) simp_all
  then have "system_inv py ?w2"
    by (rule system_inv_catalogue [OF assms(1)])
      (simp_all add: write_defs same_investigations_def same_groups_def now_of_def)
  then show ?thesis by (simp add: w)
qed

lemma system_inv_regression: "system_inv py w \<Longrightarrow> system_inv py (snd (record_regression now w))"
  unfolding record_regression_def
proof (rule bind_keeps)
  assume i: "system_inv py w"
  show "system_inv py (snd (get_or_create_service DEMO_SERVICE_NAME ''staging'' w))" by (rule system_inv_service [OF i])
  fix s w1 assume g: "get_or_create_service DEMO_SERVICE_NAME ''staging'' w = (Inr s, w1)" and i1: "system_inv py w1"
  note e = get_or_create_service_effect [OF g system_invD(3) [OF i]]
  have s: "get_service w1 (sv_id s) = Some s"
    using system_invD(4) [OF i1] e(2) by (intro row_get_unique) (simp_all add: db_ok_def services_ok_def)
  show "system_inv py (snd (bind (record_deployment s ''v1.4.2'' (Some ''v1.4.1'') now (Some ''9f2c1ab'')
      (Some ''simulator'') w1) (\<lambda>_ w2. (Inr (), commit w2))))"
    by (rule bind_keeps, rule system_inv_deployment [OF i1 s], simp add: system_inv_commit)
qed

subsection \<open>Every request keeps the invariant\<close>

lemma close_session: "system_inv py w \<Longrightarrow> system_inv py (close_session w) \<and> work (close_session w) = saved (close_session w)"
  using system_inv_rollback by (simp add: close_session_def rollback_def)

text \<open>Whatever the handler answers, what is left is its last state after the session is closed.\<close>

lemma snd_answer: "snd (answer h r) = close_session (snd r)"
  by (simp add: answer_def split: prod.split sum.split option.split)

lemma snd_answer2: "snd (answer2 h r) = (close_session (fst (snd r)), snd (snd r))"
proof -
  obtain out w e where r: "r = (out, w, e)" by (metis prod.collapse)
  show ?thesis using snd_answer [of h "(out, w)"] by (auto simp: r answer2_def split: prod.splits)
qed

lemma snd_bind_pure: "snd (bind r (\<lambda>x w. (Inr (f x), w))) = snd r"
  by (simp add: bind_def split: prod.split sum.split)

lemma system_inv_then_commit: "system_inv py (snd r) \<Longrightarrow> system_inv py (snd (then_commit r))"
  unfolding then_commit_def by (rule bind_keeps) (simp_all add: system_inv_commit)

lemma system_inv_analyze: "system_inv py w \<Longrightarrow> system_inv py (snd (analyze_incident py k p w))"
  using analyze_outcome [of py w k p] by auto

lemma system_inv_collect: "system_inv py w \<Longrightarrow> system_inv py (fst (snd (collect_incident_evidence py http st k p (w, e))))"
  using collection_outcome [of py http st k p w e] by (metis prod.collapse)

text \<open>The two handlers whose service also talks HTTP commit in the same way.\<close>

definition commit_last :: "(exn + 'a) \<times> world \<times> 'e \<Rightarrow> (exn + 'a) \<times> world \<times> 'e" where
  "commit_last r = bind r (\<lambda>x (w, e). (Inr x, commit w, e))"

lemma system_inv_commit_last: "system_inv py (fst (snd r)) \<Longrightarrow> system_inv py (fst (snd (commit_last r)))"
proof -
  assume i: "system_inv py (fst (snd r))"
  obtain out w e where r: "r = (out, w, e)" by (metis prod.collapse)
  show ?thesis using i by (cases out) (simp_all add: r commit_last_def system_inv_commit)
qed

lemma commit_last_handlers:
  "api_investigate py http ext st k p s = answer2 catch_collection (commit_last (investigate_incident py http ext st k
     (case p of None \<Rightarrow> default_investigate_request | Some q \<Rightarrow> q) s))"
  "api_execute py http st k s = answer2 catch_remediation (commit_last (execute_approval py http st k s))"
  by (simp_all add: api_investigate_def api_execute_def commit_last_def)

lemma system_inv_investigate:
  assumes "system_inv py w" "pylib_ok py"
  shows "system_inv py (fst (snd (investigate_incident py http ext st k p (w, e))))"
  using investigate_incident_outcome [OF _ assms, of http ext st k p e] by (metis prod.collapse)

lemma system_inv_scenario: "system_inv py w \<Longrightarrow> system_inv py (fst (snd (run_scenario http st m (w, e))))"
proof -
  assume i: "system_inv py w"
  obtain t w1 where u: "utc_now w = (t, w1)" by fastforce
  have i1: "system_inv py w1" using system_inv_utc_now [OF u i] by simp
  obtain ok e1 where f: "apply_fault_mode http (demo_service_url st) m e = (ok, e1)" by fastforce
  obtain out w2 where r: "record_regression t w1 = (out, w2)" by fastforce
  have "system_inv py w2" using system_inv_regression [OF i1, of t] by (simp add: r)
  then show ?thesis using i1 by (cases out) (simp_all add: run_scenario_def u f r Let_def)
qed

definition served :: "pylib \<Rightarrow> world \<Rightarrow> bool" where
  "served py w \<longleftrightarrow> system_inv py w \<and> work w = saved w"

lemma served_close: "system_inv py w \<Longrightarrow> served py (close_session w)"
  using close_session by (simp add: served_def)

lemma api_effect_served:
  assumes "system_inv (av_py v) w" "pylib_ok (av_py v)"
  shows "served (av_py v) (fst (api_effect v call (w, e)))"
proof -
  note i = assms(1) and c = served_close
  show ?thesis
  proof (cases call)
    case (C_ingest p)
    then show ?thesis by (simp add: api_ingest_alert_def snd_answer c snd_bind_pure system_inv_ingest [OF i])
  next
    case (C_webhook p)
    then show ?thesis by (simp add: api_webhook_def snd_answer c system_inv_webhook [OF i])
  next
    case (C_collect k p)
    then show ?thesis by (simp add: api_collect_def snd_answer2 c system_inv_collect [OF i])
  next
    case (C_analyze k p)
    then show ?thesis by (simp add: api_analyze_def snd_answer c system_inv_then_commit system_inv_analyze [OF i])
  next
    case (C_investigate k p)
    then show ?thesis
      by (simp add: commit_last_handlers snd_answer2 c system_inv_commit_last system_inv_investigate [OF assms])
  next
    case (C_create_approval k)
    then show ?thesis by (simp add: api_create_approval_def snd_answer c system_inv_then_commit system_inv_request [OF i])
  next
    case (C_decide k p)
    then show ?thesis by (simp add: api_decide_def snd_answer c system_inv_then_commit system_inv_decide [OF i])
  next
    case (C_execute k)
    obtain out w' e' where x: "execute_approval (av_py v) (av_http v) (av_settings v) k (w, e) = (out, w', e')"
      by (metis prod.collapse)
    show ?thesis using C_execute system_inv_execute [OF x i]
      by (simp add: commit_last_handlers snd_answer2 c system_inv_commit_last x)
  next
    case (C_simulate m)
    then show ?thesis by (simp add: api_simulate_def snd_answer2 c system_inv_scenario [OF i])
  qed
qed

lemma system_inv_db_now: "system_inv py w \<Longrightarrow> system_inv py (w\<lparr>db_now := t\<rparr>)"
  by (simp add: system_inv_def approvals_inv_def records_ok_def world_ok_def ids_ok_def now_of_def)

lemma api_steps_served:
  assumes "api_steps v s s'" "served (av_py v) (fst s)" "pylib_ok (av_py v)"
  shows "served (av_py v) (fst s')"
  using assms
proof (induction rule: api_steps.induct)
  case (request s w e call t)
  then have "system_inv (av_py v) w" by (simp add: served_def)
  then show ?case using request.prems(2) by (intro api_effect_served system_inv_db_now)
qed

subsection \<open>Concrete systems\<close>

definition demo_api :: "demo_state api_env" where
  "demo_api = \<lparr>av_py = demo_pylib, av_http = demo_client, av_outside = demo_outside, av_settings = default_settings\<rparr>"

lemmas system_inv_records =
  system_inv_create_run [OF surjective_pairing] system_inv_tool_call [OF surjective_pairing]
  system_inv_evidence [OF surjective_pairing] system_inv_hypothesis [OF surjective_pairing]
  system_inv_recommendation [OF surjective_pairing]

lemma demo_approved_served: "served demo_pylib demo_approved"
proof -
  have "system_inv demo_pylib demo_approved"
    unfolding demo_approved_def demo_requested_def demo_recommended_def Let_def
    by (intro system_inv_commit system_inv_decide system_inv_request system_inv_records demo_creates_ok
      system_inv_ingest start_system_inv)
  then show ?thesis by (simp add: served_def demo_approved_def commit_def)
qed

lemma one_request: "api_steps v (w, e) (api_effect v call (w\<lparr>db_now := t\<rparr>, e))"
  by (rule request) (rule no_request)

definition demo_executed :: "world \<times> demo_state" where
  "demo_executed = api_effect demo_api (C_execute 11) (demo_approved\<lparr>db_now := 7\<rparr>, demo_faulty)"

lemma demo_executed_steps: "api_steps demo_api (demo_approved, demo_faulty) (fst demo_executed, snd demo_executed)"
  unfolding demo_executed_def prod.collapse by (rule one_request)

lemma demo_executed_rows:
  "map ap_executed_at (approvals (saved (fst demo_executed))) \<noteq> [None] \<and> length (approvals (saved (fst demo_executed))) = 1"
  by code_simp

lemma demo_executed_alerts: "alerts (saved (fst demo_executed)) \<noteq> []"
  by code_simp

subsection \<open>The properties of every reachable state\<close>

text \<open>C2: Any requests in any order keep the invariant of the system: starting from a state that satisfies it and has nothing uncommitted, after each request the database satisfies the schema's constraints, the trail of every investigation, the rules of the approvals and the grouping of the alerts, no run started in the future, and nothing is left uncommitted.\<close>

theorem api_invariant:
  assumes "api_steps v (w0, e0) (w, e)" "pylib_ok (av_py v)" "system_inv (av_py v) w0" "work w0 = saved w0"
  shows "system_inv (av_py v) w \<and> work w = saved w"
  using api_steps_served [OF assms(1)] assms(2-) by (simp add: served_def)

theorem api_invariant_witness:
  "system_inv demo_pylib (fst demo_executed) \<and> work (fst demo_executed) = saved (fst demo_executed)"
  using api_invariant [OF demo_executed_steps] demo_approved_served demo_pylib_ok
  by (simp add: served_def demo_api_def)

text \<open>C1: No action runs without a human: in every reachable state, an approval that was executed had been approved by a named person before, within its deadline, and its action, parameters and run are those of a stored recommendation, are the ones its hash covers, and are the rollback, the one action that is implemented.\<close>

theorem executed_was_approved:
  assumes "api_steps v (w0, e0) (w, e)" "pylib_ok (av_py v)" "system_inv (av_py v) w0" "work w0 = saved w0"
    and "a \<in> set (approvals (saved w))" "ap_executed_at a = Some x"
  shows "ap_status a = Appr_APPROVED \<and> ap_action_type a = ''simulated_rollback'' \<and>
    (\<exists>t who. ap_decided_at a = Some t \<and> ap_decided_by a = Some who \<and> t \<le> x \<and> t \<le> as_utc (ap_expires_at a)) \<and>
    ap_action_hash a = action_digest (av_py v) (ap_action_type a) (ap_parameters a) (ap_run a) \<and>
    (\<exists>r \<in> set (recommendations (saved w)). rec_id r = ap_recommendation a \<and> rec_run r = ap_run a \<and>
       rec_action_type r = ap_action_type a \<and> rec_parameters r = ap_parameters a)"
proof -
  have "approvals_inv (av_py v) w"
    using api_steps_served [OF assms(1)] assms(2-4) by (simp add: served_def system_inv_def)
  then have "approval_good (av_py v) (now_of w) (saved w) a" using assms(5) by (simp add: approvals_inv_def)
  then show ?thesis using assms(6) by (auto simp: approval_good_def split: option.splits)
qed

theorem executed_was_approved_witness:
  "\<exists>a x t who. a \<in> set (approvals (saved (fst demo_executed))) \<and> ap_executed_at a = Some x \<and>
     ap_decided_at a = Some t \<and> ap_decided_by a = Some who \<and> t \<le> x"
proof -
  obtain a x where a: "a \<in> set (approvals (saved (fst demo_executed)))" "ap_executed_at a = Some x"
    using demo_executed_rows by (cases "approvals (saved (fst demo_executed))") auto
  then show ?thesis
    using executed_was_approved [OF demo_executed_steps _ _ _ a] demo_approved_served demo_pylib_ok
    by (fastforce simp: served_def demo_api_def)
qed

text \<open>C4: Every approval has an audit trail: in every reachable state a stored approval belongs to an allow-listed recommendation, whose hypothesis has a confidence between 0 and 1 and cites evidence of the same run and of that run's incident; evidence that came from a tool came from a successful call of that run.\<close>

theorem approval_audit_trail:
  assumes "api_steps v (w0, e0) (w, e)" "pylib_ok (av_py v)" "system_inv (av_py v) w0" "work w0 = saved w0"
    and "a \<in> set (approvals (saved w))"
  shows "\<exists>r h ev. r \<in> set (recommendations (saved w)) \<and> rec_id r = ap_recommendation a \<and> rec_run r = ap_run a \<and>
    rec_action_type r \<in> set ALLOWED_ACTIONS \<and> h \<in> set (hypotheses (saved w)) \<and> hyp_id h = rec_hypothesis r \<and>
    hyp_run h = ap_run a \<and> in_unit (hyp_confidence h) \<and> ev \<in> set (evidences (saved w)) \<and> evd_run ev = ap_run a \<and>
    (evd_id ev, hyp_id h) \<in> keys (\<lambda>c. (he_evidence c, he_hypothesis c)) (citations (saved w)) \<and>
    (ap_run a, evd_incident ev) \<in> run_incidents (saved w) \<and>
    (\<forall>k. evd_tool_call ev = Some k \<longrightarrow>
       (\<exists>c \<in> set (tool_calls (saved w)). call_id c = k \<and> call_run c = ap_run a \<and> call_status c = Tool_SUCCEEDED))"
proof -
  have s: "system_inv (av_py v) w" "work w = saved w"
    using api_steps_served [OF assms(1)] assms(2-4) by (simp_all add: served_def)
  note d = system_invD [OF s(1)]
  obtain r where r: "r \<in> set (recommendations (saved w))" "rec_id r = ap_recommendation a" "rec_run r = ap_run a"
    "rec_action_type r = ap_action_type a"
    using d(1) assms(5) by (auto simp: approvals_inv_def approval_good_def)
  moreover have "ap_action_type a \<in> set ALLOWED_ACTIONS"
    using d(4) assms(5) by (simp add: s(2) db_ok_def approvals_ok_def)
  moreover obtain h ev where "provenance (saved w) r h ev"
    using provenance_exists [of "saved w" r] d(4,6) r(1) by (auto simp: s(2))
  ultimately show ?thesis unfolding provenance_def by (intro exI [of _ r] exI [of _ h] exI [of _ ev]) auto
qed

theorem approval_audit_trail_witness:
  "\<exists>a r h. a \<in> set (approvals (saved (fst demo_executed))) \<and> rec_id r = ap_recommendation a \<and>
     r \<in> set (recommendations (saved (fst demo_executed))) \<and> h \<in> set (hypotheses (saved (fst demo_executed))) \<and>
     hyp_id h = rec_hypothesis r"
proof -
  obtain a where a: "a \<in> set (approvals (saved (fst demo_executed)))"
    using demo_executed_rows by (cases "approvals (saved (fst demo_executed))") auto
  show ?thesis
    using approval_audit_trail [OF demo_executed_steps _ _ _ a] a demo_approved_served demo_pylib_ok
    by (fastforce simp: served_def demo_api_def)
qed

text \<open>C5: In every reachable state each alert belongs to exactly one incident, all alerts of an incident have the incident's service and one type, and the severity of the incident is the greatest severity among its alerts.\<close>

theorem reachable_grouping:
  assumes "api_steps v (w0, e0) (w, e)" "pylib_ok (av_py v)" "system_inv (av_py v) w0" "work w0 = saved w0"
  shows "(\<forall>a \<in> set (alerts (saved w)). \<exists>!i. linked (saved w) i a) \<and>
    (\<forall>i a b. linked (saved w) i a \<longrightarrow> linked (saved w) i b \<longrightarrow> al_service a = inc_service i \<and> al_type a = al_type b) \<and>
    (\<forall>i \<in> set (incidents (saved w)). inc_severity i = Max (al_severity ` {a. linked (saved w) i a}))"
proof -
  have s: "system_inv (av_py v) w" "work w = saved w"
    using api_steps_served [OF assms(1)] assms(2-4) by (simp_all add: served_def)
  have g: "grouping_ok (saved w)" using s(1) by (simp add: system_inv_def)
  have d: "db_ok (saved w)" using system_invD(4) [OF s(1)] by (simp add: s(2))
  have "\<exists>!i. linked (saved w) i a" if a: "a \<in> set (alerts (saved w))" for a
  proof -
    have "al_id a \<in> keys ia_alert (incident_alerts (saved w))" using g a by (simp add: grouping_ok_def keys_def)
    then obtain l where l: "l \<in> set (incident_alerts (saved w))" "ia_alert l = al_id a" by (auto simp: keys_def)
    then have "ia_incident l \<in> keys inc_id (incidents (saved w))" using d by (auto simp: db_ok_def incident_alerts_ok_def)
    then obtain i where "linked (saved w) i a" using l a by (force simp: keys_def linked_def)
    then show ?thesis using linked_alert_unique [OF g d] by blast
  qed
  moreover have "inc_severity i = Max (al_severity ` {a. linked (saved w) i a})" if i: "i \<in> set (incidents (saved w))" for i
  proof -
    let ?S = "al_severity ` {a. linked (saved w) i a}"
    have "finite {a. linked (saved w) i a}" by (rule finite_subset [of _ "set (alerts (saved w))"]) (auto simp: linked_def)
    moreover have "\<forall>x \<in> ?S. x \<le> inc_severity i" using g by (auto simp: grouping_ok_def)
    moreover have "inc_severity i \<in> ?S" using g i by (force simp: grouping_ok_def)
    ultimately show ?thesis by (intro Max_eqI [symmetric]) auto
  qed
  ultimately show ?thesis using g unfolding grouping_ok_def by blast
qed

theorem reachable_grouping_witness:
  "\<exists>a i. a \<in> set (alerts (saved (fst demo_executed))) \<and> linked (saved (fst demo_executed)) i a \<and>
     inc_severity i = Max (al_severity ` {a. linked (saved (fst demo_executed)) i a})"
proof -
  obtain a where a: "a \<in> set (alerts (saved (fst demo_executed)))"
    using demo_executed_alerts by (cases "alerts (saved (fst demo_executed))") auto
  have g: "pylib_ok (av_py demo_api)" "system_inv (av_py demo_api) demo_approved" "work demo_approved = saved demo_approved"
    using demo_approved_served demo_pylib_ok by (simp_all add: served_def demo_api_def)
  note r = reachable_grouping [OF demo_executed_steps g]
  obtain i where i: "linked (saved (fst demo_executed)) i a" using r a by (elim conjE) blast
  then have "i \<in> set (incidents (saved (fst demo_executed)))" by (simp add: linked_def)
  then have "inc_severity i = Max (al_severity ` {a. linked (saved (fst demo_executed)) i a})" using r by (elim conjE) blast
  then show ?thesis using a i by (intro exI [of _ a] exI [of _ i] conjI)
qed

subsection \<open>An execution that fails\<close>

text \<open>C33: A failed execution is forgotten: when the recovery check of an approved action fails, the request answers 400 and the failure and the status that the service wrote are never committed; the same approval can be executed again, any number of times, and succeeds as soon as the demo service answers that it is healthy.\<close>

theorem failed_execution_forgotten:
  assumes "approvals_inv py w" "work w = saved w" "executable w k a"
    and "probe_demo_service py http st e = (Caught msg, e1)"
  shows "\<exists>w1. api_execute py http st k (w, e) =
      (Http_failure 400 ''Rollback completed without a healthy recovery verification'', w1, e1) \<and>
    work w1 = work w \<and> saved w1 = saved w \<and> executable w1 k a \<and>
    (\<forall>http' st' s s2. probe_demo_service py http' st' s = (Healthy, s2) \<longrightarrow>
       (\<exists>b w2. api_execute py http' st' k (w1, s) = (Ok b, w2, s2)))"
proof -
  obtain out w' e' where x: "execute_approval py http st k (w, e) = (out, w', e')" by (metis prod.collapse)
  have f: "out = Inl (RemediationError ''Rollback completed without a healthy recovery verification'')" "e' = e1"
    using assms(3,4) by (cases rule: execute_approval_cases [OF x assms(1)]; auto)+
  have sv: "saved w' = saved w" using execute_approval_evolve [OF assms(1) x] by simp
  let ?w1 = "close_session w'"
  have a1: "api_execute py http st k (w, e) =
      (Http_failure 400 ''Rollback completed without a healthy recovery verification'', ?w1, e1)"
    by (simp add: commit_last_handlers x commit_last_def answer2_def answer_def f)
  have w1: "work ?w1 = work w" "saved ?w1 = saved w" using sv assms(2) by (simp_all add: close_session_def rollback_def)
  have i1: "approvals_inv py ?w1"
    using execute_approval_inv [OF assms(1), of http st k e]
    by (simp add: x close_session_def approvals_inv_rollback)
  have ex: "executable ?w1 k a" using assms(3) by (simp add: executable_def w1)
  have "\<exists>b w2. api_execute py h t k (?w1, s) = (Ok b, w2, s2)"
    if p: "probe_demo_service py h t s = (Healthy, s2)" for h :: "'b http" and t s s2
  proof -
    obtain o2 w2 e2 where y: "execute_approval py h t k (?w1, s) = (o2, w2, e2)" by (metis prod.collapse)
    have "(\<exists>b. o2 = Inr b) \<and> e2 = s2"
      using ex p by (cases rule: execute_approval_cases [OF y i1]; auto)
    then show ?thesis by (auto simp: commit_last_handlers y commit_last_def answer2_def answer_def)
  qed
  then show ?thesis using a1 w1 ex by blast
qed

theorem failed_execution_forgotten_witness:
  "\<exists>w1. api_execute demo_pylib scripted default_settings 11 (demo_approved, []) =
      (Http_failure 400 ''Rollback completed without a healthy recovery verification'', w1, []) \<and>
    saved w1 = saved demo_approved \<and> (\<exists>a. executable w1 11 a)"
proof -
  obtain a where a: "executable demo_approved 11 a" using demo_approved_executable ..
  have "probe_demo_service demo_pylib scripted default_settings [] = (Caught (transport_text (Transport_failed ''no reply'')), [])"
    by (simp add: probe_demo_service_def)
  from failed_execution_forgotten [OF demo_approvals_inv(2) _ a this] demo_approved_served
  show ?thesis by (auto simp: served_def)
qed

subsection \<open>Pages\<close>

text \<open>Reading the evidence of an incident or a run page by page gives every matching row once and in the order of collection: the first n pages together are the first n times limit rows of the sorted result, and the total of every page is the number of rows that match.\<close>

theorem evidence_pages_cover:
  "concat (map (\<lambda>k. li_items (evidence_page i run ty name l (k * l) w)) [0..<n]) =
     take (n * l) (sort_key (\<lambda>e. (evd_collected_at e, evd_id e)) (filter (\<lambda>e. evd_incident e = i \<and>
       matches run (evd_run e) \<and> matches ty (evd_source_type e) \<and> matches name (evd_source_name e)) (evidences (work w)))) \<and>
   li_total (evidence_page i run ty name l o' w) = card {k. k < length (evidences (work w)) \<and>
     (let e = evidences (work w) ! k in evd_incident e = i \<and> matches run (evd_run e) \<and>
        matches ty (evd_source_type e) \<and> matches name (evd_source_name e))}"
proof -
  have "concat (map (\<lambda>k. page l (k * l) xs) [0..<n]) = take (n * l) xs" for xs :: "evidence list"
    by (induction n) (simp_all add: page_def add.commute [of l] take_add)
  then show ?thesis by (simp add: evidence_page_def list_rows_def length_filter_conv_card Let_def)
qed

end
