(* ===== verification/Ddl.thy ===== *)
theory Ddl
  imports Prelude
begin

section \<open>Database schemas and the statements that change them\<close>

text \<open>
  The \<open>alembic\<close> operations that the migrations use, over schemas as data, with the errors that
  PostgreSQL documents: a relation (a table, an index, or the index behind a key) has a name of its
  own, a foreign key refers to columns that are a key of an existing table, an index is over
  existing columns, and nothing is dropped that a foreign key still needs. None is an error.
  \<open>schema_ok\<close> is what a schema satisfies; every statement keeps it, whatever the statement.
\<close>

datatype sql_type = Sql_uuid | Sql_string nat | Sql_text | Sql_datetime | Sql_json | Sql_integer | Sql_float | Sql_boolean

record column =
  cl_name :: str
  cl_type :: sql_type
  cl_nullable :: bool
  cl_default_now :: bool

text \<open>The conditions of the check constraints, by what they say of the named columns.\<close>

datatype check =
    One_of str "str list"
  | Not_negative "str list"
  | Within_unit str
  | Is_true str
  | After str str
  | Unset_or_after str str
  | Range_or_unset str str

datatype constr =
    Primary_key str "str list"
  | Unique_key str "str list"
  | Check_that str check
  | Foreign_key str "str list" str "str list"

record table =
  tb_name :: str
  tb_columns :: "column list"
  tb_constraints :: "constr list"
  tb_indexes :: "(str \<times> str list \<times> bool) list"

type_synonym schema = "table list"

datatype ddl =
    Create_table str "column list" "constr list"
  | Create_index str str "str list" bool
  | Drop_index str str
  | Drop_table str

fun check_columns :: "check \<Rightarrow> str list" where
  "check_columns (One_of c _) = [c]"
| "check_columns (Not_negative cs) = cs"
| "check_columns (Within_unit c) = [c]"
| "check_columns (Is_true c) = [c]"
| "check_columns (After c d) = [c, d]"
| "check_columns (Unset_or_after c d) = [c, d]"
| "check_columns (Range_or_unset c d) = [c, d]"

definition column_names :: "table \<Rightarrow> str list" where
  "column_names t = map cl_name (tb_columns t)"

text \<open>The columns a foreign key may refer to, and the relations a table adds to the schema.\<close>

fun key_of :: "constr \<Rightarrow> str list list" where
  "key_of (Primary_key _ cs) = [cs]"
| "key_of (Unique_key _ cs) = [cs]"
| "key_of _ = []"

fun key_name :: "constr \<Rightarrow> str list" where
  "key_name (Primary_key n _) = [n]"
| "key_name (Unique_key n _) = [n]"
| "key_name _ = []"

definition table_keys :: "table \<Rightarrow> str list list" where
  "table_keys t = concat (map key_of (tb_constraints t)) @ map (fst \<circ> snd) (filter (snd \<circ> snd) (tb_indexes t))"

definition relations_of :: "table \<Rightarrow> str list" where
  "relations_of t = tb_name t # concat (map key_name (tb_constraints t)) @ map fst (tb_indexes t)"

definition relations :: "schema \<Rightarrow> str list" where
  "relations s = concat (map relations_of s)"

definition find_table :: "str \<Rightarrow> schema \<Rightarrow> table option" where
  "find_table n s = List.find (\<lambda>t. tb_name t = n) s"

fun constr_ok :: "schema \<Rightarrow> str list \<Rightarrow> constr \<Rightarrow> bool" where
  "constr_ok s own (Primary_key _ cs) = list_all (\<lambda>c. c \<in> set own) cs"
| "constr_ok s own (Unique_key _ cs) = list_all (\<lambda>c. c \<in> set own) cs"
| "constr_ok s own (Check_that _ k) = list_all (\<lambda>c. c \<in> set own) (check_columns k)"
| "constr_ok s own (Foreign_key _ cs r refs) =
     (list_all (\<lambda>c. c \<in> set own) cs \<and> length cs = length refs \<and>
      (case find_table r s of None \<Rightarrow> False | Some u \<Rightarrow> refs \<in> set (table_keys u)))"

definition constrs_ok :: "schema \<Rightarrow> table \<Rightarrow> bool" where
  "constrs_ok s t \<longleftrightarrow> list_all (constr_ok s (column_names t)) (tb_constraints t)"

definition indexes_ok :: "table \<Rightarrow> bool" where
  "indexes_ok t \<longleftrightarrow> list_all (\<lambda>(_, cs, _). list_all (\<lambda>c. c \<in> set (column_names t)) cs) (tb_indexes t)"

definition schema_ok :: "schema \<Rightarrow> bool" where
  "schema_ok s \<longleftrightarrow> distinct (relations s) \<and>
     list_all (\<lambda>t. distinct (column_names t) \<and> constrs_ok s t \<and> indexes_ok t) s"

definition replace_table :: "table \<Rightarrow> schema \<Rightarrow> schema" where
  "replace_table t s = map (\<lambda>q. if tb_name q = tb_name t then t else q) s"

text \<open>A drop is refused while a foreign key of another table needs what it removes.\<close>

fun refers_to :: "str \<Rightarrow> constr \<Rightarrow> bool" where
  "refers_to n (Foreign_key _ _ r _) = (r = n)"
| "refers_to n _ = False"

definition needed_by :: "str \<Rightarrow> table \<Rightarrow> bool" where
  "needed_by n t \<longleftrightarrow> tb_name t \<noteq> n \<and> list_ex (refers_to n) (tb_constraints t)"

fun run_ddl :: "ddl \<Rightarrow> schema \<Rightarrow> schema option" where
  "run_ddl (Create_table n cols cons) s =
     (let t = \<lparr>tb_name = n, tb_columns = cols, tb_constraints = cons, tb_indexes = []\<rparr>
      in if distinct (relations_of t) \<and> list_all (\<lambda>x. x \<notin> set (relations s)) (relations_of t) \<and>
            distinct (column_names t) \<and> constrs_ok (s @ [t]) t
         then Some (s @ [t]) else None)"
| "run_ddl (Create_index i n cs u) s =
     (case find_table n s of
        None \<Rightarrow> None
      | Some t \<Rightarrow> if i \<notin> set (relations s) \<and> list_all (\<lambda>c. c \<in> set (column_names t)) cs
          then Some (replace_table (t\<lparr>tb_indexes := tb_indexes t @ [(i, cs, u)]\<rparr>) s) else None)"
| "run_ddl (Drop_index i n) s =
     (case find_table n s of
        None \<Rightarrow> None
      | Some t \<Rightarrow>
          let t' = t\<lparr>tb_indexes := filter (\<lambda>x. fst x \<noteq> i) (tb_indexes t)\<rparr>; s' = replace_table t' s
          in if i \<in> fst ` set (tb_indexes t) \<and> (table_keys t' = table_keys t \<or> list_all (constrs_ok s') s')
             then Some s' else None)"
| "run_ddl (Drop_table n) s =
     (case find_table n s of
        None \<Rightarrow> None
      | Some _ \<Rightarrow> if list_ex (needed_by n) s then None else Some (filter (\<lambda>t. tb_name t \<noteq> n) s))"

fun run_all :: "ddl list \<Rightarrow> schema \<Rightarrow> schema option" where
  "run_all [] s = Some s"
| "run_all (d # ds) s = Option.bind (run_ddl d s) (run_all ds)"

subsection \<open>Every statement keeps the schema well formed\<close>

lemma find_table_SomeD: "find_table n s = Some t \<Longrightarrow> t \<in> set s \<and> tb_name t = n"
  by (auto simp: find_table_def find_Some_iff)

lemma find_table_append: "find_table n (s @ u) = (case find_table n s of None \<Rightarrow> find_table n u | Some t \<Rightarrow> Some t)"
  by (induction s) (auto simp: find_table_def)

lemma find_table_replace:
  "find_table n (replace_table t s) =
     (if n = tb_name t \<and> find_table n s \<noteq> None then Some t else find_table n s)"
  by (induction s) (auto simp: find_table_def replace_table_def)

text \<open>A constraint stays satisfied when every table keeps its keys.\<close>

lemma constr_ok_mono:
  assumes "constr_ok s own c" "\<And>n t. find_table n s = Some t \<Longrightarrow>
    \<exists>u. find_table n s' = Some u \<and> set (table_keys t) \<subseteq> set (table_keys u)"
  shows "constr_ok s' own c"
proof (cases c)
  case (Foreign_key n cs r refs)
  then obtain t where "find_table r s = Some t" "refs \<in> set (table_keys t)"
    using assms(1) by (auto split: option.splits)
  then show ?thesis using assms Foreign_key by fastforce
qed (use assms(1) in auto)

lemma constrs_ok_mono:
  assumes "constrs_ok s t" "\<And>n t. find_table n s = Some t \<Longrightarrow>
    \<exists>u. find_table n s' = Some u \<and> set (table_keys t) \<subseteq> set (table_keys u)"
  shows "constrs_ok s' t"
  using assms(1) constr_ok_mono [OF _ assms(2)] by (auto simp: constrs_ok_def list_all_iff)

lemma relations_append [simp]: "relations (s @ u) = relations s @ relations u"
  by (simp add: relations_def)

lemma table_names_distinct: "distinct (relations s) \<Longrightarrow> distinct (map tb_name s)"
proof (induction s)
  case (Cons t s)
  have "tb_name u \<in> set (relations s)" if "u \<in> set s" for u using that by (auto simp: relations_def relations_of_def)
  moreover have "tb_name t \<notin> set (relations s)" "distinct (relations s)"
    using Cons.prems by (auto simp: relations_def relations_of_def)
  ultimately show ?case using Cons.IH by fastforce
qed simp

lemma replace_table_split:
  assumes "find_table n s = Some t" "distinct (map tb_name s)" "tb_name t' = n"
  obtains a b where "s = a @ t # b" "replace_table t' s = a @ t' # b"
proof -
  obtain a b where s: "s = a @ t # b" using find_table_SomeD [OF assms(1)] split_list by metis
  have n: "tb_name t = n" using find_table_SomeD [OF assms(1)] by simp
  then have "n \<notin> tb_name ` set a" "n \<notin> tb_name ` set b" using assms(2) by (simp_all add: s)
  then have "map (\<lambda>q. if tb_name q = n then t' else q) a = a" "map (\<lambda>q. if tb_name q = n then t' else q) b = b"
    by (auto intro!: map_idI)
  then have "replace_table t' s = a @ t' # b" using n assms(3) by (simp add: replace_table_def s)
  then show thesis using that s by blast
qed

lemma distinct_relations_swap:
  assumes "distinct (relations (a @ t # b))" "distinct (relations_of t')"
    "set (relations_of t') \<inter> set (relations (a @ b)) = {}"
  shows "distinct (relations (a @ t' # b))"
  using assms by (auto simp: relations_def)

lemma create_table_ok:
  assumes "schema_ok s" "run_ddl (Create_table n cols cons) s = Some s'"
  shows "schema_ok s'"
proof -
  let ?t = "\<lparr>tb_name = n, tb_columns = cols, tb_constraints = cons, tb_indexes = []\<rparr>"
  have s': "s' = s @ [?t]" "distinct (relations_of ?t)" "set (relations_of ?t) \<inter> set (relations s) = {}"
    "distinct (column_names ?t)" "constrs_ok (s @ [?t]) ?t"
    using assms(2) by (auto simp: Let_def list_all_iff split: if_splits)
  have "distinct (relations (s @ [?t]))" using assms(1) s'(2,3) by (auto simp: schema_ok_def relations_def)
  have "constrs_ok (s @ [?t]) u" if "constrs_ok s u" for u
    by (rule constrs_ok_mono [OF that]) (simp add: find_table_append)
  then show ?thesis
    using assms(1) s'(1,4,5) \<open>distinct (relations (s @ [?t]))\<close> by (auto simp: schema_ok_def list_all_iff indexes_ok_def)
qed

lemma replace_ok:
  assumes "schema_ok s" "find_table n s = Some t" "tb_name t' = n" "tb_columns t' = tb_columns t"
    "distinct (relations (replace_table t' s))" "indexes_ok t'"
    "list_all (constrs_ok (replace_table t' s)) (replace_table t' s)"
  shows "schema_ok (replace_table t' s)"
proof -
  have "t \<in> set s" using find_table_SomeD [OF assms(2)] by simp
  then have "distinct (column_names t')" using assms(1,4) by (simp add: schema_ok_def list_all_iff column_names_def)
  then show ?thesis using assms(1,5-) by (auto simp: schema_ok_def list_all_iff replace_table_def)
qed

lemma replaced_constrs_ok:
  assumes "schema_ok s" "find_table n s = Some t" "tb_name t' = n" "tb_columns t' = tb_columns t"
    "tb_constraints t' = tb_constraints t" "set (table_keys t) \<subseteq> set (table_keys t')"
  shows "list_all (constrs_ok (replace_table t' s)) (replace_table t' s)"
proof -
  have n: "tb_name t = n" "t \<in> set s" using find_table_SomeD [OF assms(2)] by simp_all
  have keys: "\<exists>u. find_table m (replace_table t' s) = Some u \<and> set (table_keys q) \<subseteq> set (table_keys u)"
    if "find_table m s = Some q" for m q
    using that assms(2,3,6) n(1) by (auto simp: find_table_replace)
  have "constrs_ok (replace_table t' s) q" if q: "q \<in> set s" for q
  proof (rule constrs_ok_mono [OF _ keys])
    show "constrs_ok s q" using assms(1) q by (simp add: schema_ok_def list_all_iff)
  qed
  moreover have "constrs_ok s' t' = constrs_ok s' t" for s'
    using assms(4,5) by (simp add: constrs_ok_def column_names_def)
  ultimately show ?thesis using n(2) by (auto simp: list_all_iff replace_table_def)
qed

lemma create_index_ok:
  assumes "schema_ok s" "run_ddl (Create_index i n cs u) s = Some s'"
  shows "schema_ok s'"
proof -
  obtain t where t: "find_table n s = Some t" "i \<notin> set (relations s)" "set cs \<subseteq> set (column_names t)"
    "s' = replace_table (t\<lparr>tb_indexes := tb_indexes t @ [(i, cs, u)]\<rparr>) s"
    using assms(2) by (auto simp: list_all_iff split: option.splits if_splits)
  let ?t = "t\<lparr>tb_indexes := tb_indexes t @ [(i, cs, u)]\<rparr>"
  have n: "tb_name t = n" "t \<in> set s" using find_table_SomeD [OF t(1)] by simp_all
  have d: "distinct (relations s)" using assms(1) by (simp add: schema_ok_def)
  have tn: "tb_name ?t = n" using n by simp
  obtain a b where ab: "s = a @ t # b" "replace_table ?t s = a @ ?t # b"
    by (rule replace_table_split [OF t(1) table_names_distinct [OF d] tn])
  have r: "relations_of ?t = relations_of t @ [i]" by (simp add: relations_of_def)
  have "distinct (relations_of ?t)" "set (relations_of ?t) \<inter> set (relations (a @ b)) = {}"
    using d t(2) unfolding r ab(1) by (auto simp: relations_def)
  then have dd: "distinct (relations (replace_table ?t s))"
    unfolding ab(2) by (rule distinct_relations_swap [OF d [unfolded ab(1)]])
  have "list_all (constrs_ok (replace_table ?t s)) (replace_table ?t s)"
    by (rule replaced_constrs_ok [OF assms(1) t(1) tn]) (auto simp: table_keys_def)
  moreover have "indexes_ok ?t"
    using assms(1) n(2) t(3) by (auto simp: schema_ok_def list_all_iff indexes_ok_def column_names_def)
  ultimately show ?thesis using replace_ok [OF assms(1) t(1) tn _ dd] unfolding t(4) by simp
qed

lemma drop_index_ok:
  assumes "schema_ok s" "run_ddl (Drop_index i n) s = Some s'"
  shows "schema_ok s'"
proof -
  obtain t where t: "find_table n s = Some t"
    "s' = replace_table (t\<lparr>tb_indexes := filter (\<lambda>x. fst x \<noteq> i) (tb_indexes t)\<rparr>) s"
    "table_keys (t\<lparr>tb_indexes := filter (\<lambda>x. fst x \<noteq> i) (tb_indexes t)\<rparr>) = table_keys t \<or> list_all (constrs_ok s') s'"
    using assms(2) by (auto simp: Let_def split: option.splits if_splits)
  let ?t = "t\<lparr>tb_indexes := filter (\<lambda>x. fst x \<noteq> i) (tb_indexes t)\<rparr>"
  have n: "tb_name t = n" "t \<in> set s" using find_table_SomeD [OF t(1)] by simp_all
  have d: "distinct (relations s)" using assms(1) by (simp add: schema_ok_def)
  have tn: "tb_name ?t = n" using n by simp
  obtain a b where ab: "s = a @ t # b" "replace_table ?t s = a @ ?t # b"
    by (rule replace_table_split [OF t(1) table_names_distinct [OF d] tn])
  have r: "set (relations_of ?t) \<subseteq> set (relations_of t)" by (auto simp: relations_of_def)
  have "distinct (relations_of t)" using d by (simp add: ab(1) relations_def)
  then have "distinct (relations_of ?t)"
    by (auto simp: relations_of_def distinct_map_filter)
  moreover have "set (relations_of ?t) \<inter> set (relations (a @ b)) = {}"
    using d r unfolding ab(1) by (auto simp: relations_def)
  ultimately have dd: "distinct (relations (replace_table ?t s))"
    unfolding ab(2) by (rule distinct_relations_swap [OF d [unfolded ab(1)]])
  have "indexes_ok ?t"
    using assms(1) n(2) by (auto simp: schema_ok_def list_all_iff indexes_ok_def column_names_def)
  moreover have "list_all (constrs_ok (replace_table ?t s)) (replace_table ?t s)"
    using t(3) replaced_constrs_ok [OF assms(1) t(1) tn] unfolding t(2) by auto
  ultimately show ?thesis using replace_ok [OF assms(1) t(1) tn _ dd] unfolding t(2) by simp
qed

lemma drop_table_ok:
  assumes "schema_ok s" "run_ddl (Drop_table n) s = Some s'"
  shows "schema_ok s'"
proof -
  have s': "s' = filter (\<lambda>t. tb_name t \<noteq> n) s" "\<forall>t \<in> set s. \<not> needed_by n t"
    using assms(2) by (auto simp: list_ex_iff split: option.splits if_splits)
  have find: "m \<noteq> n \<Longrightarrow> find_table m s' = find_table m s" for m
    unfolding s'(1) by (induction s) (auto simp: find_table_def)
  have "constr_ok s' own c" if "constr_ok s own c" "\<not> refers_to n c" for own c
    using that by (cases c) (auto simp: find)
  then have "constrs_ok s' t" if "t \<in> set s" "tb_name t \<noteq> n" for t
    using that assms(1) s'(2) by (auto simp: schema_ok_def constrs_ok_def list_all_iff needed_by_def list_ex_iff)
  moreover have "distinct (relations (filter p s))" if "distinct (relations s)" for p s
    using that by (induction s) (auto simp: relations_def)
  ultimately show ?thesis using assms(1) s'(1) by (auto simp: schema_ok_def list_all_iff)
qed

lemma run_ddl_ok: "schema_ok s \<Longrightarrow> run_ddl d s = Some s' \<Longrightarrow> schema_ok s'"
  using create_table_ok create_index_ok drop_index_ok drop_table_ok by (cases d) blast+

lemma run_all_ok: "schema_ok s \<Longrightarrow> run_all ds s = Some s' \<Longrightarrow> schema_ok s'"
proof (induction ds arbitrary: s)
  case (Cons d ds)
  then obtain u where "run_ddl d s = Some u" "run_all ds u = Some s'" by (auto simp: bind_eq_Some_conv)
  then show ?case using Cons.IH run_ddl_ok [OF Cons.prems(1)] by blast
qed simp

lemma run_all_append: "run_all (a @ b) s = Option.bind (run_all a s) (run_all b)"
proof (induction a arbitrary: s)
  case (Cons d a)
  then show ?case by (cases "run_ddl d s") simp_all
qed simp

end
