(* ===== verification/Migrations.thy ===== *)
theory Migrations
  imports Ddl
begin

section \<open>The migrations\<close>

text \<open>
  \<open>migrations/versions\<close>: the three revisions as lists of schema statements, and the tables that
  \<open>apps/api/app/models\<close> declares, with the names that the naming convention of \<open>base.py\<close> gives to
  constraints and indexes. The statements of \<open>Ddl\<close> run them. Two things are shown: going up and
  down the chain of revisions never fails and always reaches the schema of the target revision,
  and the migrated schema is the one of the models, up to the names of two foreign keys.
\<close>

definition required :: "str \<Rightarrow> sql_type \<Rightarrow> column" where
  "required n ty = \<lparr>cl_name = n, cl_type = ty, cl_nullable = False, cl_default_now = False\<rparr>"

definition nullable :: "str \<Rightarrow> sql_type \<Rightarrow> column" where
  "nullable n ty = \<lparr>cl_name = n, cl_type = ty, cl_nullable = True, cl_default_now = False\<rparr>"

definition stamped :: "str \<Rightarrow> column" where
  "stamped n = \<lparr>cl_name = n, cl_type = Sql_datetime, cl_nullable = False, cl_default_now = True\<rparr>"

subsection \<open>The revisions\<close>

definition create_services :: ddl where
  "create_services = Create_table ''services''
     [required ''id'' Sql_uuid,
      required ''name'' (Sql_string 128),
      required ''environment'' (Sql_string 32),
      nullable ''current_version'' (Sql_string 64),
      nullable ''owner_team'' (Sql_string 128),
      stamped ''created_at'',
      stamped ''updated_at'']
     [Primary_key ''pk_services'' [''id'']]"

definition create_alerts :: ddl where
  "create_alerts = Create_table ''alerts''
     [required ''id'' Sql_uuid,
      nullable ''external_id'' (Sql_string 128),
      required ''service_id'' Sql_uuid,
      required ''alert_type'' (Sql_string 64),
      required ''severity'' (Sql_string 16),
      required ''started_at'' Sql_datetime,
      nullable ''resolved_at'' Sql_datetime,
      required ''raw_payload'' Sql_json,
      stamped ''created_at'']
     [Foreign_key ''fk_alerts_service_id_services'' [''service_id''] ''services'' [''id''],
      Primary_key ''pk_alerts'' [''id''],
      Unique_key ''uq_alerts_external_id'' [''external_id'']]"

definition create_incidents :: ddl where
  "create_incidents = Create_table ''incidents''
     [required ''id'' Sql_uuid,
      required ''service_id'' Sql_uuid,
      required ''title'' (Sql_string 256),
      nullable ''description'' Sql_text,
      required ''severity'' (Sql_string 16),
      required ''status'' (Sql_string 32),
      required ''started_at'' Sql_datetime,
      nullable ''resolved_at'' Sql_datetime,
      stamped ''created_at'',
      stamped ''updated_at'']
     [Foreign_key ''fk_incidents_service_id_services'' [''service_id''] ''services'' [''id''],
      Primary_key ''pk_incidents'' [''id'']]"

definition create_incident_alerts :: ddl where
  "create_incident_alerts = Create_table ''incident_alerts''
     [required ''incident_id'' Sql_uuid,
      required ''alert_id'' Sql_uuid]
     [Foreign_key ''fk_incident_alerts_incident_id_incidents'' [''incident_id''] ''incidents'' [''id''],
      Foreign_key ''fk_incident_alerts_alert_id_alerts'' [''alert_id''] ''alerts'' [''id''],
      Primary_key ''pk_incident_alerts'' [''incident_id'', ''alert_id'']]"

definition create_incident_events :: ddl where
  "create_incident_events = Create_table ''incident_events''
     [required ''id'' Sql_uuid,
      required ''incident_id'' Sql_uuid,
      required ''event_type'' (Sql_string 64),
      required ''message'' Sql_text,
      required ''metadata'' Sql_json,
      stamped ''created_at'']
     [Foreign_key ''fk_incident_events_incident_id_incidents'' [''incident_id''] ''incidents'' [''id''],
      Primary_key ''pk_incident_events'' [''id'']]"

definition create_deployment_events :: ddl where
  "create_deployment_events = Create_table ''deployment_events''
     [required ''id'' Sql_uuid,
      required ''service_id'' Sql_uuid,
      required ''version'' (Sql_string 64),
      nullable ''previous_version'' (Sql_string 64),
      nullable ''commit_sha'' (Sql_string 64),
      nullable ''deployed_by'' (Sql_string 128),
      required ''status'' (Sql_string 32),
      required ''deployed_at'' Sql_datetime,
      required ''metadata'' Sql_json]
     [Foreign_key ''fk_deployment_events_service_id_services'' [''service_id''] ''services'' [''id''],
      Primary_key ''pk_deployment_events'' [''id'']]"

definition upgrade_0001 :: "ddl list" where
  "upgrade_0001 =
     [create_services,
      Create_index ''ix_services_name'' ''services'' [''name''] True,
      create_alerts,
      Create_index ''ix_alerts_service_id'' ''alerts'' [''service_id''] False,
      Create_index ''ix_alerts_alert_type'' ''alerts'' [''alert_type''] False,
      Create_index ''ix_alerts_started_at'' ''alerts'' [''started_at''] False,
      create_incidents,
      Create_index ''ix_incidents_service_id'' ''incidents'' [''service_id''] False,
      Create_index ''ix_incidents_status'' ''incidents'' [''status''] False,
      Create_index ''ix_incidents_started_at'' ''incidents'' [''started_at''] False,
      create_incident_alerts,
      create_incident_events,
      Create_index ''ix_incident_events_incident_id'' ''incident_events'' [''incident_id''] False,
      create_deployment_events,
      Create_index ''ix_deployment_events_service_id'' ''deployment_events'' [''service_id''] False,
      Create_index ''ix_deployment_events_deployed_at'' ''deployment_events'' [''deployed_at''] False]"

definition downgrade_0001 :: "ddl list" where
  "downgrade_0001 =
     [Drop_table ''deployment_events'',
      Drop_table ''incident_events'',
      Drop_table ''incident_alerts'',
      Drop_table ''incidents'',
      Drop_table ''alerts'',
      Drop_table ''services'']"

definition create_agent_runs :: ddl where
  "create_agent_runs = Create_table ''agent_runs''
     [required ''id'' Sql_uuid,
      required ''incident_id'' Sql_uuid,
      required ''status'' (Sql_string 32),
      nullable ''provider'' (Sql_string 64),
      nullable ''model_name'' (Sql_string 128),
      required ''prompt_version'' (Sql_string 128),
      nullable ''started_at'' Sql_datetime,
      nullable ''finished_at'' Sql_datetime,
      required ''input_tokens'' Sql_integer,
      required ''output_tokens'' Sql_integer,
      nullable ''error_message'' Sql_text,
      stamped ''created_at'']
     [Check_that ''ck_agent_runs_status'' (One_of ''status'' [''pending'', ''running'', ''completed'', ''failed'', ''insufficient_evidence'']),
      Check_that ''ck_agent_runs_time_range'' (Unset_or_after ''finished_at'' ''started_at''),
      Check_that ''ck_agent_runs_tokens'' (Not_negative [''input_tokens'', ''output_tokens'']),
      Foreign_key ''fk_agent_runs_incident_id_incidents'' [''incident_id''] ''incidents'' [''id''],
      Primary_key ''pk_agent_runs'' [''id''],
      Unique_key ''uq_agent_runs_id_incident'' [''id'', ''incident_id'']]"

definition create_hypotheses :: ddl where
  "create_hypotheses = Create_table ''hypotheses''
     [required ''id'' Sql_uuid,
      required ''agent_run_id'' Sql_uuid,
      required ''root_cause'' (Sql_string 128),
      required ''summary'' Sql_text,
      required ''confidence'' Sql_float,
      stamped ''created_at'']
     [Check_that ''ck_hypotheses_confidence'' (Within_unit ''confidence''),
      Foreign_key ''fk_hypotheses_agent_run_id_agent_runs'' [''agent_run_id''] ''agent_runs'' [''id''],
      Primary_key ''pk_hypotheses'' [''id''],
      Unique_key ''uq_hypotheses_id_run'' [''id'', ''agent_run_id'']]"

definition create_tool_calls :: ddl where
  "create_tool_calls = Create_table ''tool_calls''
     [required ''id'' Sql_uuid,
      required ''agent_run_id'' Sql_uuid,
      required ''tool_name'' (Sql_string 128),
      required ''status'' (Sql_string 16),
      required ''input_payload'' Sql_json,
      required ''output_payload'' Sql_json,
      nullable ''error_message'' Sql_text,
      required ''started_at'' Sql_datetime,
      required ''finished_at'' Sql_datetime]
     [Check_that ''ck_tool_calls_status'' (One_of ''status'' [''succeeded'', ''failed'']),
      Check_that ''ck_tool_calls_time_range'' (After ''finished_at'' ''started_at''),
      Foreign_key ''fk_tool_calls_agent_run_id_agent_runs'' [''agent_run_id''] ''agent_runs'' [''id''],
      Primary_key ''pk_tool_calls'' [''id''],
      Unique_key ''uq_tool_calls_id_run'' [''id'', ''agent_run_id'']]"

definition create_evidence :: ddl where
  "create_evidence = Create_table ''evidence''
     [required ''id'' Sql_uuid,
      required ''incident_id'' Sql_uuid,
      required ''agent_run_id'' Sql_uuid,
      nullable ''tool_call_id'' Sql_uuid,
      required ''source_type'' (Sql_string 16),
      required ''source_name'' (Sql_string 128),
      required ''query'' Sql_text,
      required ''query_params'' Sql_json,
      required ''summary'' Sql_text,
      required ''raw_data'' Sql_json,
      nullable ''time_range_start'' Sql_datetime,
      nullable ''time_range_end'' Sql_datetime,
      required ''collected_at'' Sql_datetime,
      stamped ''created_at'']
     [Check_that ''ck_evidence_source_type'' (One_of ''source_type'' [''metric'', ''log'', ''deployment'', ''runbook'']),
      Check_that ''ck_evidence_time_range'' (Range_or_unset ''time_range_start'' ''time_range_end''),
      Foreign_key ''fk_evidence_run_incident'' [''agent_run_id'', ''incident_id''] ''agent_runs'' [''id'', ''incident_id''],
      Foreign_key ''fk_evidence_tool_run'' [''tool_call_id'', ''agent_run_id''] ''tool_calls'' [''id'', ''agent_run_id''],
      Primary_key ''pk_evidence'' [''id''],
      Unique_key ''uq_evidence_id_run'' [''id'', ''agent_run_id'']]"

definition create_recommendations :: ddl where
  "create_recommendations = Create_table ''recommendations''
     [required ''id'' Sql_uuid,
      required ''agent_run_id'' Sql_uuid,
      required ''hypothesis_id'' Sql_uuid,
      required ''action_type'' (Sql_string 128),
      required ''parameters'' Sql_json,
      required ''rationale'' Sql_text,
      required ''risk_level'' (Sql_string 16),
      required ''status'' (Sql_string 16),
      required ''requires_approval'' Sql_boolean,
      stamped ''created_at'']
     [Check_that ''ck_recommendations_risk'' (One_of ''risk_level'' [''low'', ''medium'', ''high'']),
      Check_that ''ck_recommendations_proposed_only'' (One_of ''status'' [''proposed'']),
      Check_that ''ck_recommendations_require_approval'' (Is_true ''requires_approval''),
      Foreign_key ''fk_recommendations_hypothesis_run'' [''hypothesis_id'', ''agent_run_id''] ''hypotheses'' [''id'', ''agent_run_id''],
      Primary_key ''pk_recommendations'' [''id'']]"

definition create_hypothesis_evidence :: ddl where
  "create_hypothesis_evidence = Create_table ''hypothesis_evidence''
     [required ''hypothesis_id'' Sql_uuid,
      required ''evidence_id'' Sql_uuid,
      required ''agent_run_id'' Sql_uuid]
     [Foreign_key ''fk_hypothesis_evidence_evidence_run'' [''evidence_id'', ''agent_run_id''] ''evidence'' [''id'', ''agent_run_id''],
      Foreign_key ''fk_hypothesis_evidence_hypothesis_run'' [''hypothesis_id'', ''agent_run_id''] ''hypotheses'' [''id'', ''agent_run_id''],
      Primary_key ''pk_hypothesis_evidence'' [''hypothesis_id'', ''evidence_id'']]"

definition upgrade_0002 :: "ddl list" where
  "upgrade_0002 =
     [create_agent_runs,
      Create_index ''ix_agent_runs_incident_created'' ''agent_runs'' [''incident_id'', ''created_at'', ''id''] False,
      create_hypotheses,
      Create_index ''ix_hypotheses_agent_run_id'' ''hypotheses'' [''agent_run_id''] False,
      create_tool_calls,
      Create_index ''ix_tool_calls_run_started'' ''tool_calls'' [''agent_run_id'', ''started_at'', ''id''] False,
      create_evidence,
      Create_index ''ix_evidence_incident_collected'' ''evidence'' [''incident_id'', ''collected_at'', ''id''] False,
      Create_index ''ix_evidence_run_collected'' ''evidence'' [''agent_run_id'', ''collected_at'', ''id''] False,
      Create_index ''ix_evidence_tool_call_id'' ''evidence'' [''tool_call_id''] False,
      create_recommendations,
      Create_index ''ix_recommendations_agent_run_id'' ''recommendations'' [''agent_run_id''] False,
      create_hypothesis_evidence,
      Create_index ''ix_hypothesis_evidence_evidence_id'' ''hypothesis_evidence'' [''evidence_id''] False]"

definition downgrade_0002 :: "ddl list" where
  "downgrade_0002 =
     [Drop_index ''ix_hypothesis_evidence_evidence_id'' ''hypothesis_evidence'',
      Drop_table ''hypothesis_evidence'',
      Drop_index ''ix_recommendations_agent_run_id'' ''recommendations'',
      Drop_table ''recommendations'',
      Drop_index ''ix_evidence_tool_call_id'' ''evidence'',
      Drop_index ''ix_evidence_run_collected'' ''evidence'',
      Drop_index ''ix_evidence_incident_collected'' ''evidence'',
      Drop_table ''evidence'',
      Drop_index ''ix_tool_calls_run_started'' ''tool_calls'',
      Drop_table ''tool_calls'',
      Drop_index ''ix_hypotheses_agent_run_id'' ''hypotheses'',
      Drop_table ''hypotheses'',
      Drop_index ''ix_agent_runs_incident_created'' ''agent_runs'',
      Drop_table ''agent_runs'']"

definition create_approvals :: ddl where
  "create_approvals = Create_table ''approvals''
     [required ''id'' Sql_uuid,
      required ''recommendation_id'' Sql_uuid,
      required ''agent_run_id'' Sql_uuid,
      required ''action_type'' (Sql_string 128),
      required ''parameters'' Sql_json,
      required ''action_hash'' (Sql_string 64),
      required ''status'' (Sql_string 16),
      nullable ''decided_by'' (Sql_string 128),
      nullable ''decision_reason'' Sql_text,
      required ''expires_at'' Sql_datetime,
      nullable ''decided_at'' Sql_datetime,
      nullable ''executed_at'' Sql_datetime,
      nullable ''execution_status'' (Sql_string 16),
      nullable ''execution_error'' Sql_text,
      stamped ''created_at'']
     [Check_that ''ck_approvals_status'' (One_of ''status'' [''pending'', ''approved'', ''rejected'']),
      Check_that ''ck_approvals_action_type'' (One_of ''action_type'' [''simulated_restart'', ''simulated_rollback'', ''simulated_scale'', ''create_incident_note'']),
      Foreign_key ''fk_approvals_recommendation'' [''recommendation_id''] ''recommendations'' [''id''],
      Foreign_key ''fk_approvals_agent_run'' [''agent_run_id''] ''agent_runs'' [''id''],
      Primary_key ''pk_approvals'' [''id''],
      Unique_key ''uq_approvals_recommendation'' [''recommendation_id'']]"

definition upgrade_0003 :: "ddl list" where
  "upgrade_0003 =
     [create_approvals,
      Create_index ''ix_approvals_status_created'' ''approvals'' [''status'', ''created_at'', ''id''] False]"

definition downgrade_0003 :: "ddl list" where
  "downgrade_0003 =
     [Drop_index ''ix_approvals_status_created'' ''approvals'',
      Drop_table ''approvals'']"

record revision =
  rv_id :: str
  rv_down :: "str option"
  rv_upgrade :: "ddl list"
  rv_downgrade :: "ddl list"

definition revision_0001 :: revision where
  "revision_0001 = \<lparr>rv_id = ''0001'', rv_down = None, rv_upgrade = upgrade_0001, rv_downgrade = downgrade_0001\<rparr>"

definition revision_0002 :: revision where
  "revision_0002 = \<lparr>rv_id = ''0002'', rv_down = Some ''0001'', rv_upgrade = upgrade_0002, rv_downgrade = downgrade_0002\<rparr>"

definition revision_0003 :: revision where
  "revision_0003 = \<lparr>rv_id = ''0003'', rv_down = Some ''0002'', rv_upgrade = upgrade_0003, rv_downgrade = downgrade_0003\<rparr>"

text \<open>The chain: each revision names the one before it.\<close>

definition revisions :: "revision list" where
  "revisions = [revision_0001, revision_0002, revision_0003]"

fun chained :: "str option \<Rightarrow> revision list \<Rightarrow> bool" where
  "chained down [] = True"
| "chained down (r # rs) = (rv_down r = down \<and> chained (Some (rv_id r)) rs)"

text \<open>\<open>schema_at n\<close>: an empty database upgraded by the first n revisions.\<close>

fun schema_at :: "nat \<Rightarrow> schema option" where
  "schema_at 0 = Some []"
| "schema_at (Suc n) = Option.bind (schema_at n) (run_all (rv_upgrade (revisions ! n)))"

text \<open>\<open>downgrade_by k n\<close>: from the schema of the first n revisions, k steps down.\<close>

fun downgrade_by :: "nat \<Rightarrow> nat \<Rightarrow> schema \<Rightarrow> schema option" where
  "downgrade_by (Suc k) (Suc n) s = Option.bind (run_all (rv_downgrade (revisions ! n)) s) (downgrade_by k n)"
| "downgrade_by _ _ s = Some s"

subsection \<open>The tables of the models\<close>

text \<open>\<open>mapped_column\<close> and its options, \<open>TimestampMixin\<close> and the naming convention.\<close>

record orm_column =
  oc_column :: column
  oc_primary :: bool
  oc_unique :: bool
  oc_index :: bool
  oc_refers :: "(str \<times> str) option"

record orm_table =
  ot_name :: str
  ot_columns :: "orm_column list"
  ot_constraints :: "constr list"
  ot_indexes :: "(str \<times> str list \<times> bool) list"

definition col :: "str \<Rightarrow> sql_type \<Rightarrow> orm_column" where
  "col n ty = \<lparr>oc_column = required n ty, oc_primary = False, oc_unique = False, oc_index = False, oc_refers = None\<rparr>"

definition now_col :: "str \<Rightarrow> orm_column" where
  "now_col n = (col n Sql_datetime)\<lparr>oc_column := stamped n\<rparr>"

definition optional :: "orm_column \<Rightarrow> orm_column" where
  "optional c = c\<lparr>oc_column := (oc_column c)\<lparr>cl_nullable := True\<rparr>\<rparr>"

definition primary :: "orm_column \<Rightarrow> orm_column" where
  "primary c = c\<lparr>oc_primary := True\<rparr>"

definition unique :: "orm_column \<Rightarrow> orm_column" where
  "unique c = c\<lparr>oc_unique := True\<rparr>"

definition indexed :: "orm_column \<Rightarrow> orm_column" where
  "indexed c = c\<lparr>oc_index := True\<rparr>"

definition refers :: "str \<Rightarrow> str \<Rightarrow> orm_column \<Rightarrow> orm_column" where
  "refers t k c = c\<lparr>oc_refers := Some (t, k)\<rparr>"

definition timestamp_mixin :: "orm_column list" where
  "timestamp_mixin = [now_col ''created_at'', now_col ''updated_at'']"

definition oc_name :: "orm_column \<Rightarrow> str" where
  "oc_name c = cl_name (oc_column c)"

definition pk_name :: "str \<Rightarrow> str" where
  "pk_name t = ''pk_'' @ t"

definition uq_name :: "str \<Rightarrow> str \<Rightarrow> str" where
  "uq_name t c = ''uq_'' @ t @ ''_'' @ c"

definition fk_name :: "str \<Rightarrow> str \<Rightarrow> str \<Rightarrow> str" where
  "fk_name t c r = ''fk_'' @ t @ ''_'' @ c @ ''_'' @ r"

definition ix_name :: "str \<Rightarrow> str \<Rightarrow> str" where
  "ix_name t c = ''ix_'' @ t @ ''_'' @ c"

text \<open>A unique indexed column has a unique index and no constraint.\<close>

definition table_of_model :: "orm_table \<Rightarrow> table" where
  "table_of_model m =
     \<lparr>tb_name = ot_name m, tb_columns = map oc_column (ot_columns m),
      tb_constraints = Primary_key (pk_name (ot_name m)) (map oc_name (filter oc_primary (ot_columns m))) #
        concat (map (\<lambda>c. case oc_refers c of None \<Rightarrow> []
          | Some (t, k) \<Rightarrow> [Foreign_key (fk_name (ot_name m) (oc_name c) t) [oc_name c] t [k]]) (ot_columns m)) @
        map (\<lambda>c. Unique_key (uq_name (ot_name m) (oc_name c)) [oc_name c])
          (filter (\<lambda>c. oc_unique c \<and> \<not> oc_index c) (ot_columns m)) @ ot_constraints m,
      tb_indexes = map (\<lambda>c. (ix_name (ot_name m) (oc_name c), [oc_name c], oc_unique c))
        (filter oc_index (ot_columns m)) @ ot_indexes m\<rparr>"

definition orm_services :: orm_table where
  "orm_services = \<lparr>ot_name = ''services'',
     ot_columns = [primary (col ''id'' Sql_uuid),
       indexed (unique (col ''name'' (Sql_string 128))),
       col ''environment'' (Sql_string 32),
       optional (col ''current_version'' (Sql_string 64)),
       optional (col ''owner_team'' (Sql_string 128))] @ timestamp_mixin,
     ot_constraints = [],
     ot_indexes = []\<rparr>"

definition orm_alerts :: orm_table where
  "orm_alerts = \<lparr>ot_name = ''alerts'',
     ot_columns = [primary (col ''id'' Sql_uuid),
       unique (optional (col ''external_id'' (Sql_string 128))),
       indexed (refers ''services'' ''id'' (col ''service_id'' Sql_uuid)),
       indexed (col ''alert_type'' (Sql_string 64)),
       col ''severity'' (Sql_string 16),
       indexed (col ''started_at'' Sql_datetime),
       optional (col ''resolved_at'' Sql_datetime),
       col ''raw_payload'' Sql_json,
       now_col ''created_at''],
     ot_constraints = [],
     ot_indexes = []\<rparr>"

definition orm_incidents :: orm_table where
  "orm_incidents = \<lparr>ot_name = ''incidents'',
     ot_columns = [primary (col ''id'' Sql_uuid),
       indexed (refers ''services'' ''id'' (col ''service_id'' Sql_uuid)),
       col ''title'' (Sql_string 256),
       optional (col ''description'' Sql_text),
       col ''severity'' (Sql_string 16),
       indexed (col ''status'' (Sql_string 32)),
       indexed (col ''started_at'' Sql_datetime),
       optional (col ''resolved_at'' Sql_datetime)] @ timestamp_mixin,
     ot_constraints = [],
     ot_indexes = []\<rparr>"

definition orm_incident_alerts :: orm_table where
  "orm_incident_alerts = \<lparr>ot_name = ''incident_alerts'',
     ot_columns = [primary (refers ''incidents'' ''id'' (col ''incident_id'' Sql_uuid)),
       primary (refers ''alerts'' ''id'' (col ''alert_id'' Sql_uuid))],
     ot_constraints = [],
     ot_indexes = []\<rparr>"

definition orm_incident_events :: orm_table where
  "orm_incident_events = \<lparr>ot_name = ''incident_events'',
     ot_columns = [primary (col ''id'' Sql_uuid),
       indexed (refers ''incidents'' ''id'' (col ''incident_id'' Sql_uuid)),
       col ''event_type'' (Sql_string 64),
       col ''message'' Sql_text,
       col ''metadata'' Sql_json,
       now_col ''created_at''],
     ot_constraints = [],
     ot_indexes = []\<rparr>"

definition orm_deployment_events :: orm_table where
  "orm_deployment_events = \<lparr>ot_name = ''deployment_events'',
     ot_columns = [primary (col ''id'' Sql_uuid),
       indexed (refers ''services'' ''id'' (col ''service_id'' Sql_uuid)),
       col ''version'' (Sql_string 64),
       optional (col ''previous_version'' (Sql_string 64)),
       optional (col ''commit_sha'' (Sql_string 64)),
       optional (col ''deployed_by'' (Sql_string 128)),
       col ''status'' (Sql_string 32),
       indexed (col ''deployed_at'' Sql_datetime),
       col ''metadata'' Sql_json],
     ot_constraints = [],
     ot_indexes = []\<rparr>"

definition orm_agent_runs :: orm_table where
  "orm_agent_runs = \<lparr>ot_name = ''agent_runs'',
     ot_columns = [primary (col ''id'' Sql_uuid),
       refers ''incidents'' ''id'' (col ''incident_id'' Sql_uuid),
       col ''status'' (Sql_string 32),
       optional (col ''provider'' (Sql_string 64)),
       optional (col ''model_name'' (Sql_string 128)),
       col ''prompt_version'' (Sql_string 128),
       optional (col ''started_at'' Sql_datetime),
       optional (col ''finished_at'' Sql_datetime),
       col ''input_tokens'' Sql_integer,
       col ''output_tokens'' Sql_integer,
       optional (col ''error_message'' Sql_text),
       now_col ''created_at''],
     ot_constraints = [Unique_key ''uq_agent_runs_id_incident'' [''id'', ''incident_id''],
       Check_that ''ck_agent_runs_status'' (One_of ''status'' [''pending'', ''running'', ''completed'', ''failed'', ''insufficient_evidence'']),
       Check_that ''ck_agent_runs_tokens'' (Not_negative [''input_tokens'', ''output_tokens'']),
       Check_that ''ck_agent_runs_time_range'' (Unset_or_after ''finished_at'' ''started_at'')],
     ot_indexes = [(''ix_agent_runs_incident_created'', [''incident_id'', ''created_at'', ''id''], False)]\<rparr>"

definition orm_tool_calls :: orm_table where
  "orm_tool_calls = \<lparr>ot_name = ''tool_calls'',
     ot_columns = [primary (col ''id'' Sql_uuid),
       refers ''agent_runs'' ''id'' (col ''agent_run_id'' Sql_uuid),
       col ''tool_name'' (Sql_string 128),
       col ''status'' (Sql_string 16),
       col ''input_payload'' Sql_json,
       col ''output_payload'' Sql_json,
       optional (col ''error_message'' Sql_text),
       col ''started_at'' Sql_datetime,
       col ''finished_at'' Sql_datetime],
     ot_constraints = [Unique_key ''uq_tool_calls_id_run'' [''id'', ''agent_run_id''],
       Check_that ''ck_tool_calls_status'' (One_of ''status'' [''succeeded'', ''failed'']),
       Check_that ''ck_tool_calls_time_range'' (After ''finished_at'' ''started_at'')],
     ot_indexes = [(''ix_tool_calls_run_started'', [''agent_run_id'', ''started_at'', ''id''], False)]\<rparr>"

definition orm_evidence :: orm_table where
  "orm_evidence = \<lparr>ot_name = ''evidence'',
     ot_columns = [primary (col ''id'' Sql_uuid),
       col ''incident_id'' Sql_uuid,
       col ''agent_run_id'' Sql_uuid,
       optional (col ''tool_call_id'' Sql_uuid),
       col ''source_type'' (Sql_string 16),
       col ''source_name'' (Sql_string 128),
       col ''query'' Sql_text,
       col ''query_params'' Sql_json,
       col ''summary'' Sql_text,
       col ''raw_data'' Sql_json,
       optional (col ''time_range_start'' Sql_datetime),
       optional (col ''time_range_end'' Sql_datetime),
       col ''collected_at'' Sql_datetime,
       now_col ''created_at''],
     ot_constraints = [Foreign_key ''fk_evidence_run_incident'' [''agent_run_id'', ''incident_id''] ''agent_runs'' [''id'', ''incident_id''],
       Foreign_key ''fk_evidence_tool_run'' [''tool_call_id'', ''agent_run_id''] ''tool_calls'' [''id'', ''agent_run_id''],
       Unique_key ''uq_evidence_id_run'' [''id'', ''agent_run_id''],
       Check_that ''ck_evidence_source_type'' (One_of ''source_type'' [''metric'', ''log'', ''deployment'', ''runbook'']),
       Check_that ''ck_evidence_time_range'' (Range_or_unset ''time_range_start'' ''time_range_end'')],
     ot_indexes = [(''ix_evidence_incident_collected'', [''incident_id'', ''collected_at'', ''id''], False),
       (''ix_evidence_run_collected'', [''agent_run_id'', ''collected_at'', ''id''], False),
       (''ix_evidence_tool_call_id'', [''tool_call_id''], False)]\<rparr>"

definition orm_hypotheses :: orm_table where
  "orm_hypotheses = \<lparr>ot_name = ''hypotheses'',
     ot_columns = [primary (col ''id'' Sql_uuid),
       indexed (refers ''agent_runs'' ''id'' (col ''agent_run_id'' Sql_uuid)),
       col ''root_cause'' (Sql_string 128),
       col ''summary'' Sql_text,
       col ''confidence'' Sql_float,
       now_col ''created_at''],
     ot_constraints = [Unique_key ''uq_hypotheses_id_run'' [''id'', ''agent_run_id''],
       Check_that ''ck_hypotheses_confidence'' (Within_unit ''confidence'')],
     ot_indexes = []\<rparr>"

definition orm_hypothesis_evidence :: orm_table where
  "orm_hypothesis_evidence = \<lparr>ot_name = ''hypothesis_evidence'',
     ot_columns = [primary (col ''hypothesis_id'' Sql_uuid),
       primary (col ''evidence_id'' Sql_uuid),
       col ''agent_run_id'' Sql_uuid],
     ot_constraints = [Foreign_key ''fk_hypothesis_evidence_hypothesis_run'' [''hypothesis_id'', ''agent_run_id''] ''hypotheses'' [''id'', ''agent_run_id''],
       Foreign_key ''fk_hypothesis_evidence_evidence_run'' [''evidence_id'', ''agent_run_id''] ''evidence'' [''id'', ''agent_run_id'']],
     ot_indexes = [(''ix_hypothesis_evidence_evidence_id'', [''evidence_id''], False)]\<rparr>"

definition orm_recommendations :: orm_table where
  "orm_recommendations = \<lparr>ot_name = ''recommendations'',
     ot_columns = [primary (col ''id'' Sql_uuid),
       col ''agent_run_id'' Sql_uuid,
       col ''hypothesis_id'' Sql_uuid,
       col ''action_type'' (Sql_string 128),
       col ''parameters'' Sql_json,
       col ''rationale'' Sql_text,
       col ''risk_level'' (Sql_string 16),
       col ''status'' (Sql_string 16),
       col ''requires_approval'' Sql_boolean,
       now_col ''created_at''],
     ot_constraints = [Foreign_key ''fk_recommendations_hypothesis_run'' [''hypothesis_id'', ''agent_run_id''] ''hypotheses'' [''id'', ''agent_run_id''],
       Check_that ''ck_recommendations_risk'' (One_of ''risk_level'' [''low'', ''medium'', ''high'']),
       Check_that ''ck_recommendations_proposed_only'' (One_of ''status'' [''proposed'']),
       Check_that ''ck_recommendations_require_approval'' (Is_true ''requires_approval'')],
     ot_indexes = [(''ix_recommendations_agent_run_id'', [''agent_run_id''], False)]\<rparr>"

definition orm_approvals :: orm_table where
  "orm_approvals = \<lparr>ot_name = ''approvals'',
     ot_columns = [primary (col ''id'' Sql_uuid),
       refers ''recommendations'' ''id'' (col ''recommendation_id'' Sql_uuid),
       refers ''agent_runs'' ''id'' (col ''agent_run_id'' Sql_uuid),
       col ''action_type'' (Sql_string 128),
       col ''parameters'' Sql_json,
       col ''action_hash'' (Sql_string 64),
       col ''status'' (Sql_string 16),
       optional (col ''decided_by'' (Sql_string 128)),
       optional (col ''decision_reason'' Sql_text),
       col ''expires_at'' Sql_datetime,
       optional (col ''decided_at'' Sql_datetime),
       optional (col ''executed_at'' Sql_datetime),
       optional (col ''execution_status'' (Sql_string 16)),
       optional (col ''execution_error'' Sql_text),
       now_col ''created_at''],
     ot_constraints = [Check_that ''ck_approvals_status'' (One_of ''status'' [''pending'', ''approved'', ''rejected'']),
       Check_that ''ck_approvals_action_type'' (One_of ''action_type'' [''simulated_restart'', ''simulated_rollback'', ''simulated_scale'', ''create_incident_note'']),
       Unique_key ''uq_approvals_recommendation'' [''recommendation_id'']],
     ot_indexes = [(''ix_approvals_status_created'', [''status'', ''created_at'', ''id''], False)]\<rparr>"

definition models :: "orm_table list" where
  "models = [orm_services, orm_alerts, orm_incidents, orm_incident_alerts, orm_incident_events, orm_deployment_events,
     orm_agent_runs, orm_hypotheses, orm_tool_calls, orm_evidence, orm_recommendations, orm_hypothesis_evidence,
     orm_approvals]"

subsection \<open>Comparing schemas\<close>

text \<open>The order of columns, constraints and indexes does not matter.\<close>

definition same_members :: "'a list \<Rightarrow> 'a list \<Rightarrow> bool" where
  "same_members xs ys \<longleftrightarrow> list_all (\<lambda>x. List.member ys x) xs \<and> list_all (\<lambda>y. List.member xs y) ys \<and> length xs = length ys"

fun anonymous :: "constr \<Rightarrow> constr" where
  "anonymous (Foreign_key _ cs r refs) = Foreign_key [] cs r refs"
| "anonymous c = c"

definition same_table :: "table \<Rightarrow> table \<Rightarrow> bool" where
  "same_table t u \<longleftrightarrow> tb_name t = tb_name u \<and> same_members (tb_columns t) (tb_columns u) \<and>
     same_members (map anonymous (tb_constraints t)) (map anonymous (tb_constraints u)) \<and>
     same_members (tb_indexes t) (tb_indexes u)"

definition same_names :: "table \<Rightarrow> table \<Rightarrow> bool" where
  "same_names t u \<longleftrightarrow> same_members (tb_constraints t) (tb_constraints u)"

subsection \<open>Going down undoes going up\<close>

text \<open>
  An upgrade only touches the tables it creates and its downgrade only those, so that a downgrade
  that succeeds gives the schema before the upgrade. That each one succeeds is evaluated.
\<close>

fun builds :: "str list \<Rightarrow> ddl list \<Rightarrow> bool" where
  "builds own [] = True"
| "builds own (Create_table n _ _ # ds) = builds (n # own) ds"
| "builds own (Create_index _ n _ _ # ds) = (n \<in> set own \<and> builds own ds)"
| "builds own (_ # ds) = False"

fun created :: "ddl list \<Rightarrow> str list" where
  "created [] = []"
| "created (Create_table n _ _ # ds) = n # created ds"
| "created (_ # ds) = created ds"

fun removes :: "str list \<Rightarrow> ddl list \<Rightarrow> bool" where
  "removes own [] = True"
| "removes own (Drop_table n # ds) = (n \<in> set own \<and> removes own ds)"
| "removes own (Drop_index _ n # ds) = (n \<in> set own \<and> removes own ds)"
| "removes own (_ # ds) = False"

fun dropped :: "ddl list \<Rightarrow> str list" where
  "dropped [] = []"
| "dropped (Drop_table n # ds) = n # dropped ds"
| "dropped (_ # ds) = dropped ds"

definition reversible :: "revision \<Rightarrow> bool" where
  "reversible r \<longleftrightarrow> builds [] (rv_upgrade r) \<and> removes (created (rv_upgrade r)) (rv_downgrade r) \<and>
     list_all (\<lambda>n. n \<in> set (dropped (rv_downgrade r))) (created (rv_upgrade r))"

lemma replace_table_append: "replace_table t (s @ u) = replace_table t s @ replace_table t u"
  by (simp add: replace_table_def)

lemma replace_table_names: "tb_name ` set (replace_table t s) = tb_name ` set s"
  by (induction s) (auto simp: replace_table_def)

lemma replace_table_absent: "tb_name t \<notin> tb_name ` set s \<Longrightarrow> replace_table t s = s"
  by (induction s) (auto simp: replace_table_def)

lemma builds_grows:
  assumes "builds own ds" "run_all ds (s @ new) = Some s'" "tb_name ` set s \<inter> set own = {}"
    "tb_name ` set new = set own"
  shows "\<exists>new'. s' = s @ new' \<and> tb_name ` set new' = set own \<union> set (created ds) \<and>
    tb_name ` set s \<inter> set (created ds) = {}"
  using assms
proof (induction own ds arbitrary: new rule: builds.induct)
  case (2 own n cols cons ds)
  let ?t = "\<lparr>tb_name = n, tb_columns = cols, tb_constraints = cons, tb_indexes = []\<rparr>"
  have r: "run_all ds (s @ (new @ [?t])) = Some s'" "n \<notin> set (relations (s @ new))"
    using "2.prems"(2) by (auto simp: Let_def relations_of_def split: if_splits)
  then have "n \<notin> tb_name ` set s" by (auto simp: relations_def relations_of_def)
  then show ?case using "2.IH" [OF _ r(1)] "2.prems" by auto
next
  case (3 own i n cs u ds)
  obtain t where t: "find_table n (s @ new) = Some t"
    "run_all ds (replace_table (t\<lparr>tb_indexes := tb_indexes t @ [(i, cs, u)]\<rparr>) (s @ new)) = Some s'"
    using "3.prems"(2) by (auto split: option.splits if_splits)
  let ?t = "t\<lparr>tb_indexes := tb_indexes t @ [(i, cs, u)]\<rparr>"
  have n: "tb_name ?t = n" using find_table_SomeD [OF t(1)] by simp
  then have "replace_table ?t s = s" using "3.prems"(1,3) by (intro replace_table_absent) auto
  then have "run_all ds (s @ replace_table ?t new) = Some s'" using t(2) by (simp add: replace_table_append)
  then show ?case using "3.IH" [of "replace_table ?t new"] "3.prems" by (simp add: replace_table_names)
qed auto

lemma removes_shrinks:
  assumes "removes own ds" "run_all ds (s @ new) = Some s'" "tb_name ` set s \<inter> set own = {}"
    "tb_name ` set new \<subseteq> set own"
  shows "\<exists>new'. s' = s @ new' \<and> tb_name ` set new' \<subseteq> tb_name ` set new - set (dropped ds)"
  using assms
proof (induction own ds arbitrary: new rule: removes.induct)
  case (2 own n ds)
  have "run_all ds (filter (\<lambda>t. tb_name t \<noteq> n) s @ filter (\<lambda>t. tb_name t \<noteq> n) new) = Some s'"
    using "2.prems"(2) by (auto split: option.splits if_splits)
  moreover have "filter (\<lambda>t. tb_name t \<noteq> n) s = s" using "2.prems"(1,3) by (intro filter_True) auto
  ultimately have r: "run_all ds (s @ filter (\<lambda>t. tb_name t \<noteq> n) new) = Some s'" by simp
  have f: "tb_name ` set (filter (\<lambda>t. tb_name t \<noteq> n) new) = tb_name ` set new - {n}" by auto
  have "removes own ds" using "2.prems"(1) by simp
  moreover have "tb_name ` set (filter (\<lambda>t. tb_name t \<noteq> n) new) \<subseteq> set own" using "2.prems"(4) by auto
  ultimately obtain new' where "s' = s @ new'" "tb_name ` set new' \<subseteq> tb_name ` set new - {n} - set (dropped ds)"
    using "2.IH" [OF _ r "2.prems"(3)] unfolding f by blast
  then show ?case by (intro exI [of _ new']) auto
next
  case (3 own i n ds)
  obtain t t' where t: "find_table n (s @ new) = Some t" "t' = t\<lparr>tb_indexes := filter (\<lambda>x. fst x \<noteq> i) (tb_indexes t)\<rparr>"
    "run_all ds (replace_table t' (s @ new)) = Some s'"
    using "3.prems"(2) by (auto simp: Let_def split: option.splits if_splits)
  have n: "tb_name t' = n" using find_table_SomeD [OF t(1)] t(2) by simp
  then have "replace_table t' s = s" using "3.prems"(1,3) by (intro replace_table_absent) auto
  then have "run_all ds (s @ replace_table t' new) = Some s'" using t(3) by (simp add: replace_table_append)
  then show ?case using "3.IH" [of "replace_table t' new"] "3.prems" by (simp add: replace_table_names)
qed auto

lemma revision_undone:
  assumes "reversible r" "run_all (rv_upgrade r) s = Some s'" "run_all (rv_downgrade r) s' = Some s''"
  shows "s'' = s"
proof -
  let ?own = "created (rv_upgrade r)"
  obtain new where new: "s' = s @ new" "tb_name ` set new = set ?own" "tb_name ` set s \<inter> set ?own = {}"
    using builds_grows [of "[]" "rv_upgrade r" s "[]" s'] assms(1,2) by (auto simp: reversible_def)
  then obtain new' where n: "s'' = s @ new'" "tb_name ` set new' \<subseteq> set ?own - set (dropped (rv_downgrade r))"
    using removes_shrinks [of ?own "rv_downgrade r" s new s''] assms(1,3) by (auto simp: reversible_def)
  have "set ?own \<subseteq> set (dropped (rv_downgrade r))" using assms(1) by (auto simp: reversible_def list_all_iff)
  then have "set ?own - set (dropped (rv_downgrade r)) = {}" by (simp add: Diff_eq_empty_iff)
  then have "new' = []" using n(2) by (simp only: subset_empty image_is_empty set_empty)
  then show ?thesis using n(1) by simp
qed

lemma revisions_reversible: "list_all reversible revisions \<and> chained None revisions"
  by code_simp

lemma all_the_way: "Option.bind (schema_at 3) (downgrade_by 3 3) \<noteq> None"
  by code_simp

lemma schema_at_ok: "schema_at n = Some s \<Longrightarrow> schema_ok s"
proof (induction n arbitrary: s)
  case 0
  then show ?case by (simp add: schema_ok_def relations_def)
next
  case (Suc n)
  then show ?case using run_all_ok by (auto simp: bind_eq_Some_conv)
qed

lemma one_step_down:
  assumes "n < 3" "schema_at (Suc n) = Some s'" "run_all (rv_downgrade (revisions ! n)) s' \<noteq> None"
  shows "run_all (rv_downgrade (revisions ! n)) s' = schema_at n"
proof -
  obtain s s'' where s: "schema_at n = Some s" "run_all (rv_upgrade (revisions ! n)) s = Some s'"
    "run_all (rv_downgrade (revisions ! n)) s' = Some s''"
    using assms(2,3) by (auto simp: bind_eq_Some_conv)
  have "reversible (revisions ! n)"
    using revisions_reversible assms(1) by (auto simp: list_all_length revisions_def)
  then show ?thesis using revision_undone [OF _ s(2,3)] s(1,3) by simp
qed

lemma steps_down:
  assumes "n < 3"
  shows "\<exists>s s'. schema_at (Suc n) = Some s' \<and> schema_at n = Some s \<and> run_all (rv_downgrade (revisions ! n)) s' = Some s"
proof -
  obtain s3 t where s3: "schema_at 3 = Some s3" "downgrade_by 3 3 s3 = Some t"
    using all_the_way by (auto simp: bind_eq_Some_conv)
  have down: "downgrade_by (Suc k) (Suc m) s = Option.bind (run_all (rv_downgrade (revisions ! m)) s) (downgrade_by k m)" for k m s
    by simp
  have step: "\<exists>s. schema_at m = Some s \<and> run_all (rv_downgrade (revisions ! m)) s' = Some s \<and> (\<exists>t. downgrade_by k m s = Some t)"
    if h: "m < 3" "schema_at (Suc m) = Some s'" "downgrade_by (Suc k) (Suc m) s' = Some t" for m k s' t
  proof -
    obtain s where s: "run_all (rv_downgrade (revisions ! m)) s' = Some s" "downgrade_by k m s = Some t"
      using h(3) by (auto simp: bind_eq_Some_conv)
    have "run_all (rv_downgrade (revisions ! m)) s' = schema_at m" by (rule one_step_down [OF h(1,2)]) (simp add: s)
    then have "schema_at m = Some s" using s(1) by simp
    then show ?thesis using s by auto
  qed
  have e: "(3::nat) = Suc 2" "(2::nat) = Suc 1" "(1::nat) = Suc 0" by simp_all
  obtain s2 where s2: "schema_at 2 = Some s2" "run_all (rv_downgrade (revisions ! 2)) s3 = Some s2" "\<exists>t. downgrade_by 2 2 s2 = Some t"
    using step [of 2 s3 2 t] s3 unfolding e(1) by auto
  obtain s1 where s1: "schema_at 1 = Some s1" "run_all (rv_downgrade (revisions ! 1)) s2 = Some s1" "\<exists>t. downgrade_by 1 1 s1 = Some t"
    using step [of 1 s2 1] s2 unfolding e(2) by auto
  obtain s0 where s0: "schema_at 0 = Some s0" "run_all (rv_downgrade (revisions ! 0)) s1 = Some s0"
    using step [of 0 s1 0] s1 unfolding e(3) by auto
  consider "n = 0" | "n = 1" | "n = 2" using assms by linarith
  then show ?thesis
  proof cases
    case 1
    then show ?thesis using s1 s0 e(3) by metis
  next
    case 2
    then show ?thesis using s2 s1 e(2) by metis
  next
    case 3
    then show ?thesis using s3 s2 e(1) by metis
  qed
qed

text \<open>C34: The migrations are reversible: each revision names the one before it, upgrading an empty database to any revision succeeds with a well-formed schema, and going down from there by any number of revisions succeeds and gives exactly the schema of the revision reached.\<close>

theorem migrations_roundtrip:
  assumes "k \<le> n" "n \<le> 3"
  shows "chained None revisions \<and> (\<exists>s. schema_at n = Some s \<and> schema_ok s \<and> downgrade_by k n s = schema_at (n - k) \<and>
    schema_at (n - k) \<noteq> None)"
proof -
  have "\<exists>s. schema_at n = Some s \<and> downgrade_by k n s = schema_at (n - k) \<and> schema_at (n - k) \<noteq> None"
    using assms
  proof (induction k arbitrary: n)
    case 0
    show ?case
    proof (cases n)
      case (Suc m)
      then show ?thesis using steps_down [of m] 0 by auto
    qed simp
  next
    case (Suc k)
    then obtain m where m: "n = Suc m" "k \<le> m" "m < 3" by (cases n) auto
    then show ?case using steps_down [OF m(3)] Suc.IH [OF m(2)] by fastforce
  qed
  then show ?thesis using revisions_reversible schema_at_ok by blast
qed

theorem migrations_roundtrip_witness:
  "\<exists>s. schema_at 3 = Some s \<and> downgrade_by 3 3 s = Some []"
  using migrations_roundtrip [of 3 3] by auto

text \<open>C35: The migrations build what the models declare: after the last revision the database has the tables of the models and no others, each with the same columns (type, nullability, default), keys, checks, foreign keys and indexes; the names agree too, except for those of the two foreign keys of approvals, which do not follow the naming convention of the models.\<close>

theorem migrations_match_models:
  "\<exists>s. schema_at 3 = Some s \<and> list_all2 same_table s (map table_of_model models) \<and>
    list_all2 (\<lambda>t u. same_names t u \<longleftrightarrow> tb_name t \<noteq> ''approvals'') s (map table_of_model models)"
proof -
  have "case schema_at 3 of None \<Rightarrow> False | Some s \<Rightarrow> list_all2 same_table s (map table_of_model models)"
    by code_simp
  moreover have "case schema_at 3 of None \<Rightarrow> False
    | Some s \<Rightarrow> list_all2 (\<lambda>t u. same_names t u \<longleftrightarrow> tb_name t \<noteq> ''approvals'') s (map table_of_model models)"
    by code_simp
  ultimately show ?thesis by (auto split: option.splits)
qed

end
