(* ===== verification/Seed.thy ===== *)
theory Seed
  imports System
begin

section \<open>Seeding the catalogue\<close>

text \<open>
  \<open>src/scripts/seed_data.py\<close>: the services and the deployment history that an installation starts
  with, written in one transaction. The docstring promises that running it again changes nothing;
  that is the property here, from any state the system can be in. The object a service has in the
  session is the row itself, so the three assignments of its columns are one update. All the
  values are constants that fit their columns.
\<close>

definition days :: "int \<Rightarrow> time" where
  "days n = seconds (n * 86400)"

type_synonym service_seed = "str \<times> str \<times> str \<times> str"
type_synonym deployment_seed = "str \<times> str \<times> str \<times> str \<times> str \<times> time"

definition SERVICES :: "service_seed list" where
  "SERVICES = [
     (''checkout-api'', ''staging'', ''v1.4.1'', ''payments-team''),
     (''payment-api'', ''staging'', ''v2.8.0'', ''payments-team''),
     (''auth-api'', ''staging'', ''v3.1.5'', ''identity-team'')]"

definition DEPLOYMENTS :: "deployment_seed list" where
  "DEPLOYMENTS = [
     (''checkout-api'', ''v1.4.1'', ''v1.4.0'', ''a91f3c2'', ''ci-bot'', days 3),
     (''checkout-api'', ''v1.4.0'', ''v1.3.9'', ''77bd10e'', ''ci-bot'', days 9),
     (''payment-api'', ''v2.8.0'', ''v2.7.4'', ''3ce8891'', ''ci-bot'', days 1),
     (''auth-api'', ''v3.1.5'', ''v3.1.4'', ''b220af7'', ''ci-bot'', days 6)]"

fun seed_service :: "service_seed \<Rightarrow> world \<Rightarrow> service \<times> world" where
  "seed_service (name, environment, version, team) w =
     (case List.find (\<lambda>s. sv_name s = name) (services (work w)) of
        None \<Rightarrow> add_service (\<lambda>u. \<lparr>sv_id = u, sv_name = name, sv_environment = environment,
          sv_current_version = Some version, sv_owner_team = Some team\<rparr>) w
      | Some s \<Rightarrow>
          let r = s\<lparr>sv_environment := environment, sv_current_version := Some version, sv_owner_team := Some team\<rparr>
          in (r, set_service r w))"

text \<open>The dictionary \<open>services\<close> is a map from the names.\<close>

fun seed_services :: "service_seed list \<Rightarrow> (str \<rightharpoonup> service) \<Rightarrow> world \<Rightarrow> (str \<rightharpoonup> service) \<times> world" where
  "seed_services [] svs w = (svs, w)"
| "seed_services (x # xs) svs w = (case seed_service x w of (s, w1) \<Rightarrow> seed_services xs (svs(fst x \<mapsto> s)) w1)"

fun seed_deployment :: "time \<Rightarrow> (str \<rightharpoonup> service) \<Rightarrow> deployment_seed \<Rightarrow> (world, unit) op" where
  "seed_deployment now svs (name, version, previous, sha, actor, ago) w =
     (case svs name of
        None \<Rightarrow> (Inl (KeyErr name), w)
      | Some s \<Rightarrow>
          if list_ex (\<lambda>d. dp_service d = sv_id s \<and> dp_version d = version) (deployments (work w)) then (Inr (), w)
          else (Inr (), snd (add_deployment (\<lambda>u. \<lparr>dp_id = u, dp_service = sv_id s, dp_version = version,
            dp_previous_version = Some previous, dp_commit_sha = Some sha, dp_deployed_by = Some actor,
            dp_status = Dep_SUCCEEDED, dp_deployed_at = now - ago, dp_metadata = []\<rparr>) w)))"

fun seed_deployments :: "time \<Rightarrow> (str \<rightharpoonup> service) \<Rightarrow> deployment_seed list \<Rightarrow> (world, unit) op" where
  "seed_deployments now svs [] w = (Inr (), w)"
| "seed_deployments now svs (x # xs) w =
     bind (seed_deployment now svs x w) (\<lambda>_ w1. seed_deployments now svs xs w1)"

definition seed_main :: "(world, unit) op" where
  "seed_main w =
     (let (now, w1) = utc_now w; (svs, w2) = seed_services SERVICES Map.empty w1;
          (out, w3) = then_commit (seed_deployments now svs DEPLOYMENTS w2)
      in (out, close_session w3))"

subsection \<open>What the entries stand for\<close>

text \<open>An entry is seeded when its row is there; \<open>seed_frame\<close>: nothing but the catalogue changes, no other service does.\<close>

fun service_seeded :: "db \<Rightarrow> service_seed \<Rightarrow> bool" where
  "service_seeded d (name, environment, version, team) = (\<exists>s \<in> set (services d). sv_name s = name \<and>
     sv_environment s = environment \<and> sv_current_version s = Some version \<and> sv_owner_team s = Some team)"

fun deployment_seeded :: "db \<Rightarrow> deployment_seed \<Rightarrow> bool" where
  "deployment_seeded d (name, version, rest) = (\<exists>s \<in> set (services d). \<exists>x \<in> set (deployments d).
     sv_name s = name \<and> dp_service x = sv_id s \<and> dp_version x = version)"

text \<open>
  The row that an entry adds: the listed values, deployed the listed time before the script read
  the clock. \<open>history_grown\<close>: the history is kept and grows by one such row for each entry that
  was not recorded, in the order of the list.
\<close>

fun seed_row :: "db \<Rightarrow> time \<Rightarrow> deployment_seed \<Rightarrow> deployment_event \<Rightarrow> bool" where
  "seed_row d now (name, version, previous, sha, actor, ago) x \<longleftrightarrow>
     (\<exists>s \<in> set (services d). sv_name s = name \<and> dp_service x = sv_id s) \<and>
     dp_version x = version \<and> dp_previous_version x = Some previous \<and> dp_commit_sha x = Some sha \<and>
     dp_deployed_by x = Some actor \<and> dp_status x = Dep_SUCCEEDED \<and> dp_deployed_at x = now - ago \<and> dp_metadata x = []"

definition history_grown :: "db \<Rightarrow> db \<Rightarrow> time \<Rightarrow> deployment_seed list \<Rightarrow> bool" where
  "history_grown d d' now xs \<longleftrightarrow> (\<exists>rows. deployments d' = deployments d @ rows \<and>
     list_all2 (seed_row d' now) (filter (\<lambda>x. \<not> deployment_seeded d x) xs) rows)"

definition entry_key :: "deployment_seed \<Rightarrow> str \<times> str" where
  "entry_key x = (fst x, fst (snd x))"

declare seed_row.simps [simp del] service_seeded.simps [simp del] deployment_seeded.simps [simp del] split_paired_All [simp del]

lemmas seeded_simps = service_seeded.simps deployment_seeded.simps

definition others :: "db \<Rightarrow> service list" where
  "others d = filter (\<lambda>s. sv_name s \<notin> fst ` set SERVICES) (services d)"

definition seed_frame :: "db \<Rightarrow> db \<Rightarrow> bool" where
  "seed_frame d d' \<longleftrightarrow> d' = d\<lparr>services := services d', deployments := deployments d'\<rparr> \<and> others d' = others d \<and>
     set (deployments d) \<subseteq> set (deployments d') \<and>
     (\<forall>s \<in> set (services d). \<exists>s' \<in> set (services d'). sv_id s' = sv_id s \<and> sv_name s' = sv_name s)"

lemma seed_frame_refl: "seed_frame d d"
  by (auto simp: seed_frame_def)

lemma seed_frame_trans: "seed_frame a b \<Longrightarrow> seed_frame b c \<Longrightarrow> seed_frame a c"
proof -
  assume ab: "seed_frame a b" and bc: "seed_frame b c"
  have "c = a\<lparr>services := services c, deployments := deployments c\<rparr>"
    using ab bc by (cases a; cases b; cases c) (simp add: seed_frame_def)
  moreover have "\<exists>s' \<in> set (services c). sv_id s' = sv_id s \<and> sv_name s' = sv_name s" if "s \<in> set (services a)" for s
    using that ab bc unfolding seed_frame_def by metis
  moreover have "others c = others a" "set (deployments a) \<subseteq> set (deployments c)"
    using ab bc unfolding seed_frame_def by (metis, metis order_trans)
  ultimately show ?thesis unfolding seed_frame_def by (intro conjI ballI)
qed

lemma deployment_seeded_mono: "seed_frame d d' \<Longrightarrow> deployment_seeded d x \<Longrightarrow> deployment_seeded d' x"
  by (cases x) (fastforce simp: seed_frame_def seeded_simps)

lemma find_by_name:
  assumes "distinct (map sv_name t)" "s \<in> set t"
  shows "List.find (\<lambda>r. sv_name r = sv_name s) t = Some s"
  using assms by (induction t) (auto simp: image_iff)

lemma filter_row_set:
  "\<forall>q \<in> set t. key q = key r \<longrightarrow> \<not> P q \<Longrightarrow> \<not> P r \<Longrightarrow> filter P (row_set key r t) = filter P t"
  by (induction t) (auto simp: row_set_def)

lemma seed_row_same: "services d' = services d \<Longrightarrow> seed_row d' now x = seed_row d now x"
  by (cases x) (simp add: fun_eq_iff seed_row.simps)

text \<open>The services that are written first do not change what is recorded.\<close>

lemma deployment_seeded_frame:
  assumes "seed_frame d d'" "db_ok d" "db_ok d'" "deployments d' = deployments d"
  shows "deployment_seeded d' x = deployment_seeded d x"
proof
  obtain n v rest where x: "x = (n, v, rest)" by (metis prod.collapse)
  assume "deployment_seeded d' x"
  then obtain t p where t: "t \<in> set (services d')" "sv_name t = n" "p \<in> set (deployments d)" "dp_service p = sv_id t"
    "dp_version p = v"
    using assms(4) by (auto simp: x seeded_simps)
  have "dp_service p \<in> keys sv_id (services d)" using assms(2) t(3) by (simp add: db_ok_def deployments_ok_def)
  then obtain q where q: "q \<in> set (services d)" "sv_id q = sv_id t" using t(4) by (auto simp: keys_def)
  then obtain t' where t': "t' \<in> set (services d')" "sv_id t' = sv_id t" "sv_name t' = sv_name q"
    using assms(1) unfolding seed_frame_def by metis
  have "distinct (map sv_id (services d'))" using assms(3) by (simp add: db_ok_def services_ok_def)
  then have "t' = t" using row_get_unique t'(1,2) t(1) by (metis option.inject)
  then show "deployment_seeded d x"
    unfolding x seeded_simps using q t t'(3) by (intro bexI [of _ q] bexI [of _ p]) simp_all
qed (rule deployment_seeded_mono [OF assms(1)])

text \<open>An entry whose row is there already is left alone.\<close>

lemma seed_service_again:
  assumes "service_seeded (work w) x" "db_ok (work w)"
  shows "\<exists>s \<in> set (services (work w)). sv_name s = fst x \<and> seed_service x w = (s, w)"
proof -
  obtain n e v t where x: "x = (n, e, v, t)" by (metis prod.collapse)
  obtain s where s: "s \<in> set (services (work w))" "sv_name s = n" "sv_environment s = e"
    "sv_current_version s = Some v" "sv_owner_team s = Some t"
    using assms(1) by (auto simp: x seeded_simps)
  have d: "distinct (map sv_name (services (work w)))" "distinct (map sv_id (services (work w)))"
    using assms(2) by (simp_all add: db_ok_def services_ok_def)
  have f: "List.find (\<lambda>r. sv_name r = n) (services (work w)) = Some s" using find_by_name [OF d(1) s(1)] s(2) by simp
  have r: "s\<lparr>sv_environment := e, sv_current_version := Some v, sv_owner_team := Some t\<rparr> = s" using s(3-5) by simp
  have "set_service s w = w" using row_set_self [OF d(2) s(1)] by (simp add: set_service_def with_work_def)
  then show ?thesis using s(1,2) by (simp add: x f r Let_def)
qed

lemma seed_service_effect:
  assumes "seed_service x w = (s, w')" "system_inv py w" "fst x \<in> fst ` set SERVICES"
  shows "system_inv py w' \<and> service_seeded (work w') x \<and> s \<in> set (services (work w')) \<and> sv_name s = fst x \<and>
    seed_frame (work w) (work w') \<and> deployments (work w') = deployments (work w) \<and>
    (\<forall>y. fst y \<noteq> fst x \<longrightarrow> service_seeded (work w) y \<longrightarrow> service_seeded (work w') y)"
proof -
  obtain n e v t where x: "x = (n, e, v, t)" by (metis prod.collapse)
  note ok = system_invD(3) [OF assms(2)] and db = system_invD(4) [OF assms(2)]
  have dn: "distinct (map sv_name (services (work w)))" "distinct (map sv_id (services (work w)))"
    using db by (simp_all add: db_ok_def services_ok_def)
  have n: "n \<in> fst ` set SERVICES" using assms(3) by (simp add: x)
  have frame: "system_inv py w'"
    if "world_ok w'" "work w' = (work w)\<lparr>services := services (work w')\<rparr>" "saved w' = saved w" "now_of w' = now_of w"
  proof (rule system_inv_catalogue [OF assms(2) that(1) _ _ that(3,4)])
    show "same_investigations (work w) (work w')" by (subst that(2)) (simp add: same_investigations_def)
    show "same_groups (work w) (work w')" by (subst that(2)) (simp add: same_groups_def)
  qed
  show ?thesis
  proof (cases "List.find (\<lambda>s. sv_name s = n) (services (work w))")
    case None
    let ?mk = "\<lambda>u. \<lparr>sv_id = u, sv_name = n, sv_environment = e, sv_current_version = Some v, sv_owner_team = Some t\<rparr>"
    have new: "(s, w') = add_service ?mk w" using assms(1) None by (simp add: x)
    have "n \<notin> keys sv_name (services (work w))" using None by (auto simp: find_None_iff keys_def)
    then have "world_ok (snd (add_service ?mk w))" by (intro add_service_ok ok) simp_all
    then have "world_ok w'" by (simp add: new [symmetric])
    moreover have w': "services (work w') = services (work w) @ [s]" "sv_name s = n" "service_seeded (work w') x"
      "work w' = (work w)\<lparr>services := services (work w) @ [s]\<rparr>" "saved w' = saved w" "now_of w' = now_of w"
      using new by (auto simp: add_service_def new_uuid_def with_work_def now_of_def x seeded_simps)
    ultimately have i: "system_inv py w'" by (intro frame) simp_all
    have sv: "set (services (work w')) = insert s (set (services (work w)))" by (simp add: w'(1))
    have "others (work w') = others (work w)" using n by (simp add: others_def w'(1,2))
    moreover have "work w' = (work w)\<lparr>services := services (work w'), deployments := deployments (work w')\<rparr>"
      unfolding w'(4) by simp
    moreover have "deployments (work w') = deployments (work w)" by (simp add: w'(4))
    ultimately have "seed_frame (work w) (work w')" unfolding seed_frame_def sv
      by (intro conjI ballI) auto
    moreover have "service_seeded (work w') y" if "service_seeded (work w) y" for y
      using that sv by (cases y) (auto simp: seeded_simps)
    moreover have "deployments (work w') = deployments (work w)" by (simp add: w'(4))
    ultimately show ?thesis using i w'(2,3) sv by (simp add: x)
  next
    case (Some q)
    let ?r = "q\<lparr>sv_environment := e, sv_current_version := Some v, sv_owner_team := Some t\<rparr>"
    have q: "q \<in> set (services (work w))" "sv_name q = n" using Some by (auto simp: find_Some_iff)
    have w': "s = ?r" "w' = set_service ?r w" using assms(1) Some by (auto simp: x Let_def)
    have one: "p = q" if "p \<in> set (services (work w))" "sv_id p = sv_id q" for p
      using row_get_unique [OF dn(2) that(1)] row_get_unique [OF dn(2) q(1)] that(2) by (metis option.inject)
    have g: "get_service w (sv_id q) = Some q" using dn(2) q(1) by (intro row_get_unique) simp_all
    then have "world_ok w'" unfolding w' by (intro set_service_ok [OF ok, where q = q]) simp_all
    then have i: "system_inv py w'" by (rule frame) (simp_all add: w' write_defs now_of_def)
    have sv: "p \<in> set (services (work w')) \<longleftrightarrow> p = ?r \<or> p \<in> set (services (work w)) \<and> p \<noteq> q" for p
      using one q(1) by (auto simp: w' write_defs set_row_set keys_def)
    have "others (work w') = others (work w)"
      unfolding others_def w' set_service_def with_work_def
      by (simp, rule filter_row_set) (use one n q(2) in \<open>auto\<close>)
    moreover have dp: "deployments (work w') = deployments (work w)" by (simp add: w' write_defs)
    moreover have "work w' = (work w)\<lparr>services := services (work w'), deployments := deployments (work w')\<rparr>"
      unfolding w' set_service_def with_work_def by simp
    moreover have "\<exists>p' \<in> set (services (work w')). sv_id p' = sv_id p \<and> sv_name p' = sv_name p"
      if "p \<in> set (services (work w))" for p
    proof (cases "p = q")
      case True
      then show ?thesis using sv [of ?r] by (intro bexI [of _ ?r]) simp_all
    next
      case False
      then show ?thesis using sv [of p] that by blast
    qed
    ultimately have "seed_frame (work w) (work w')"
      unfolding seed_frame_def by (intro conjI ballI) simp_all
    moreover have "service_seeded (work w') y" if "fst y \<noteq> fst x" "service_seeded (work w) y" for y
      using that sv q(2) by (cases y) (auto simp: x seeded_simps)
    moreover have r: "s \<in> set (services (work w'))" "sv_name s = fst x"
      using sv [of ?r] q(2) by (simp_all add: x w'(1))
    moreover have "service_seeded (work w') x"
      unfolding x seeded_simps using r by (intro bexI [of _ s]) (simp_all add: x w'(1))
    ultimately show ?thesis using i dp by blast
  qed
qed


lemma seed_services_effect:
  assumes "seed_services xs svs w = (svs', w')" "system_inv py w" "fst ` set xs \<subseteq> fst ` set SERVICES" "distinct (map fst xs)"
    and "\<forall>n s. svs n = Some s \<longrightarrow> (\<exists>r \<in> set (services (work w)). sv_id r = sv_id s \<and> sv_name r = n)"
  shows "system_inv py w' \<and> (\<forall>x \<in> set xs. service_seeded (work w') x) \<and> seed_frame (work w) (work w') \<and>
    deployments (work w') = deployments (work w) \<and>
    (\<forall>y. fst y \<notin> fst ` set xs \<longrightarrow> service_seeded (work w) y \<longrightarrow> service_seeded (work w') y) \<and>
    (\<forall>n s. svs' n = Some s \<longrightarrow> (\<exists>r \<in> set (services (work w')). sv_id r = sv_id s \<and> sv_name r = n)) \<and>
    dom svs' = dom svs \<union> fst ` set xs"
  using assms
proof (induction xs arbitrary: svs w)
  case Nil
  then show ?case by (simp add: seed_frame_refl)
next
  case (Cons x xs)
  obtain s w1 where x: "seed_service x w = (s, w1)" by fastforce
  have e: "system_inv py w1" "service_seeded (work w1) x" "s \<in> set (services (work w1))" "sv_name s = fst x"
    "seed_frame (work w) (work w1)" "deployments (work w1) = deployments (work w)"
    "\<forall>y. fst y \<noteq> fst x \<longrightarrow> service_seeded (work w) y \<longrightarrow> service_seeded (work w1) y"
    using seed_service_effect [OF x Cons.prems(2)] Cons.prems(3) by simp_all
  have m: "\<forall>n s'. (svs(fst x \<mapsto> s)) n = Some s' \<longrightarrow> (\<exists>r \<in> set (services (work w1)). sv_id r = sv_id s' \<and> sv_name r = n)"
  proof (intro allI impI)
    fix n s' assume h: "(svs(fst x \<mapsto> s)) n = Some s'"
    show "\<exists>r \<in> set (services (work w1)). sv_id r = sv_id s' \<and> sv_name r = n"
    proof (cases "n = fst x")
      case True
      then show ?thesis using h e(3,4) by auto
    next
      case False
      then obtain r where "r \<in> set (services (work w))" "sv_id r = sv_id s'" "sv_name r = n"
        using h Cons.prems(5) by auto
      then show ?thesis using e(5) unfolding seed_frame_def by metis
    qed
  qed
  have "seed_services xs (svs(fst x \<mapsto> s)) w1 = (svs', w')" using Cons.prems(1) by (simp add: x)
  note f = Cons.IH [OF this e(1) _ _ m]
  then have f: "system_inv py w'" "\<forall>y \<in> set xs. service_seeded (work w') y" "seed_frame (work w1) (work w')"
    "deployments (work w') = deployments (work w1)"
    "\<forall>y. fst y \<notin> fst ` set xs \<longrightarrow> service_seeded (work w1) y \<longrightarrow> service_seeded (work w') y"
    "\<forall>n s. svs' n = Some s \<longrightarrow> (\<exists>r \<in> set (services (work w')). sv_id r = sv_id s \<and> sv_name r = n)"
    "dom svs' = insert (fst x) (dom svs) \<union> fst ` set xs"
    using Cons.prems(3,4) by (simp_all del: fun_upd_apply)
  have "service_seeded (work w') x" using f(5) e(2) Cons.prems(4) by simp
  moreover have "\<forall>y. fst y \<notin> fst ` set (x # xs) \<longrightarrow> service_seeded (work w) y \<longrightarrow> service_seeded (work w') y"
    using e(7) f(5) by simp
  ultimately show ?case using f(1-4,6,7) e(6) seed_frame_trans [OF e(5) f(3)] by simp
qed

lemma seed_services_again:
  assumes "\<forall>x \<in> set xs. service_seeded (work w) x" "db_ok (work w)"
  shows "\<exists>svs'. seed_services xs svs w = (svs', w)"
  using assms(1)
proof (induction xs arbitrary: svs)
  case (Cons x xs)
  obtain s where "seed_service x w = (s, w)" using seed_service_again [of w x] Cons.prems assms(2) by auto
  then show ?case using Cons.IH [of "svs(fst x \<mapsto> s)"] Cons.prems by (simp del: fun_upd_apply)
qed simp

lemma seed_deployment_effect:
  assumes "seed_deployment now svs x w = (out, w')" "system_inv py w" "svs (fst x) = Some s"
    "r \<in> set (services (work w))" "sv_id r = sv_id s" "sv_name r = fst x"
  shows "out = Inr () \<and> system_inv py w' \<and> seed_frame (work w) (work w') \<and> services (work w') = services (work w) \<and>
    deployment_seeded (work w') x \<and>
    (if deployment_seeded (work w) x then w' = w
     else \<exists>row. deployments (work w') = deployments (work w) @ [row] \<and> seed_row (work w) now x row)"
proof -
  obtain n v p c a t where x: "x = (n, v, p, c, a, t)" by (metis prod.collapse)
  note ok = system_invD(3) [OF assms(2)]
  have dn: "distinct (map sv_name (services (work w)))"
    using system_invD(4) [OF assms(2)] by (simp add: db_ok_def services_ok_def)
  show ?thesis
  proof (cases "list_ex (\<lambda>d. dp_service d = sv_id s \<and> dp_version d = v) (deployments (work w))")
    case True
    then have "out = Inr ()" and w': "w' = w" using assms(1,3) by (simp_all add: x)
    moreover obtain d where "d \<in> set (deployments (work w))" "dp_service d = sv_id r" "dp_version d = v"
      using True assms(5) by (auto simp: list_ex_iff)
    then have "deployment_seeded (work w) x"
      unfolding x seeded_simps using assms(4,6) by (intro bexI [of _ r] bexI [of _ d]) (simp_all add: x)
    ultimately show ?thesis using assms(2) by (simp add: seed_frame_refl)
  next
    case False
    have new: "\<not> deployment_seeded (work w) x"
    proof
      assume "deployment_seeded (work w) x"
      then obtain q d where q: "q \<in> set (services (work w))" "sv_name q = n" "d \<in> set (deployments (work w))"
        "dp_service d = sv_id q" "dp_version d = v"
        by (auto simp: x seeded_simps)
      have "q = r" using find_by_name [OF dn q(1)] find_by_name [OF dn assms(4)] q(2) assms(6) by (simp add: x)
      then show False using False q(3-5) assms(5) by (simp add: list_ex_iff)
    qed
    let ?mk = "\<lambda>u. \<lparr>dp_id = u, dp_service = sv_id s, dp_version = v, dp_previous_version = Some p,
      dp_commit_sha = Some c, dp_deployed_by = Some a, dp_status = Dep_SUCCEEDED, dp_deployed_at = now - t, dp_metadata = []\<rparr>"
    have w': "out = Inr ()" "w' = snd (add_deployment ?mk w)" using assms(1,3) False by (simp_all add: x)
    have "sv_id s \<in> keys sv_id (services (work w))" using assms(4,5) by (metis in_keysI)
    then have "world_ok w'" unfolding w' by (intro add_deployment_ok ok) simp_all
    then have "system_inv py w'"
      by (rule system_inv_catalogue [OF assms(2)])
        (simp_all add: w' write_defs same_investigations_def same_groups_def now_of_def)
    moreover have "seed_frame (work w) (work w')" "services (work w') = services (work w)"
      by (auto simp: w' write_defs seed_frame_def others_def)
    moreover have "deployment_seeded (work w') x"
      unfolding x seeded_simps using assms(4-6) by (intro bexI [of _ r]) (simp_all add: x w' write_defs)
    moreover have "\<exists>row. deployments (work w') = deployments (work w) @ [row] \<and> seed_row (work w) now x row"
      using assms(4-6) by (auto simp: x w' write_defs seed_row.simps)
    ultimately show ?thesis using w'(1) new by simp
  qed
qed


definition names_ids :: "db \<Rightarrow> (str \<rightharpoonup> service) \<Rightarrow> bool" where
  "names_ids d svs \<longleftrightarrow> (\<forall>n s. svs n = Some s \<longrightarrow> (\<exists>r \<in> set (services d). sv_id r = sv_id s \<and> sv_name r = n))"

text \<open>Recording one entry does not record another.\<close>

lemma seeded_other:
  assumes "seed_row (work w) now x row" "deployments d = deployments (work w) @ [row]" "services d = services (work w)"
    "db_ok (work w)" "entry_key y \<noteq> entry_key x"
  shows "deployment_seeded d y = deployment_seeded (work w) y"
proof -
  obtain n v rest where y: "y = (n, v, rest)" by (metis prod.collapse)
  obtain m u p c a t where x: "x = (m, u, p, c, a, t)" by (metis prod.collapse)
  have "distinct (map sv_id (services (work w)))" using assms(4) by (simp add: db_ok_def services_ok_def)
  then have one: "q = r" if "q \<in> set (services (work w))" "r \<in> set (services (work w))" "sv_id q = sv_id r" for q r
    using row_get_unique that by (metis option.inject)
  have "\<not> (\<exists>s \<in> set (services (work w)). sv_name s = n \<and> dp_service row = sv_id s \<and> dp_version row = v)"
    using assms(1,5) one unfolding x y entry_key_def seed_row.simps fst_conv snd_conv by metis
  then show ?thesis unfolding y seeded_simps assms(2,3) by auto
qed

lemma seed_deployments_effect:
  assumes "system_inv py w" "names_ids (work w) svs" "fst ` set xs \<subseteq> dom svs" "distinct (map entry_key xs)"
  shows "\<exists>w'. seed_deployments now svs xs w = (Inr (), w') \<and> system_inv py w' \<and> seed_frame (work w) (work w') \<and>
    services (work w') = services (work w) \<and> (\<forall>x \<in> set xs. deployment_seeded (work w') x) \<and>
    history_grown (work w) (work w') now xs"
  using assms
proof (induction xs arbitrary: w)
  case Nil
  then show ?case by (simp add: seed_frame_refl history_grown_def)
next
  case (Cons x xs)
  obtain s where s: "svs (fst x) = Some s" using Cons.prems(3) by auto
  then obtain r where r: "r \<in> set (services (work w))" "sv_id r = sv_id s" "sv_name r = fst x"
    using Cons.prems(2) unfolding names_ids_def by blast
  obtain out w1 where x: "seed_deployment now svs x w = (out, w1)" by fastforce
  have e: "out = Inr ()" "system_inv py w1" "seed_frame (work w) (work w1)" "services (work w1) = services (work w)"
    "deployment_seeded (work w1) x"
    and h: "if deployment_seeded (work w) x then w1 = w
      else \<exists>row. deployments (work w1) = deployments (work w) @ [row] \<and> seed_row (work w) now x row"
    using seed_deployment_effect [OF x Cons.prems(1) s r] by simp_all
  have "names_ids (work w1) svs" using Cons.prems(2) e(4) by (simp add: names_ids_def)
  then obtain w' where w': "seed_deployments now svs xs w1 = (Inr (), w')" "system_inv py w'" "seed_frame (work w1) (work w')"
    "services (work w') = services (work w1)" "\<forall>y \<in> set xs. deployment_seeded (work w') y"
    "history_grown (work w1) (work w') now xs"
    using Cons.IH [OF e(2)] Cons.prems(3,4) by auto
  moreover have "deployment_seeded (work w') x" by (rule deployment_seeded_mono [OF w'(3) e(5)])
  moreover have "history_grown (work w) (work w') now (x # xs)"
  proof (cases "deployment_seeded (work w) x")
    case True
    then show ?thesis using h w'(6) by (simp add: history_grown_def)
  next
    case False
    then obtain row where row: "deployments (work w1) = deployments (work w) @ [row]" "seed_row (work w) now x row"
      using h by auto
    have "deployment_seeded (work w1) y = deployment_seeded (work w) y" if "y \<in> set xs" for y
      using that Cons.prems(4) by (intro seeded_other [OF row(2,1) e(4) system_invD(4) [OF Cons.prems(1)]]) (auto intro: rev_image_eqI)
    then have "filter (\<lambda>y. \<not> deployment_seeded (work w1) y) xs = filter (\<lambda>y. \<not> deployment_seeded (work w) y) xs"
      by (intro filter_cong) simp_all
    moreover have "seed_row (work w') now x row" using row(2) seed_row_same [of "work w'" "work w"] w'(4) e(4) by simp
    ultimately show ?thesis using w'(6) row(1) False by (auto simp: history_grown_def)
  qed
  ultimately show ?case using x e(1,4) seed_frame_trans [OF e(3) w'(3)] by simp
qed

lemma seed_deployments_again:
  assumes "db_ok (work w)" "names_ids (work w) svs" "fst ` set xs \<subseteq> dom svs" "\<forall>x \<in> set xs. deployment_seeded (work w) x"
  shows "seed_deployments now svs xs w = (Inr (), w)"
  using assms(3,4)
proof (induction xs)
  case (Cons x xs)
  obtain n v rest where x: "x = (n, v, rest)" by (metis prod.collapse)
  obtain p c a t where rest: "rest = (p, c, a, t)" by (metis prod.collapse)
  obtain s where s: "svs n = Some s" using Cons.prems(1) by (auto simp: x)
  then obtain r where r: "r \<in> set (services (work w))" "sv_id r = sv_id s" "sv_name r = n"
    using assms(2) unfolding names_ids_def by blast
  obtain q d where q: "q \<in> set (services (work w))" "d \<in> set (deployments (work w))" "sv_name q = n"
    "dp_service d = sv_id q" "dp_version d = v"
    using Cons.prems(2) by (auto simp: x seeded_simps)
  have "distinct (map sv_name (services (work w)))" using assms(1) by (simp add: db_ok_def services_ok_def)
  from find_by_name [OF this r(1)] find_by_name [OF this q(1)] have "q = r" using r(3) q(3) by simp
  then have "list_ex (\<lambda>d. dp_service d = sv_id s \<and> dp_version d = v) (deployments (work w))"
    using q r(2) by (auto simp: list_ex_iff)
  then show ?case using Cons s by (simp add: x rest)
qed simp

subsection \<open>Seeding once and again\<close>

lemma service_seeded_same: "services d' = services d \<Longrightarrow> service_seeded d' x = service_seeded d x"
  by (cases x) (simp add: seeded_simps)

lemma seeds_distinct:
  "distinct (map fst SERVICES)" "fst ` set DEPLOYMENTS \<subseteq> fst ` set SERVICES" "distinct (map entry_key DEPLOYMENTS)"
  by (simp_all add: SERVICES_def DEPLOYMENTS_def entry_key_def)

lemma seed_main_effect:
  assumes "system_inv py w"
  shows "\<exists>w'. seed_main w = (Inr (), w') \<and> system_inv py w' \<and> work w' = saved w' \<and> seed_frame (work w) (saved w') \<and>
    (\<forall>x \<in> set SERVICES. service_seeded (saved w') x) \<and> (\<forall>x \<in> set DEPLOYMENTS. deployment_seeded (saved w') x) \<and>
    history_grown (work w) (saved w') (fst (utc_now w)) DEPLOYMENTS"
proof -
  obtain now w1 where n: "utc_now w = (now, w1)" by fastforce
  have i1: "system_inv py w1" "work w1 = work w" using system_inv_utc_now [OF n assms] n by (auto simp: utc_now_def)
  obtain svs w2 where s: "seed_services SERVICES Map.empty w1 = (svs, w2)" by fastforce
  note e = seed_services_effect [OF s i1(1) order_refl seeds_distinct(1)]
  have e2: "system_inv py w2" "\<forall>x \<in> set SERVICES. service_seeded (work w2) x" "seed_frame (work w1) (work w2)"
    "names_ids (work w2) svs" "dom svs = fst ` set SERVICES" "deployments (work w2) = deployments (work w1)"
    using e by (simp_all add: names_ids_def)
  obtain w3 where d: "seed_deployments now svs DEPLOYMENTS w2 = (Inr (), w3)" "system_inv py w3"
    "seed_frame (work w2) (work w3)" "services (work w3) = services (work w2)"
    "\<forall>x \<in> set DEPLOYMENTS. deployment_seeded (work w3) x" "history_grown (work w2) (work w3) now DEPLOYMENTS"
    using seed_deployments_effect [OF e2(1,4), of DEPLOYMENTS now] seeds_distinct(2,3) e2(5) by auto
  have "deployment_seeded (work w2) x = deployment_seeded (work w) x" for x
    using deployment_seeded_frame [OF e2(3) system_invD(4) [OF i1(1)] system_invD(4) [OF e2(1)] e2(6)] i1(2) by simp
  then have grown: "history_grown (work w) (work w3) now DEPLOYMENTS"
    using d(6) e2(6) i1(2) by (simp add: history_grown_def)
  let ?w' = "close_session (commit w3)"
  have m: "seed_main w = (Inr (), ?w')" by (simp add: seed_main_def n s d(1) then_commit_def)
  have "system_inv py ?w'" "work ?w' = saved ?w'" using close_session system_inv_commit [OF d(2)] by auto
  moreover have sv: "saved ?w' = work w3" by (simp add: close_session_def rollback_def commit_def)
  moreover have "seed_frame (work w) (work w3)" using seed_frame_trans [OF e2(3) d(3)] i1(2) by simp
  ultimately show ?thesis using m d(4,5) e2(2) service_seeded_same [of "work w3" "work w2"] grown n by simp
qed

lemma seed_main_again:
  assumes "system_inv py w" "work w = saved w"
    and "\<forall>x \<in> set SERVICES. service_seeded (work w) x" "\<forall>x \<in> set DEPLOYMENTS. deployment_seeded (work w) x"
  shows "\<exists>w'. seed_main w = (Inr (), w') \<and> saved w' = saved w"
proof -
  obtain now w1 where n: "utc_now w = (now, w1)" by fastforce
  have i1: "system_inv py w1" "work w1 = work w" "saved w1 = saved w"
    using system_inv_utc_now [OF n assms(1)] n by (auto simp: utc_now_def)
  note d1 = system_invD(4) [OF i1(1)]
  obtain svs where s: "seed_services SERVICES Map.empty w1 = (svs, w1)"
    using seed_services_again [OF _ d1] assms(3) i1(2) by metis
  note e = seed_services_effect [OF s i1(1) order_refl seeds_distinct(1)]
  have "seed_deployments now svs DEPLOYMENTS w1 = (Inr (), w1)"
    by (rule seed_deployments_again [OF d1]) (use e seeds_distinct(2) assms(4) i1(2) in \<open>simp_all add: names_ids_def\<close>)
  then show ?thesis using assms(2) i1(2,3)
    by (simp add: seed_main_def n s then_commit_def close_session_def rollback_def commit_def)
qed

text \<open>C36: Seeding is idempotent: in every state that satisfies the invariant, with nothing uncommitted, the script succeeds and keeps the invariant. Afterwards every listed service has the listed environment, version and team, every service has kept its identity and no unlisted service was touched; the deployment history is the old one, unchanged, followed by one row for each listed deployment that was not recorded, with the listed version, previous version, commit, actor and age; nothing else of the database was written. Running the script again, at any time, leaves the database exactly as it is.\<close>

theorem seed_idempotent:
  assumes "system_inv py w" "work w = saved w"
  shows "\<exists>w'. seed_main w = (Inr (), w') \<and> system_inv py w' \<and> work w' = saved w' \<and>
    list_all (service_seeded (saved w')) SERVICES \<and> others (saved w') = others (saved w) \<and>
    (\<forall>s \<in> set (services (saved w)). \<exists>s' \<in> set (services (saved w')). sv_id s' = sv_id s \<and> sv_name s' = sv_name s) \<and>
    list_all (deployment_seeded (saved w')) DEPLOYMENTS \<and>
    history_grown (saved w) (saved w') (fst (utc_now w)) DEPLOYMENTS \<and>
    saved w' = (saved w)\<lparr>services := services (saved w'), deployments := deployments (saved w')\<rparr> \<and>
    (\<forall>t. \<exists>w''. seed_main (w'\<lparr>db_now := t\<rparr>) = (Inr (), w'') \<and> saved w'' = saved w')"
proof -
  obtain w' where m: "seed_main w = (Inr (), w')" "system_inv py w'" "work w' = saved w'" "seed_frame (work w) (saved w')"
    "\<forall>x \<in> set SERVICES. service_seeded (saved w') x" "\<forall>x \<in> set DEPLOYMENTS. deployment_seeded (saved w') x"
    and g: "history_grown (work w) (saved w') (fst (utc_now w)) DEPLOYMENTS"
    using seed_main_effect [OF assms(1)] by blast
  have a: "\<exists>w''. seed_main (w'\<lparr>db_now := t\<rparr>) = (Inr (), w'') \<and> saved w'' = saved w'" for t
    using seed_main_again [OF system_inv_db_now [OF m(2)], of t] m(3,5,6) by simp
  note f = m(4) [unfolded assms(2) seed_frame_def]
  show ?thesis unfolding list_all_iff
    by (intro exI [of _ w'] conjI m(1-3,5,6) allI a g [unfolded assms(2)]) (use f in blast)+
qed

theorem seed_idempotent_witness:
  "\<exists>w' w''. seed_main start_world = (Inr (), w') \<and> map dp_version (deployments (saved w')) = map (fst \<circ> snd) DEPLOYMENTS \<and>
     length (services (saved w')) \<ge> 1 \<and> seed_main (w'\<lparr>db_now := 1\<rparr>) = (Inr (), w'') \<and> saved w'' = saved w'"
proof -
  have "system_inv demo_pylib start_world" "work start_world = saved start_world"
    using start_system_inv by (simp_all add: start_world_def)
  from seed_idempotent [OF this] obtain w' w'' where m: "seed_main start_world = (Inr (), w')"
    "list_all (service_seeded (saved w')) SERVICES"
    "history_grown (saved start_world) (saved w') (fst (utc_now start_world)) DEPLOYMENTS"
    "seed_main (w'\<lparr>db_now := 1\<rparr>) = (Inr (), w'')" "saved w'' = saved w'"
    by blast
  have n: "\<not> deployment_seeded (saved start_world) x" for x
    by (cases x) (simp add: seeded_simps start_world_def empty_db_def)
  have e: "deployments (saved start_world) = []" by (simp add: start_world_def empty_db_def)
  have r: "seed_row d t x y \<Longrightarrow> dp_version y = (fst \<circ> snd) x" for d t x y by (cases x) (simp add: seed_row.simps)
  obtain rows where "deployments (saved w') = rows" "list_all2 (seed_row (saved w') (fst (utc_now start_world))) DEPLOYMENTS rows"
    using m(3) e by (auto simp: history_grown_def n)
  then have "list_all2 (\<lambda>x y. (fst \<circ> snd) x = dp_version y) DEPLOYMENTS (deployments (saved w'))"
    using list_all2_mono r by (metis (mono_tags, lifting))
  then have "map dp_version (deployments (saved w')) = map (fst \<circ> snd) DEPLOYMENTS"
    by (induction rule: list_all2_induct) simp_all
  moreover have "length (services (saved w')) \<ge> 1"
    using m(2) by (cases "services (saved w')") (simp_all add: SERVICES_def seeded_simps)
  ultimately show ?thesis using m(1,4,5) by blast
qed

end
