(* ===== verification/Demo_Run.thy ===== *)
theory Demo_Run
  imports System
begin

section \<open>The demo runner\<close>

text \<open>
  \<open>src/scripts/run_demo.py\<close>: a client that walks one incident through the whole life cycle, from
  the alert to the verified recovery, by HTTP requests to the API. Each request is a handler of
  \<open>Api\<close> in a transaction of its own, and the network (\<open>net\<close>) may lose the request or its answer:
  the server has done the work in the second case. \<open>tx_time\<close> is \<open>func.now()\<close> of the transactions,
  \<open>own_clock\<close> the clock of the client. What the script prints is the list \<open>shown\<close>, with the
  values it takes from the answers; the colours and the fixed texts are left out.
\<close>

datatype delivery = Delivered | Not_sent | Answer_lost

text \<open>What \<open>api_request\<close> raises: RuntimeError for an HTTP status or a dead network, a time-out or a
reset connection as it is; and \<open>input\<close> at the end of the file.\<close>

datatype client_error = Http_status int | Network_error | Connection_lost | End_of_input

datatype shown =
    Healthy_api
  | Connect_failed
  | Scenario fault_mode str
  | Simulator_warning
  | Alert_received uuid uuid incident_status
  | Collected uuid run_status nat "source_read list"
  | Collection_failed
  | Analyzed run_status "analysis_hypothesis option" "analysis_recommendation option"
  | No_recommendation
  | Analysis_failed
  | Approval_request uuid str str approval_status datetime
  | Decision_recorded approval_status "str option" "str option"
  | Flow_terminated
  | Executed_action "str option" "time option"
  | Execution_failed
  | Incident_state incident_status "time option"
  | Timeline_events "(time \<times> event_type \<times> str) list"
  | Demo_completed uuid

record 'e client =
  cl_server :: "world \<times> 'e"
  cl_requests :: nat
  cl_shown :: "shown list"

record 'e client_env =
  ce_api :: "'e api_env"
  ce_net :: "nat \<Rightarrow> delivery"
  ce_tx_time :: "nat \<Rightarrow> time"
  ce_own_clock :: time

datatype ending = Exit int | Raised client_error

definition print_out :: "shown \<Rightarrow> 'e client \<Rightarrow> 'e client" where
  "print_out x c = c\<lparr>cl_shown := cl_shown c @ [x]\<rparr>"

fun read_answer :: "'a response \<Rightarrow> client_error + 'a" where
  "read_answer (Ok x) = Inr x"
| "read_answer (Http_failure code detail) = Inl (Http_status code)"
| "read_answer (Crashed e) = Inl (Http_status 500)"

definition api_request ::
    "'e client_env \<Rightarrow> (world \<times> 'e \<Rightarrow> 'a response \<times> world \<times> 'e) \<Rightarrow> 'e client \<Rightarrow> (client_error + 'a) \<times> 'e client" where
  "api_request v handler c =
     (let n = cl_requests c; c1 = c\<lparr>cl_requests := Suc n\<rparr>
      in if ce_net v n = Not_sent then (Inl Network_error, c1)
         else (case cl_server c of (w, e) \<Rightarrow> case handler (w\<lparr>db_now := ce_tx_time v n\<rparr>, e) of (resp, s) \<Rightarrow>
           (if ce_net v n = Answer_lost then Inl Connection_lost else read_answer resp, c1\<lparr>cl_server := s\<rparr>)))"

text \<open>\<open>r\<close> succeeded: go on; it raised: \<open>h\<close>, the except clause, or \<open>uncaught\<close> where there is none.\<close>

definition attempt ::
    "(client_error + 'a) \<times> 'c \<Rightarrow> (client_error \<Rightarrow> 'c \<Rightarrow> ending \<times> 'c) \<Rightarrow> ('a \<Rightarrow> 'c \<Rightarrow> ending \<times> 'c) \<Rightarrow> ending \<times> 'c" where
  "attempt r h k = (case r of (Inl x, c) \<Rightarrow> h x c | (Inr y, c) \<Rightarrow> k y c)"

definition uncaught :: "client_error \<Rightarrow> 'e client \<Rightarrow> ending \<times> 'e client" where
  "uncaught x c = (Raised x, c)"

definition give_up :: "shown \<Rightarrow> client_error \<Rightarrow> 'e client \<Rightarrow> ending \<times> 'e client" where
  "give_up m x c = (Exit 1, print_out m c)"

text \<open>A handler that only reads.\<close>

definition reading :: "(world \<Rightarrow> 'a response) \<Rightarrow> world \<times> 'e \<Rightarrow> 'a response \<times> world \<times> 'e" where
  "reading f s = (f (fst s), s)"

text \<open>A handler that does not talk to the demo service.\<close>

definition local :: "(world \<Rightarrow> 'a response \<times> world) \<Rightarrow> world \<times> 'e \<Rightarrow> 'a response \<times> world \<times> 'e" where
  "local f s = (case f (fst s) of (resp, w) \<Rightarrow> (resp, w, snd s))"

subsection \<open>The steps\<close>

definition alert_payload :: "time \<Rightarrow> alert_request" where
  "alert_payload t = \<lparr>ar_service_name = ''checkout-api'', ar_alert_type = ''high_error_rate'', ar_severity = CRITICAL,
     ar_started_at = utc t, ar_labels = [(''environment'', ''production''), (''service'', ''checkout-api'')],
     ar_observed_value = Some (Fin (fl (35 / 100))), ar_threshold = Some (Fin (fl (5 / 100))), ar_external_id = None\<rparr>"

definition OPERATOR :: str where
  "OPERATOR = ''oncall-sre@company.com''"

text \<open>What the operator types at the prompt, None for the end of the input; no prompt when not interactive.\<close>

definition take_decision :: "bool \<Rightarrow> str option \<Rightarrow> client_error + approval_decision" where
  "take_decision interactive typed =
     (if interactive then
        (case typed of
           None \<Rightarrow> Inl End_of_input
         | Some confirm \<Rightarrow>
             if lower (strip confirm) = ''n''
             then Inr \<lparr>ad_decision = Appr_REJECTED, ad_decided_by = OPERATOR,
               ad_reason = Some ''Operator chose not to proceed with automated rollback.''\<rparr>
             else Inr \<lparr>ad_decision = Appr_APPROVED, ad_decided_by = OPERATOR,
               ad_reason = Some ''Verified deployment regression v1.4.2 via Loki and Prometheus evidence.''\<rparr>)
      else Inr \<lparr>ad_decision = Appr_APPROVED, ad_decided_by = OPERATOR,
        ad_reason = Some ''Automated verification: telemetry matches deployment regression pattern.''\<rparr>)"

definition check_health :: "'e client_env \<Rightarrow> 'e client \<Rightarrow> (client_error + (str \<times> str) list) \<times> 'e client" where
  "check_health v = api_request v (reading (\<lambda>_. Ok api_health))"

definition simulate_fault :: "'e client_env \<Rightarrow> 'e client \<Rightarrow> 'e client" where
  "simulate_fault v c =
     (case api_request v (api_simulate (av_http (ce_api v)) (av_settings (ce_api v)) DEPLOYMENT_REGRESSION) c of
        (Inl _, c1) \<Rightarrow> print_out Simulator_warning c1
      | (Inr r, c1) \<Rightarrow> print_out (Scenario (sm_scenario r) (sm_detail r)) c1)"

definition send_alert :: "'e client_env \<Rightarrow> 'e client \<Rightarrow> (client_error + alert_response) \<times> 'e client" where
  "send_alert v = api_request v (local (api_ingest_alert (av_py (ce_api v)) (av_settings (ce_api v)) (alert_payload (ce_own_clock v))))"

definition collect_step :: "'e client_env \<Rightarrow> uuid \<Rightarrow> 'e client \<Rightarrow> (client_error + collect_response) \<times> 'e client" where
  "collect_step v k = api_request v (api_collect (av_py (ce_api v)) (av_http (ce_api v)) (av_settings (ce_api v)) k None)"

definition analyze_step :: "'e client_env \<Rightarrow> uuid \<Rightarrow> 'e client \<Rightarrow> (client_error + analyze_response) \<times> 'e client" where
  "analyze_step v k = api_request v (local (api_analyze (av_py (ce_api v)) k None))"

definition approval_step :: "'e client_env \<Rightarrow> uuid \<Rightarrow> 'e client \<Rightarrow> (client_error + approval_read) \<times> 'e client" where
  "approval_step v k = api_request v (local (api_create_approval (av_py (ce_api v)) k))"

definition decide_step ::
    "'e client_env \<Rightarrow> uuid \<Rightarrow> approval_decision \<Rightarrow> 'e client \<Rightarrow> (client_error + approval_read) \<times> 'e client" where
  "decide_step v k p = api_request v (local (api_decide (av_py (ce_api v)) k p))"

definition execute_step :: "'e client_env \<Rightarrow> uuid \<Rightarrow> 'e client \<Rightarrow> (client_error + approval) \<times> 'e client" where
  "execute_step v k = api_request v (api_execute (av_py (ce_api v)) (av_http (ce_api v)) (av_settings (ce_api v)) k)"

text \<open>Steps 8 and 9: the incident as the API shows it, then its timeline.\<close>

definition show_closure :: "'e client_env \<Rightarrow> uuid \<Rightarrow> 'e client \<Rightarrow> ending \<times> 'e client" where
  "show_closure v k c =
     attempt (api_request v (reading (api_get_incident k)) c) uncaught (\<lambda>i c1.
     attempt (api_request v (reading (api_timeline k)) (print_out (Incident_state (inc_status i) (inc_resolved_at i)) c1))
       uncaught (\<lambda>evs c2.
       (Exit 0, print_out (Demo_completed k)
         (print_out (Timeline_events (map (\<lambda>ev. (ev_created_at ev, ev_type ev, ev_message ev)) evs)) c2))))"

definition shown_approval :: "approval_read \<Rightarrow> shown" where
  "shown_approval a =
     Approval_request (ap_id a) (ap_action_type a) (take 16 (ap_action_hash a)) (ap_status a) (ap_expires_at a)"

text \<open>Steps 5 to 9, once a recommendation is there.\<close>

definition remediate :: "'e client_env \<Rightarrow> bool \<Rightarrow> str option \<Rightarrow> uuid \<Rightarrow> uuid \<Rightarrow> 'e client \<Rightarrow> ending \<times> 'e client" where
  "remediate v interactive typed incident_id recommendation_id c =
     attempt (approval_step v recommendation_id c) uncaught (\<lambda>a c1.
       let c2 = print_out (shown_approval a) c1
       in attempt (take_decision interactive typed, c2) uncaught (\<lambda>p c3.
     attempt (decide_step v (ap_id a) p c3) uncaught (\<lambda>d c4.
       let c5 = print_out (Decision_recorded (ap_status d) (ap_decided_by d) (ap_decision_reason d)) c4
       in if ad_decision p \<noteq> Appr_APPROVED then (Exit 0, print_out Flow_terminated c5)
          else
     attempt (execute_step v (ap_id a) c5) (give_up Execution_failed) (\<lambda>x c6.
       show_closure v incident_id (print_out (Executed_action (ap_execution_status x) (ap_executed_at x)) c6)))))"

definition run_demo :: "'e client_env \<Rightarrow> bool \<Rightarrow> str option \<Rightarrow> 'e client \<Rightarrow> ending \<times> 'e client" where
  "run_demo v interactive typed c =
     attempt (check_health v c) (give_up Connect_failed) (\<lambda>_ c1.
       let c2 = simulate_fault v (print_out Healthy_api c1)
       in attempt (send_alert v c2) uncaught (\<lambda>al c3.
       let k = at_incident_id al; c4 = print_out (Alert_received (at_alert_id al) k (at_status al)) c3
       in attempt (collect_step v k c4) (give_up Collection_failed) (\<lambda>col c5.
       let c6 = print_out (Collected (co_run col) (co_status col) (length (co_evidence_ids col)) (co_sources col)) c5
       in attempt (analyze_step v k c6) (give_up Analysis_failed) (\<lambda>an c7.
       let c8 = print_out (Analyzed (az_status an) (az_hypothesis an) (az_recommendation an)) c7
       in (case az_recommendation an of
             None \<Rightarrow> (Exit 1, print_out No_recommendation c8)
           | Some r \<Rightarrow> remediate v interactive typed k (ac_id r) c8)))))"

subsection \<open>What a successful request tells\<close>

lemma api_request_Inr:
  assumes "api_request v h c = (Inr x, c')"
  obtains w e s where "cl_server c = (w, e)" "h (w\<lparr>db_now := ce_tx_time v (cl_requests c)\<rparr>, e) = (Ok x, s)"
    "cl_server c' = s" "cl_shown c' = cl_shown c"
proof -
  obtain w e where w: "cl_server c = (w, e)" by fastforce
  obtain r s where h: "h (w\<lparr>db_now := ce_tx_time v (cl_requests c)\<rparr>, e) = (r, s)" by (rule prod.exhaust)
  have "read_answer r = Inr x" "c' = c\<lparr>cl_requests := Suc (cl_requests c), cl_server := s\<rparr>"
    using assms by (auto simp: api_request_def w h Let_def split: if_splits)
  moreover from this have "r = Ok x" by (cases r) simp_all
  ultimately show thesis using that w h by simp
qed

text \<open>Whatever the network does, the server is left as it was or as the handler leaves it.\<close>

lemma api_request_server:
  "cl_server (snd (api_request v h c)) = cl_server c \<or>
   cl_server (snd (api_request v h c)) = snd (h ((fst (cl_server c))\<lparr>db_now := ce_tx_time v (cl_requests c)\<rparr>, snd (cl_server c)))"
  by (auto simp: api_request_def Let_def split: prod.split)

definition good :: "'e client_env \<Rightarrow> 'e client \<Rightarrow> bool" where
  "good v c \<longleftrightarrow> served (av_py (ce_api v)) (fst (cl_server c))"

lemma good_print [simp]: "good v (print_out x c) = good v c"
  by (simp add: good_def print_out_def)

lemma server_print [simp]: "cl_server (print_out m c) = cl_server c"
  by (simp add: print_out_def)

lemma answer_Ok: "answer h r = (Ok x, w) \<longleftrightarrow> (\<exists>w1. r = (Inr x, w1) \<and> w = close_session w1)"
  by (auto simp: answer_def split: prod.splits sum.splits option.splits)

lemma committed: "then_commit r = (Inr x, w) \<longleftrightarrow> (\<exists>w1. r = (Inr x, w1) \<and> w = commit w1)"
  by (auto simp: then_commit_def bind_Inr)

lemma closed_commit: "work (close_session (commit w)) = work w" "saved (close_session (commit w)) = work w"
  by (simp_all add: close_session_def rollback_def commit_def)

lemma same_work_Ok:
  assumes "system_inv py w" "work w = saved w"
  shows "served py (w\<lparr>db_now := t\<rparr>)"
  using assms system_inv_db_now by (simp add: served_def)

text \<open>The requests of the runner that write are those of \<open>api_effect\<close>.\<close>

lemma good_request:
  assumes "good v c" "pylib_ok (av_py (ce_api v))"
    and "\<And>w e. system_inv (av_py (ce_api v)) w \<Longrightarrow> work w = saved w \<Longrightarrow> served (av_py (ce_api v)) (fst (snd (h (w, e))))"
  shows "good v (snd (api_request v h c))"
proof -
  obtain w e where w: "cl_server c = (w, e)" by fastforce
  have s: "system_inv (av_py (ce_api v)) w" "work w = saved w" using assms(1) by (simp_all add: good_def w served_def)
  have "served (av_py (ce_api v)) (fst (snd (h (w\<lparr>db_now := ce_tx_time v (cl_requests c)\<rparr>, e))))"
    using s by (intro assms(3) system_inv_db_now) simp_all
  then show ?thesis using api_request_server [of v h c] assms(1) by (auto simp: good_def w)
qed

lemma served_effect:
  assumes "system_inv (av_py a) w" "pylib_ok (av_py a)" "fst (snd r) = fst (api_effect a call (w, e))"
  shows "served (av_py a) (fst (snd r))"
  using api_effect_served [OF assms(1,2), of call e] assms(3) by simp

lemma local_server: "fst (snd (local f (w, e))) = snd (f w)"
  by (simp add: local_def split: prod.split)

lemma good_steps:
  assumes "good v c" "pylib_ok (av_py (ce_api v))"
  shows "good v (snd (check_health v c))" "good v (simulate_fault v c)" "good v (snd (send_alert v c))"
    "good v (snd (collect_step v k c))" "good v (snd (analyze_step v k c))" "good v (snd (approval_step v k c))"
    "good v (snd (decide_step v k p c))" "good v (snd (execute_step v k c))"
    "good v (snd (api_request v (reading f) c))"
proof -
  note e = api_effect_served [OF _ assms(2)]
  show r: "good v (snd (api_request v (reading f) c))" for f :: "world \<Rightarrow> 'x response"
    by (rule good_request [OF assms]) (simp add: reading_def served_def)
  show "good v (snd (check_health v c))" unfolding check_health_def by (rule r)
  have "good v (snd (api_request v (api_simulate (av_http (ce_api v)) (av_settings (ce_api v)) DEPLOYMENT_REGRESSION) c))"
    by (rule good_request [OF assms]) (use e [where call = "C_simulate DEPLOYMENT_REGRESSION"] in simp)
  then show "good v (simulate_fault v c)"
    by (auto simp: simulate_fault_def split: prod.splits sum.splits)
  show "good v (snd (send_alert v c))" unfolding send_alert_def
    by (rule good_request [OF assms]) (use e [where call = "C_ingest (alert_payload (ce_own_clock v))"] in \<open>simp add: local_server\<close>)
  show "good v (snd (collect_step v k c))" unfolding collect_step_def
    by (rule good_request [OF assms]) (use e [where call = "C_collect k None"] in simp)
  show "good v (snd (analyze_step v k c))" unfolding analyze_step_def
    by (rule good_request [OF assms]) (use e [where call = "C_analyze k None"] in \<open>simp add: local_server\<close>)
  show "good v (snd (approval_step v k c))" unfolding approval_step_def
    by (rule good_request [OF assms]) (use e [where call = "C_create_approval k"] in \<open>simp add: local_server\<close>)
  show "good v (snd (decide_step v k p c))" unfolding decide_step_def
    by (rule good_request [OF assms]) (use e [where call = "C_decide k p"] in \<open>simp add: local_server\<close>)
  show "good v (snd (execute_step v k c))" unfolding execute_step_def
    by (rule good_request [OF assms]) (use e [where call = "C_execute k"] in simp)
qed

definition rec_of :: "db \<Rightarrow> uuid \<Rightarrow> uuid \<Rightarrow> bool" where
  "rec_of d k m \<longleftrightarrow> (\<exists>r \<in> set (recommendations d). rec_id r = m \<and> (rec_run r, k) \<in> run_incidents d)"

abbreviation server_db :: "'e client \<Rightarrow> db" where
  "server_db c \<equiv> work (fst (cl_server c))"

lemma rec_of_same: "recommendations d' = recommendations d \<Longrightarrow> runs d' = runs d \<Longrightarrow> rec_of d' k m = rec_of d k m"
  by (simp add: rec_of_def)

lemma good_inv:
  assumes "good v c" "cl_server c = (w, e)"
  shows "system_inv (av_py (ce_api v)) (w\<lparr>db_now := t\<rparr>)"
  using assms system_inv_db_now by (simp add: good_def served_def)

lemma analyze_step_Ok:
  assumes "analyze_step v k c = (Inr r, c')" "good v c" "az_recommendation r = Some rc"
  shows "rec_of (server_db c') k (ac_id rc)"
proof -
  let ?py = "av_py (ce_api v)"
  obtain w e s where c: "cl_server c = (w, e)"
    "local (api_analyze ?py k None) (w\<lparr>db_now := ce_tx_time v (cl_requests c)\<rparr>, e) = (Ok r, s)" "cl_server c' = s"
    by (rule api_request_Inr [OF assms(1) [unfolded analyze_step_def]]) blast
  let ?w = "w\<lparr>db_now := ce_tx_time v (cl_requests c)\<rparr>"
  obtain w1 where a: "analyze_incident ?py k default_analyze_request ?w = (Inr r, w1)" "fst s = close_session (commit w1)"
    using c(2) by (auto simp: local_def api_analyze_def answer_Ok committed split: prod.splits)
  have o: "analysis_outcome ?w w1 k default_analyze_request r" "system_inv ?py w1"
    using analyze_outcome [OF good_inv [OF assms(2) c(1), of "ce_tx_time v (cl_requests c)"], of k default_analyze_request] a(1) by auto
  have "\<exists>q \<in> set (recommendations (work w1)). rec_run q = az_run r \<and> rec_id q = ac_id rc"
    using o(1) assms(3) by (auto simp: analysis_outcome_def proposed_def Let_def split: if_splits)
  then obtain q where q: "q \<in> set (recommendations (work w1))" "rec_run q = az_run r" "rec_id q = ac_id rc" by blast
  obtain run where run: "get_run w1 (az_run r) = Some run" "run_incident run = k"
    using o(1) by (auto simp: analysis_outcome_def Let_def)
  have "(az_run r, k) \<in> run_incidents (work w1)"
    using row_get_SomeD [OF run(1)] run(2) by (force simp: keys_def)
  then show ?thesis using q c(3) a(2) unfolding rec_of_def by (auto simp: closed_commit)
qed

lemma approval_step_Ok:
  assumes "approval_step v m c = (Inr a, c')" "good v c"
  shows "row_get ap_id (ap_id a) (approvals (server_db c')) = Some a \<and> ap_recommendation a = m \<and>
    recommendations (server_db c') = recommendations (server_db c) \<and> runs (server_db c') = runs (server_db c)"
proof -
  let ?py = "av_py (ce_api v)"
  obtain w e s where c: "cl_server c = (w, e)"
    "local (api_create_approval ?py m) (w\<lparr>db_now := ce_tx_time v (cl_requests c)\<rparr>, e) = (Ok a, s)" "cl_server c' = s"
    by (rule api_request_Inr [OF assms(1) [unfolded approval_step_def]]) blast
  let ?w = "w\<lparr>db_now := ce_tx_time v (cl_requests c)\<rparr>"
  obtain w1 where a: "request_approval ?py False m ?w = (Inr a, w1)" "fst s = close_session (commit w1)"
    using c(2) by (auto simp: local_def api_create_approval_def answer_Ok committed split: prod.splits)
  note i = good_inv [OF assms(2) c(1)]
  have w1: "system_inv ?py w1" using system_inv_request [OF i] by (metis a(1) snd_conv)
  have "a \<in> set (approvals (work w1)) \<and> ap_recommendation a = m \<and>
    recommendations (work w1) = recommendations (work w) \<and> runs (work w1) = runs (work w)"
    by (cases rule: request_approval_cases [OF a(1) system_invD(1) [OF i]])
      (auto simp: write_defs approval_row_def dest: row_get_SomeD)
  moreover from this have "get_approval w1 (ap_id a) = Some a"
    using system_invD(4) [OF w1] by (intro row_get_unique) (simp_all add: db_ok_def approvals_ok_def)
  ultimately show ?thesis using c(1,3) a(2) by (simp add: closed_commit)
qed

lemma decide_step_Ok:
  assumes "decide_step v k p c = (Inr d, c')" "good v c"
  shows "\<exists>a t. row_get ap_id k (approvals (server_db c)) = Some a \<and> d = decided a p t \<and>
    row_get ap_id k (approvals (server_db c')) = Some d \<and>
    recommendations (server_db c') = recommendations (server_db c) \<and> runs (server_db c') = runs (server_db c)"
proof -
  let ?py = "av_py (ce_api v)"
  obtain w e s where c: "cl_server c = (w, e)"
    "local (api_decide ?py k p) (w\<lparr>db_now := ce_tx_time v (cl_requests c)\<rparr>, e) = (Ok d, s)" "cl_server c' = s"
    by (rule api_request_Inr [OF assms(1) [unfolded decide_step_def]]) blast
  let ?w = "w\<lparr>db_now := ce_tx_time v (cl_requests c)\<rparr>"
  obtain w1 where a: "decide_approval ?py k p ?w = (Inr d, w1)" "fst s = close_session (commit w1)"
    using c(2) by (auto simp: local_def api_decide_def answer_Ok committed split: prod.splits)
  note i = good_inv [OF assms(2) c(1)]
  show ?thesis
  proof (cases rule: decide_approval_cases [OF a(1) system_invD(1) [OF i], case_names refused decides])
    case (decides q run i md)
    then have q: "get_approval w k = Some q" "d = decided q p (now_of ?w)" by (simp_all add: decidable_def)
    have "get_approval w1 k = Some d" "recommendations (work w1) = recommendations (work w)" "runs (work w1) = runs (work w)"
      using q row_get_SomeD [OF q(1)] row_get_in_keys [OF q(1)]
      by (simp_all add: decides(5) write_defs row_get_row_set decided_def)
    then show ?thesis using q c(1,3) a(2) by (auto simp: closed_commit)
  qed simp
qed

lemma execute_step_Ok:
  assumes "execute_step v k c = (Inr x, c')" "good v c"
  shows "\<exists>a t run i. row_get ap_id k (approvals (server_db c)) = Some a \<and> ap_status a = Appr_APPROVED \<and>
    x = executed a ''succeeded'' None t \<and> row_get ap_id k (approvals (server_db c')) = Some x \<and>
    runs (server_db c') = runs (server_db c) \<and> row_get run_id (ap_run a) (runs (server_db c)) = Some run \<and>
    row_get inc_id (run_incident run) (incidents (server_db c')) = Some i \<and>
    inc_status i = RESOLVED \<and> inc_resolved_at i = Some t"
proof -
  let ?py = "av_py (ce_api v)"
  obtain w e s where c: "cl_server c = (w, e)"
    "api_execute ?py (av_http (ce_api v)) (av_settings (ce_api v)) k (w\<lparr>db_now := ce_tx_time v (cl_requests c)\<rparr>, e) = (Ok x, s)"
    "cl_server c' = s"
    by (rule api_request_Inr [OF assms(1) [unfolded execute_step_def]]) blast
  let ?w = "w\<lparr>db_now := ce_tx_time v (cl_requests c)\<rparr>"
  obtain out w1 e1 where a: "execute_approval ?py (av_http (ce_api v)) (av_settings (ce_api v)) k (?w, e) = (out, w1, e1)"
    by (metis prod.collapse)
  have "out = Inr x \<and> fst s = close_session (commit w1)"
    using c(2) by (cases out) (auto simp: commit_last_handlers a commit_last_def answer2_def answer_Ok split: prod.splits)
  then have o: "out = Inr x" "fst s = close_session (commit w1)" by simp_all
  note i = good_inv [OF assms(2) c(1)]
  show ?thesis
  proof (cases rule: execute_approval_cases [OF a system_invD(1) [OF i], case_names refused crashed failed succeeded])
    case (succeeded q run j md)
    then have q: "get_approval w k = Some q" "ap_status q = Appr_APPROVED" "x = executed q ''succeeded'' None (now_of ?w)"
      using o(1) by (simp_all add: executable_def)
    have j: "inc_id j = run_incident run" "run_incident run \<in> keys inc_id (incidents (work w))"
      using row_get_SomeD [OF succeeded(3)] row_get_in_keys [OF succeeded(3)] by simp_all
    have "get_approval w1 k = Some x"
      using q row_get_SomeD [OF q(1)] row_get_in_keys [OF q(1)]
      by (simp add: succeeded(6) write_defs row_get_row_set executed_def)
    moreover have "get_incident w1 (run_incident run) = Some (j\<lparr>inc_status := RESOLVED, inc_resolved_at := Some (now_of ?w)\<rparr>)"
      using j by (simp add: succeeded(6) write_defs row_get_row_set keys_row_set)
    moreover have "runs (work w1) = runs (work w)" by (simp add: succeeded(6) write_defs)
    ultimately show ?thesis using q succeeded(2) c(1,3) o(2) by (auto simp: closed_commit)
  qed (use o(1) in simp_all)
qed

text \<open>The step of the incident: the one the executed approval belongs to is the one the recommendation is for.\<close>

lemma same_incident:
  assumes "good v c" "row_get ap_id n (approvals (server_db c)) = Some a" "rec_of (server_db c) k (ap_recommendation a)"
    "row_get run_id (ap_run a) (runs (server_db c)) = Some run"
  shows "run_incident run = k"
proof -
  let ?d = "server_db c"
  have i: "system_inv (av_py (ce_api v)) (fst (cl_server c))" using assms(1) by (simp add: good_def served_def)
  have a: "a \<in> set (approvals ?d)" using row_get_SomeD [OF assms(2)] by simp
  have d: "distinct (map rec_id (recommendations ?d))" "distinct (map run_id (runs ?d))"
    using system_invD(4) [OF i] by (simp_all add: db_ok_def recommendations_ok_def runs_ok_def)
  obtain r where r: "r \<in> set (recommendations ?d)" "rec_id r = ap_recommendation a" "rec_run r = ap_run a"
    using system_invD(1) [OF i] a by (auto simp: approvals_inv_def approval_good_def)
  obtain q where q: "q \<in> set (recommendations ?d)" "rec_id q = ap_recommendation a" "(rec_run q, k) \<in> run_incidents ?d"
    using assms(3) by (auto simp: rec_of_def)
  have "q = r" using row_get_unique [OF d(1) r(1)] row_get_unique [OF d(1) q(1)] r(2) q(2) by (metis option.inject)
  then obtain m where m: "m \<in> set (runs ?d)" "run_id m = ap_run a" "run_incident m = k"
    using q(3) r(3) by (auto simp: keys_def)
  then show ?thesis using row_get_unique [OF d(2) m(1)] assms(4) by (metis option.inject)
qed

subsection \<open>A run that exits with 0\<close>

lemma attempt_0:
  assumes "attempt r h k = (Exit 0, c')" "\<And>x c. h x c \<noteq> (Exit 0, c')"
  obtains y c where "r = (Inr y, c)" "k y c = (Exit 0, c')"
  using assms by (auto simp: attempt_def split: prod.splits sum.splits)

lemma never_0: "uncaught x c \<noteq> (Exit 0, c')" "give_up m x c \<noteq> (Exit 0, c')"
  by (simp_all add: uncaught_def give_up_def)

lemma reading_Ok:
  assumes "api_request v (reading f) c = (Inr x, c')"
  shows "\<exists>t. fst (cl_server c') = (fst (cl_server c))\<lparr>db_now := t\<rparr> \<and> cl_shown c' = cl_shown c \<and>
    f ((fst (cl_server c))\<lparr>db_now := t\<rparr>) = Ok x"
proof -
  obtain w e s where c: "cl_server c = (w, e)" "reading f (w\<lparr>db_now := ce_tx_time v (cl_requests c)\<rparr>, e) = (Ok x, s)"
    "cl_server c' = s" "cl_shown c' = cl_shown c"
    by (rule api_request_Inr [OF assms]) blast
  have "f (w\<lparr>db_now := ce_tx_time v (cl_requests c)\<rparr>) = Ok x" "fst s = w\<lparr>db_now := ce_tx_time v (cl_requests c)\<rparr>"
    using c(2) by (auto simp: reading_def)
  then show ?thesis using c(1,3,4) by (intro exI [of _ "ce_tx_time v (cl_requests c)"]) simp
qed

lemma show_closure_0:
  assumes "show_closure v k c = (Exit 0, c')"
  shows "\<exists>i t. row_get inc_id k (incidents (server_db c)) = Some i \<and> fst (cl_server c') = (fst (cl_server c))\<lparr>db_now := t\<rparr> \<and>
    {Incident_state (inc_status i) (inc_resolved_at i), Demo_completed k} \<subseteq> set (cl_shown c')"
proof -
  obtain i c1 where 1: "api_request v (reading (api_get_incident k)) c = (Inr i, c1)"
    "attempt (api_request v (reading (api_timeline k)) (print_out (Incident_state (inc_status i) (inc_resolved_at i)) c1))
       uncaught (\<lambda>evs c2. (Exit 0, print_out (Demo_completed k)
         (print_out (Timeline_events (map (\<lambda>ev. (ev_created_at ev, ev_type ev, ev_message ev)) evs)) c2))) = (Exit 0, c')"
    using assms unfolding show_closure_def by (rule attempt_0 [OF _ never_0(1)])
  obtain evs c2 where 2: "api_request v (reading (api_timeline k)) (print_out (Incident_state (inc_status i) (inc_resolved_at i)) c1) = (Inr evs, c2)"
    "c' = print_out (Demo_completed k)
       (print_out (Timeline_events (map (\<lambda>ev. (ev_created_at ev, ev_type ev, ev_message ev)) evs)) c2)"
    using 1(2) by (rule attempt_0 [OF _ never_0(1)]) auto
  have "row_get inc_id k (incidents (server_db c)) = Some i"
    using reading_Ok [OF 1(1)] by (auto simp: api_get_incident_def found_def split: option.splits)
  moreover obtain t where "fst (cl_server c1) = (fst (cl_server c))\<lparr>db_now := t\<rparr>" using reading_Ok [OF 1(1)] by blast
  moreover obtain u where "fst (cl_server c2) = (fst (cl_server c1))\<lparr>db_now := u\<rparr>"
    "cl_shown c2 = cl_shown (print_out (Incident_state (inc_status i) (inc_resolved_at i)) c1)"
    using reading_Ok [OF 2(1)] by auto
  ultimately show ?thesis by (intro exI [of _ i] exI [of _ u]) (simp add: 2(2) print_out_def)
qed

text \<open>What an exit code 0 stands for, after an approval and after a rejection.\<close>

definition closed_by :: "approval \<Rightarrow> uuid \<Rightarrow> 'e client \<Rightarrow> bool" where
  "closed_by a k c \<longleftrightarrow> ap_status a = Appr_APPROVED \<and> ap_execution_status a = Some ''succeeded'' \<and>
     (\<exists>run \<in> set (runs (server_db c)). run_id run = ap_run a \<and> run_incident run = k) \<and>
     (\<exists>i \<in> set (incidents (server_db c)). inc_id i = k \<and> inc_status i = RESOLVED \<and> inc_resolved_at i = ap_executed_at a) \<and>
     {Incident_state RESOLVED (ap_executed_at a), Demo_completed k} \<subseteq> set (cl_shown c)"

definition ends_well :: "'e client_env \<Rightarrow> approval_decision \<Rightarrow> uuid \<Rightarrow> 'e client \<Rightarrow> bool" where
  "ends_well v p k c \<longleftrightarrow> good v c \<and>
     (\<exists>a \<in> set (approvals (server_db c)). ap_decided_by a = Some OPERATOR \<and>
        (if ad_decision p = Appr_APPROVED then closed_by a k c
         else ap_status a = Appr_REJECTED \<and> ap_executed_at a = None \<and> Flow_terminated \<in> set (cl_shown c)))"

lemma take_decision_by: "take_decision interactive typed = Inr p \<Longrightarrow>
    ad_decided_by p = OPERATOR \<and> ad_decision p \<in> {Appr_APPROVED, Appr_REJECTED}"
  by (auto simp: take_decision_def split: if_splits option.splits)

lemma remediate_0:
  assumes "remediate v interactive typed k m c = (Exit 0, c')" "good v c" "rec_of (server_db c) k m" "pylib_ok (av_py (ce_api v))"
  shows "\<exists>p. take_decision interactive typed = Inr p \<and> ends_well v p k c'"
proof -
  obtain a c1 where 1: "approval_step v m c = (Inr a, c1)"
    "(let c2 = print_out (shown_approval a) c1
       in attempt (take_decision interactive typed, c2) uncaught (\<lambda>p c3.
     attempt (decide_step v (ap_id a) p c3) uncaught (\<lambda>d c4.
       let c5 = print_out (Decision_recorded (ap_status d) (ap_decided_by d) (ap_decision_reason d)) c4
       in if ad_decision p \<noteq> Appr_APPROVED then (Exit 0, print_out Flow_terminated c5)
          else attempt (execute_step v (ap_id a) c5) (give_up Execution_failed) (\<lambda>x c6.
            show_closure v k (print_out (Executed_action (ap_execution_status x) (ap_executed_at x)) c6))))) = (Exit 0, c')"
    using assms(1) unfolding remediate_def by (rule attempt_0 [OF _ never_0(1)])
  define c2 where "c2 = print_out (shown_approval a) c1"
  obtain p where 2: "take_decision interactive typed = Inr p"
    "attempt (decide_step v (ap_id a) p c2) uncaught (\<lambda>d c4.
       let c5 = print_out (Decision_recorded (ap_status d) (ap_decided_by d) (ap_decision_reason d)) c4
       in if ad_decision p \<noteq> Appr_APPROVED then (Exit 0, print_out Flow_terminated c5)
          else attempt (execute_step v (ap_id a) c5) (give_up Execution_failed) (\<lambda>x c6.
            show_closure v k (print_out (Executed_action (ap_execution_status x) (ap_executed_at x)) c6))) = (Exit 0, c')"
    using 1(2) unfolding Let_def c2_def by (rule attempt_0 [OF _ never_0(1)]) (simp add: Let_def)
  obtain d c4 where 3: "decide_step v (ap_id a) p c2 = (Inr d, c4)"
    "(let c5 = print_out (Decision_recorded (ap_status d) (ap_decided_by d) (ap_decision_reason d)) c4
       in if ad_decision p \<noteq> Appr_APPROVED then (Exit 0, print_out Flow_terminated c5)
          else attempt (execute_step v (ap_id a) c5) (give_up Execution_failed) (\<lambda>x c6.
            show_closure v k (print_out (Executed_action (ap_execution_status x) (ap_executed_at x)) c6))) = (Exit 0, c')"
    using 2(2) by (rule attempt_0 [OF _ never_0(1)])
  define c5 where "c5 = print_out (Decision_recorded (ap_status d) (ap_decided_by d) (ap_decision_reason d)) c4"
  have g1: "good v c2" using good_steps(6) [OF assms(2,4), of m] by (simp add: 1(1) c2_def)
  have g4: "good v c5" using good_steps(7) [OF g1 assms(4), of "ap_id a" p] by (simp add: 3(1) c5_def)
  note f1 = approval_step_Ok [OF 1(1) assms(2)]
  obtain b t where f3: "row_get ap_id (ap_id a) (approvals (server_db c2)) = Some b" "d = decided b p t"
    "row_get ap_id (ap_id a) (approvals (server_db c5)) = Some d"
    "recommendations (server_db c5) = recommendations (server_db c2)" "runs (server_db c5) = runs (server_db c2)"
    using decide_step_Ok [OF 3(1) g1] by (auto simp: c5_def)
  have "b = a" using f1 f3(1) by (simp add: c2_def)
  then have d: "ap_status d = ad_decision p" "ap_decided_by d = Some OPERATOR" "ap_recommendation d = m"
    using f3(2) f1 take_decision_by [OF 2(1)] by (simp_all add: decided_def)
  show ?thesis
  proof (cases "ad_decision p = Appr_APPROVED")
    case False
    then have c': "c' = print_out Flow_terminated c5" using 3(2) by (simp add: Let_def c5_def)
    have in5: "d \<in> set (approvals (server_db c5))" using row_get_SomeD [OF f3(3)] by simp
    have r: "ap_status d = Appr_REJECTED" using d(1) False take_decision_by [OF 2(1)] by auto
    have "system_inv (av_py (ce_api v)) (fst (cl_server c5))" using g4 by (simp add: good_def served_def)
    then have "approval_good (av_py (ce_api v)) (now_of (fst (cl_server c5))) (server_db c5) d"
      using in5 system_invD(1) unfolding approvals_inv_def by blast
    then have "ap_executed_at d = None" using r by (auto simp: approval_good_def split: option.splits)
    moreover have "Flow_terminated \<in> set (cl_shown c')" by (simp add: c' print_out_def)
    ultimately have "ends_well v p k c'" unfolding ends_well_def
      using r d(2) g4 in5 False by (intro conjI bexI [of _ d]) (simp_all add: c')
    then show ?thesis using 2(1) by blast
  next
    case True
    obtain x c6 where 4: "execute_step v (ap_id a) c5 = (Inr x, c6)"
      "show_closure v k (print_out (Executed_action (ap_execution_status x) (ap_executed_at x)) c6) = (Exit 0, c')"
      using 3(2) True unfolding Let_def c5_def
      by (simp only: if_False simp_thms) (rule attempt_0 [OF _ never_0(2)], assumption)
    have g6: "good v c6" using good_steps(8) [OF g4 assms(4), of "ap_id a"] by (simp add: 4(1))
    obtain t' run i where f4: "x = executed d ''succeeded'' None t'" "row_get ap_id (ap_id a) (approvals (server_db c6)) = Some x"
      "runs (server_db c6) = runs (server_db c5)" "row_get run_id (ap_run d) (runs (server_db c5)) = Some run"
      "row_get inc_id (run_incident run) (incidents (server_db c6)) = Some i" "inc_status i = RESOLVED" "inc_resolved_at i = Some t'"
      using execute_step_Ok [OF 4(1) g4] f3(3) by auto
    have "rec_of (server_db c5) k (ap_recommendation d)"
      using assms(3) f1 f3(4,5) d(3) by (simp add: rec_of_def c2_def)
    from same_incident [OF g4 f3(3) this f4(4)] have k: "run_incident run = k" .
    obtain u where f5: "fst (cl_server c') = (fst (cl_server c6))\<lparr>db_now := u\<rparr>"
      "{Incident_state RESOLVED (Some t'), Demo_completed k} \<subseteq> set (cl_shown c')"
      using show_closure_0 [OF 4(2)] f4(5-7) k by auto
    have x: "ap_status x = Appr_APPROVED" "ap_decided_by x = Some OPERATOR" "ap_execution_status x = Some ''succeeded''"
      "ap_executed_at x = Some t'" "ap_run x = ap_run d"
      using d True f4(1) by (simp_all add: executed_def)
    have "good v c'" using g6 f5(1) system_inv_db_now by (simp add: good_def served_def)
    moreover have "x \<in> set (approvals (server_db c'))" using row_get_SomeD [OF f4(2)] f5(1) by simp
    moreover have "run \<in> set (runs (server_db c'))" "run_id run = ap_run x"
      using row_get_SomeD [OF f4(4)] f4(3) f5(1) x(5) by simp_all
    moreover have "i \<in> set (incidents (server_db c'))" "inc_id i = k"
      using row_get_SomeD [OF f4(5)] f5(1) k by simp_all
    ultimately have "ends_well v p k c'" unfolding ends_well_def closed_by_def
      using True x f4(6,7) f5(2) k by (intro conjI bexI [of _ x]) auto
    then show ?thesis using 2(1) by blast
  qed
qed

lemma run_demo_0:
  assumes "run_demo v interactive typed c = (Exit 0, c')" "pylib_ok (av_py (ce_api v))" "good v c"
  shows "\<exists>p k. take_decision interactive typed = Inr p \<and> ends_well v p k c'"
proof -
  let ?collect = "\<lambda>k c4. attempt (collect_step v k c4) (give_up Collection_failed) (\<lambda>col c5.
       let c6 = print_out (Collected (co_run col) (co_status col) (length (co_evidence_ids col)) (co_sources col)) c5
       in attempt (analyze_step v k c6) (give_up Analysis_failed) (\<lambda>an c7.
       let c8 = print_out (Analyzed (az_status an) (az_hypothesis an) (az_recommendation an)) c7
       in (case az_recommendation an of
             None \<Rightarrow> (Exit 1, print_out No_recommendation c8)
           | Some r \<Rightarrow> remediate v interactive typed k (ac_id r) c8)))"
  obtain h c1 where 1: "check_health v c = (Inr h, c1)"
    "(let c2 = simulate_fault v (print_out Healthy_api c1)
      in attempt (send_alert v c2) uncaught (\<lambda>al c3.
         let k = at_incident_id al; c4 = print_out (Alert_received (at_alert_id al) k (at_status al)) c3
         in ?collect k c4)) = (Exit 0, c')"
    using assms(1) unfolding run_demo_def by (rule attempt_0 [OF _ never_0(2)])
  define c2 where "c2 = simulate_fault v (print_out Healthy_api c1)"
  have g2: "good v c2" unfolding c2_def
    using good_steps(1) [OF assms(3,2)] by (intro good_steps(2) assms(2)) (simp add: 1(1))
  obtain al c3 where 2: "send_alert v c2 = (Inr al, c3)"
    "?collect (at_incident_id al) (print_out (Alert_received (at_alert_id al) (at_incident_id al) (at_status al)) c3) = (Exit 0, c')"
    using 1(2) unfolding Let_def c2_def by (rule attempt_0 [OF _ never_0(1)])
  define k where "k = at_incident_id al"
  define c4 where "c4 = print_out (Alert_received (at_alert_id al) k (at_status al)) c3"
  have g4: "good v c4" using good_steps(3) [OF g2 assms(2)] by (simp add: 2(1) c4_def)
  obtain col c5 where 3: "collect_step v k c4 = (Inr col, c5)"
    "(let c6 = print_out (Collected (co_run col) (co_status col) (length (co_evidence_ids col)) (co_sources col)) c5
       in attempt (analyze_step v k c6) (give_up Analysis_failed) (\<lambda>an c7.
       let c8 = print_out (Analyzed (az_status an) (az_hypothesis an) (az_recommendation an)) c7
       in (case az_recommendation an of
             None \<Rightarrow> (Exit 1, print_out No_recommendation c8)
           | Some r \<Rightarrow> remediate v interactive typed k (ac_id r) c8))) = (Exit 0, c')"
    using 2(2) unfolding c4_def k_def by (rule attempt_0 [OF _ never_0(2)])
  define c6 where "c6 = print_out (Collected (co_run col) (co_status col) (length (co_evidence_ids col)) (co_sources col)) c5"
  have g6: "good v c6" using good_steps(4) [OF g4 assms(2), of k] by (simp add: 3(1) c6_def)
  obtain an c7 where 4: "analyze_step v k c6 = (Inr an, c7)"
    "(let c8 = print_out (Analyzed (az_status an) (az_hypothesis an) (az_recommendation an)) c7
       in (case az_recommendation an of
             None \<Rightarrow> (Exit 1, print_out No_recommendation c8)
           | Some r \<Rightarrow> remediate v interactive typed k (ac_id r) c8)) = (Exit 0, c')"
    using 3(2) unfolding Let_def c6_def by (rule attempt_0 [OF _ never_0(2)])
  have g7: "good v c7" using good_steps(5) [OF g6 assms(2), of k] by (simp add: 4(1))
  obtain r where r: "az_recommendation an = Some r"
    "remediate v interactive typed k (ac_id r) (print_out (Analyzed (az_status an) (az_hypothesis an) (az_recommendation an)) c7) = (Exit 0, c')"
    using 4(2) by (auto simp: Let_def split: option.splits)
  have "rec_of (server_db c7) k (ac_id r)" by (rule analyze_step_Ok [OF 4(1) g6 r(1)])
  then show ?thesis using remediate_0 [OF r(2) _ _ assms(2)] g7 by auto
qed


subsection \<open>Every run\<close>

lemma attempt_good:
  assumes "good v (snd r)" "\<And>x c. good v c \<Longrightarrow> good v (snd (h x c))" "\<And>y c. good v c \<Longrightarrow> good v (snd (k y c))"
  shows "good v (snd (attempt r h k))"
  using assms by (cases r; cases "fst r") (auto simp: attempt_def)

lemma ended_good: "good v c \<Longrightarrow> good v (snd (uncaught x c))" "good v c \<Longrightarrow> good v (snd (give_up m x c))"
  by (simp_all add: uncaught_def give_up_def)

lemma show_closure_good: "good v c \<Longrightarrow> pylib_ok (av_py (ce_api v)) \<Longrightarrow> good v (snd (show_closure v k c))"
  unfolding show_closure_def
  by (intro attempt_good good_steps ended_good) (simp_all add: ended_good)

lemma remediate_good:
  assumes "good v c" "pylib_ok (av_py (ce_api v))"
  shows "good v (snd (remediate v interactive typed k m c))"
  unfolding remediate_def Let_def
  by (intro attempt_good good_steps ended_good assms) (simp_all add: ended_good assms attempt_good good_steps show_closure_good)

lemma run_demo_good:
  assumes "good v c" "pylib_ok (av_py (ce_api v))"
  shows "good v (snd (run_demo v interactive typed c))"
  unfolding run_demo_def Let_def
  by (intro attempt_good good_steps ended_good assms)
    (simp_all add: ended_good assms attempt_good good_steps remediate_good split: option.split)


text \<open>Decimal texts by integer arithmetic, for the evaluation of large times.\<close>

function decimal :: "int \<Rightarrow> str" where
  "decimal n = (if n < 10 then [char_of (48 + n)] else decimal (n div 10) @ [char_of (48 + n mod 10)])"
  by auto
termination by (relation "measure nat") auto

declare decimal.simps [simp del]

lemma char_of_int: "char_of (int n) = (char_of n :: char)"
  by (simp add: char_of_def bit_of_nat_iff_bit)

lemma digits_decimal: "digits_of n = decimal (int n)"
proof (induction n rule: digits_of.induct)
  case (1 n)
  have "int (48 + k) = 48 + int k" for k by simp
  then have c: "char_of (48 + int k) = (char_of (48 + k) :: char)" for k using char_of_int by metis
  show ?case
    using 1 c [of n] c [of "n mod 10"] by (subst digits_of.simps, subst decimal.simps) (simp add: zdiv_int zmod_int)
qed

lemma str_int_code [code]: "str_int i = (if i < 0 then CHR ''-'' # decimal (- i) else decimal i)"
  by (simp add: str_int_def digits_decimal)

subsection \<open>A run against scripted peers\<close>

text \<open>The incident of \<open>demo_recommended\<close>; the demo service is healthy again after the reset.\<close>

definition demo_replies :: "(http_error + http_response) list" where
  "demo_replies = [Inr \<lparr>hr_status = 200, hr_body = Inr (JObj [(''mode'', JStr ''normal'')])\<rparr>,
     Inr \<lparr>hr_status = 200, hr_body = Inr (JObj [(''status'', JStr ''ok''), (''mode'', JStr ''normal'')])\<rparr>]"

definition demo_env :: "(http_error + http_response) list client_env" where
  "demo_env = \<lparr>ce_api = \<lparr>av_py = demo_pylib, av_http = scripted, av_outside = demo_outside, av_settings = default_settings\<rparr>,
     ce_net = (\<lambda>_. Delivered), ce_tx_time = int, ce_own_clock = 0\<rparr>"

definition demo_start :: "(http_error + http_response) list client" where
  "demo_start = \<lparr>cl_server = (commit demo_recommended, demo_replies), cl_requests = 0, cl_shown = []\<rparr>"

lemma demo_start_good: "good demo_env demo_start"
proof -
  have "system_inv demo_pylib demo_recommended"
    unfolding demo_recommended_def Let_def
    by (intro system_inv_commit system_inv_records demo_creates_ok system_inv_ingest start_system_inv)
  then show ?thesis using system_inv_commit
    by (simp add: good_def demo_env_def demo_start_def served_def commit_def)
qed

lemma demo_lib: "av_py (ce_api demo_env) = demo_pylib"
  by (simp add: demo_env_def)


lemma demo_remediation_exits: "fst (remediate demo_env False None 2 10 demo_start) = Exit 0"
  by code_simp

lemma demo_recommendation: "rec_of (server_db demo_start) 2 10"
  by code_simp

text \<open>C38: Approve, execute, verify, close: from any recommendation for an incident, when the second half of the runner exits with 0 after an approval, the approval was decided by the operator, was executed with success and belongs to that incident, the incident is resolved at the time of the execution, and what the script showed of it is what the database holds.\<close>

theorem remediation_closes_incident:
  assumes "remediate v interactive typed k m c = (Exit 0, c')" "take_decision interactive typed = Inr p"
    and "ad_decision p = Appr_APPROVED" "rec_of (server_db c) k m" "pylib_ok (av_py (ce_api v))"
    and "system_inv (av_py (ce_api v)) (fst (cl_server c))" "server_db c = saved (fst (cl_server c))"
  shows "\<exists>a \<in> set (approvals (saved (fst (cl_server c')))). \<exists>i \<in> set (incidents (saved (fst (cl_server c')))). \<exists>t.
    ap_status a = Appr_APPROVED \<and> ap_decided_by a = Some OPERATOR \<and> ap_execution_status a = Some ''succeeded'' \<and>
    ap_executed_at a = Some t \<and> (ap_run a, k) \<in> run_incidents (saved (fst (cl_server c'))) \<and>
    inc_id i = k \<and> inc_status i = RESOLVED \<and> inc_resolved_at i = Some t \<and>
    Incident_state RESOLVED (Some t) \<in> set (cl_shown c')"
proof -
  have "good v c" using assms(6,7) by (simp add: good_def served_def)
  from remediate_0 [OF assms(1) this assms(4,5)] assms(2) have e: "ends_well v p k c'" by auto
  then obtain a where a: "a \<in> set (approvals (server_db c'))" "ap_decided_by a = Some OPERATOR" "closed_by a k c'"
    using assms(3) by (auto simp: ends_well_def)
  have s: "system_inv (av_py (ce_api v)) (fst (cl_server c'))" "server_db c' = saved (fst (cl_server c'))"
    using e by (simp_all add: ends_well_def good_def served_def)
  have "approval_good (av_py (ce_api v)) (now_of (fst (cl_server c'))) (server_db c') a"
    using a(1) system_invD(1) [OF s(1)] unfolding approvals_inv_def by blast
  then obtain t where t: "ap_executed_at a = Some t"
    using a(3) by (auto simp: approval_good_def closed_by_def split: option.splits)
  obtain run i where r: "run \<in> set (runs (server_db c'))" "run_id run = ap_run a" "run_incident run = k"
    "i \<in> set (incidents (server_db c'))" "inc_id i = k" "inc_status i = RESOLVED" "inc_resolved_at i = ap_executed_at a"
    "Incident_state RESOLVED (ap_executed_at a) \<in> set (cl_shown c')"
    using a(3) by (auto simp: closed_by_def)
  have "(ap_run a, k) \<in> run_incidents (server_db c')" using r(1-3) by (force simp: keys_def)
  then show ?thesis using a t r s(2) unfolding closed_by_def
    by (intro bexI [of _ a] bexI [of _ i] exI [of _ t]) simp_all
qed

theorem remediation_closes_incident_witness:
  "\<exists>c' a t. remediate demo_env False None 2 10 demo_start = (Exit 0, c') \<and>
     a \<in> set (approvals (saved (fst (cl_server c')))) \<and> ap_execution_status a = Some ''succeeded'' \<and>
     Incident_state RESOLVED (Some t) \<in> set (cl_shown c')"
proof -
  obtain c' where r: "remediate demo_env False None 2 10 demo_start = (Exit 0, c')"
    using demo_remediation_exits by (metis prod.collapse)
  obtain p where p: "take_decision False None = Inr p" "ad_decision p = Appr_APPROVED"
    by (simp add: take_decision_def)
  show ?thesis
    using remediation_closes_incident [OF r p demo_recommendation] demo_start_good demo_pylib_ok r
    by (simp add: good_def served_def demo_lib) blast
qed

end
