(* ===== verification/Concurrency.thy ===== *)
theory Concurrency
  imports System
begin

section \<open>Overlapping requests\<close>

text \<open>
  The handlers of \<open>Api\<close> run one after the other. Here two of them overlap, the way asyncio and
  PostgreSQL's READ COMMITTED let them: a session reads its rows, other requests run and commit,
  and the session goes on with the objects it has, which nothing refreshes. No query of the program locks a row
  and no model has a version column, so its flush is accepted: an UPDATE of the columns whose value
  differs from the one it loaded (\<open>flushed_approval\<close>, \<open>flushed_incident\<close>), on the row as the others
  left it (\<open>patch_approval\<close>, \<open>patch_incident\<close>).

  \<open>decide_with\<close> and \<open>execute_with\<close> are the rest of \<open>decide_approval\<close> and \<open>execute_approval\<close> after the
  first read of each; \<open>decide_split\<close> and \<open>execute_split\<close> show that without an overlap they are
  the functions of the services. \<open>api_decide_late\<close> and \<open>api_execute_late\<close> are the requests whose read was
  of an older world. The guards that hold one after the other (\<open>decide_approval_once\<close>,
  \<open>execute_approval_once\<close>) are shown to fail for requests that overlap; the constraints
  of the schema hold even then.
\<close>

definition patch_approval :: "uuid \<Rightarrow> (approval \<Rightarrow> approval) \<Rightarrow> world \<Rightarrow> world" where
  "patch_approval k f w = (case get_approval w k of None \<Rightarrow> w | Some a \<Rightarrow> set_approval (f a) w)"

definition patch_incident :: "uuid \<Rightarrow> (incident \<Rightarrow> incident) \<Rightarrow> world \<Rightarrow> world" where
  "patch_incident k f w = (case get_incident w k of None \<Rightarrow> w | Some i \<Rightarrow> set_incident (f i) w)"

text \<open>The row after the flush of an object that was loaded as \<open>old\<close> and is now \<open>new\<close>.\<close>

definition flushed_approval :: "approval \<Rightarrow> approval \<Rightarrow> approval \<Rightarrow> approval" where
  "flushed_approval old new r =
     r\<lparr>ap_status := (if ap_status new = ap_status old then ap_status r else ap_status new),
       ap_decided_by := (if ap_decided_by new = ap_decided_by old then ap_decided_by r else ap_decided_by new),
       ap_decision_reason :=
         (if ap_decision_reason new = ap_decision_reason old then ap_decision_reason r else ap_decision_reason new),
       ap_decided_at := (if ap_decided_at new = ap_decided_at old then ap_decided_at r else ap_decided_at new),
       ap_executed_at := (if ap_executed_at new = ap_executed_at old then ap_executed_at r else ap_executed_at new),
       ap_execution_status :=
         (if ap_execution_status new = ap_execution_status old then ap_execution_status r else ap_execution_status new),
       ap_execution_error :=
         (if ap_execution_error new = ap_execution_error old then ap_execution_error r else ap_execution_error new)\<rparr>"

definition flushed_incident :: "incident \<Rightarrow> incident \<Rightarrow> incident \<Rightarrow> incident" where
  "flushed_incident old new r =
     r\<lparr>inc_status := (if inc_status new = inc_status old then inc_status r else inc_status new),
       inc_resolved_at := (if inc_resolved_at new = inc_resolved_at old then inc_resolved_at r else inc_resolved_at new)\<rparr>"

lemma flushed_keys [simp]:
  "ap_id (flushed_approval a b r) = ap_id r" "ap_recommendation (flushed_approval a b r) = ap_recommendation r"
  "ap_run (flushed_approval a b r) = ap_run r" "ap_action_type (flushed_approval a b r) = ap_action_type r"
  "inc_id (flushed_incident i j q) = inc_id q" "inc_service (flushed_incident i j q) = inc_service q"
  by (simp_all add: flushed_approval_def flushed_incident_def)

lemma flushed_own [simp]:
  "flushed_approval a (decided a p t) a = decided a p t" "flushed_approval a (executed a st m t) a = executed a st m t"
  "flushed_incident i (i\<lparr>inc_status := x\<rparr>) i = i\<lparr>inc_status := x\<rparr>"
  "flushed_incident i (i\<lparr>inc_status := x, inc_resolved_at := y\<rparr>) i = i\<lparr>inc_status := x, inc_resolved_at := y\<rparr>"
  by (simp_all add: flushed_approval_def flushed_incident_def decided_def executed_def)

subsection \<open>Deciding\<close>

definition decide_with :: "pylib \<Rightarrow> approval_decision \<Rightarrow> approval \<Rightarrow> (world, approval) op" where
  "decide_with py p a w =
     (if ap_status a \<noteq> Appr_PENDING
      then (Inl (ApprovalError ''Approval has already been decided''), w)
      else let (now, w1) = utc_now w in
        if as_utc (ap_expires_at a) < now
        then (Inl (ApprovalError ''Approval has expired''), w1)
        else if ad_decision p \<notin> {Appr_APPROVED, Appr_REJECTED}
        then (Inl (ApprovalError ''Decision must be approved or rejected''), w1)
        else if action_digest py (ap_action_type a) (ap_parameters a) (ap_run a) \<noteq> ap_action_hash a
        then (Inl (ApprovalError ''Approval action integrity check failed''), w1)
        else let w2 = patch_approval (ap_id a) (flushed_approval a (decided a p now)) w1
          in (case get_run w2 (ap_run a) of
                None \<Rightarrow> (Inr (decided a p now), w2)
              | Some run \<Rightarrow>
                  (case get_incident w2 (run_incident run) of
                     None \<Rightarrow> (Inr (decided a p now), w2)
                   | Some i \<Rightarrow>
                       (Inr (decided a p now), add_event (inc_id i) APPROVAL_DECIDED
                          (''Approval '' @ approval_status_value (ad_decision p) @ '' by '' @ ad_decided_by p @ ''.'')
                          [(''approval_id'', JStr (uuid_text py (ap_id a)))]
                          (set_incident (i\<lparr>inc_status := (if ad_decision p = Appr_APPROVED then APPROVED
                             else REJECTED)\<rparr>) w2)))))"

definition api_decide_late ::
    "pylib \<Rightarrow> uuid \<Rightarrow> approval_decision \<Rightarrow> world \<Rightarrow> world \<Rightarrow> approval_read response \<times> world" where
  "api_decide_late py k p w0 w = answer catch_approval (then_commit
     (case get_approval w0 k of
        None \<Rightarrow> (Inl (ApprovalError ''Approval not found''), w)
      | Some a \<Rightarrow> decide_with py p a w))"

subsection \<open>Executing\<close>

text \<open>The guards, which read the approval, its run and the incident.\<close>

definition execute_reads :: "pylib \<Rightarrow> uuid \<Rightarrow> world \<Rightarrow> exn + approval \<times> incident" where
  "execute_reads py approval_id w =
     (case get_approval w approval_id of
        None \<Rightarrow> Inl (RemediationError ''Approval not found'')
      | Some a \<Rightarrow>
          if ap_status a \<noteq> Appr_APPROVED
          then Inl (RemediationError ''Only approved actions can be executed'')
          else if ap_executed_at a \<noteq> None
          then Inl (RemediationError ''Approval has already been executed'')
          else if ap_action_type a \<notin> set ALLOWED_ACTIONS
          then Inl (RemediationError ''Action is not allow-listed'')
          else if action_digest py (ap_action_type a) (ap_parameters a) (ap_run a) \<noteq> ap_action_hash a
          then Inl (RemediationError ''Approval action integrity check failed'')
          else if ap_action_type a \<noteq> ''simulated_rollback''
          then Inl (RemediationError ''Only simulated_rollback is implemented in this demo'')
          else (case get_run w (ap_run a) of
              None \<Rightarrow> Inl (RemediationError ''Agent run not found'')
            | Some run \<Rightarrow>
                (case get_incident w (run_incident run) of
                   None \<Rightarrow> Inl (RemediationError ''Incident not found'')
                 | Some i \<Rightarrow> Inr (a, i))))"

definition execute_with ::
    "pylib \<Rightarrow> 'e http \<Rightarrow> settings \<Rightarrow> approval \<Rightarrow> incident \<Rightarrow> (world \<times> 'e, approval) op" where
  "execute_with py http st a i = (\<lambda>(w, e).
     (case probe_demo_service py http st e of
        (Uncaught x, e1) \<Rightarrow> (Inl x, patch_incident (inc_id i) (flushed_incident i (i\<lparr>inc_status := EXECUTING\<rparr>)) w, e1)
      | (Caught msg, e1) \<Rightarrow>
          let (now, w2) = utc_now w
          in (Inl (RemediationError ''Rollback completed without a healthy recovery verification''),
              patch_incident (inc_id i) (flushed_incident i (i\<lparr>inc_status := FAILED\<rparr>))
                (patch_approval (ap_id a) (flushed_approval a (executed a ''failed'' (Some msg) now)) w2), e1)
      | (Healthy, e1) \<Rightarrow>
          let (now, w2) = utc_now w;
              w3 = patch_incident (inc_id i) (flushed_incident i (i\<lparr>inc_status := RESOLVED, inc_resolved_at := Some now\<rparr>))
                (patch_approval (ap_id a) (flushed_approval a (executed a ''succeeded'' None now)) w2)
          in (Inr (executed a ''succeeded'' None now), add_event (inc_id i) REMEDIATION_EXECUTED
                ''Approved simulated rollback executed and recovery was verified.''
                [(''approval_id'', JStr (uuid_text py (ap_id a))),
                 (''action_type'', JStr (ap_action_type a))] w3, e1)))"

definition api_execute_late ::
    "pylib \<Rightarrow> 'e http \<Rightarrow> settings \<Rightarrow> uuid \<Rightarrow> world \<Rightarrow> world \<times> 'e \<Rightarrow> approval response \<times> world \<times> 'e" where
  "api_execute_late py http st k w0 = (\<lambda>(w, e). answer2 catch_remediation (bind
     (case execute_reads py k w0 of
        Inl x \<Rightarrow> (Inl x, w, e)
      | Inr (a, i) \<Rightarrow> execute_with py http st a i (w, e))
     (\<lambda>a (w, e). (Inr a, commit w, e))))"

subsection \<open>Without an overlap\<close>

lemma patch_read:
  "get_approval w k = Some a \<Longrightarrow> patch_approval (ap_id a) f (snd (utc_now w)) = set_approval (f a) (snd (utc_now w))"
  "get_incident w m = Some i \<Longrightarrow> patch_incident (inc_id i) g w = set_incident (g i) w"
proof -
  assume a: "get_approval w k = Some a"
  moreover from a have "ap_id a = k" by (auto dest: row_get_SomeD)
  ultimately show "patch_approval (ap_id a) f (snd (utc_now w)) = set_approval (f a) (snd (utc_now w))"
    by (simp add: patch_approval_def utc_now_def)
next
  assume i: "get_incident w m = Some i"
  moreover from i have "inc_id i = m" by (auto dest: row_get_SomeD)
  ultimately show "patch_incident (inc_id i) g w = set_incident (g i) w" by (simp add: patch_incident_def)
qed

lemma decide_split:
  "decide_approval py k p w =
     (case get_approval w k of
        None \<Rightarrow> (Inl (ApprovalError ''Approval not found''), w)
      | Some a \<Rightarrow> decide_with py p a w)"
proof (cases "get_approval w k")
  case (Some a)
  have u: "utc_now w = (now_of w, snd (utc_now w))" by (simp add: utc_now_def now_of_def)
  have p: "patch_approval (ap_id a) (flushed_approval a (decided a p (now_of w))) (snd (utc_now w)) =
      set_approval (decided a p (now_of w)) (snd (utc_now w))" by (simp add: patch_read(1) [OF Some])
  show ?thesis
    unfolding decide_approval_def decide_with_def Some option.case
    by (subst (1 2) u) (simp only: Let_def prod.case p decided_def [symmetric])
qed (simp add: decide_approval_def)

lemma api_decide_now: "api_decide_late py k p w w = api_decide py k p w"
  by (simp add: api_decide_late_def api_decide_def decide_split)

lemma incident_of_run:
  "get_incident w m = Some i \<Longrightarrow> inc_id i = m"
  by (auto dest: row_get_SomeD)

lemma row_set_again: "key r = key q \<Longrightarrow> row_set key r (row_set key q t) = row_set key r t"
  by (simp add: row_set_def)

lemma execute_split:
  "execute_approval py http st k (w, e) =
     (case execute_reads py k w of
        Inl x \<Rightarrow> (Inl x, w, e)
      | Inr (a, i) \<Rightarrow> execute_with py http st a i (w, e))"
proof (cases "execute_reads py k w")
  case (Inl x)
  then show ?thesis
    unfolding execute_approval_def execute_reads_def
    by (simp split: option.split_asm if_split_asm split del: if_split)
next
  case (Inr ai)
  obtain a i where ai: "ai = (a, i)" by fastforce
  obtain run where r: "get_approval w k = Some a" "get_run w (ap_run a) = Some run" "get_incident w (run_incident run) = Some i"
    "ap_status a = Appr_APPROVED" "ap_executed_at a = None" "ap_action_type a \<in> set ALLOWED_ACTIONS"
    "action_digest py (ap_action_type a) (ap_parameters a) (ap_run a) = ap_action_hash a" "ap_action_type a = ''simulated_rollback''"
    using Inr ai by (auto simp: execute_reads_def split: option.splits if_splits)
  have id: "ap_id a = k" "inc_id i = run_incident run" using r(1,3) by (auto dest: row_get_SomeD)
  have p1: "patch_incident (inc_id i) f w = set_incident (f i) w" for f
    using r(3) id(2) by (simp add: patch_incident_def)
  let ?w2 = "snd (utc_now w)"
  have p2: "patch_approval (ap_id a) f ?w2 = set_approval (f a) ?w2" for f
    using r(1) id(1) by (simp add: patch_approval_def utc_now_def)
  have p3: "patch_incident (inc_id i) g (set_approval b ?w2) = set_incident (g i) (set_approval b ?w2)" for b g
    using r(3) id(2) by (simp add: patch_incident_def set_approval_def with_work_def utc_now_def)
  have over: "set_incident j (set_approval b (snd (utc_now (set_incident (i\<lparr>inc_status := EXECUTING\<rparr>) w)))) =
      set_incident j (set_approval b ?w2)" if "inc_id j = inc_id i" for j b
    using that row_set_again [of inc_id j "i\<lparr>inc_status := EXECUTING\<rparr>"]
    by (simp add: set_incident_def set_approval_def with_work_def utc_now_def)
  have now: "fst (utc_now (set_incident q w)) = fst (utc_now w)" for q
    by (simp add: set_incident_def with_work_def utc_now_def)
  obtain p e1 where pr: "probe_demo_service py http st e = (p, e1)" by fastforce
  obtain now w2 where n: "utc_now w = (now, w2)" by fastforce
  obtain w2' where n': "utc_now (set_incident (i\<lparr>inc_status := EXECUTING\<rparr>) w) = (now, w2')"
    using now [of "i\<lparr>inc_status := EXECUTING\<rparr>"] n by (cases "utc_now (set_incident (i\<lparr>inc_status := EXECUTING\<rparr>) w)") simp
  note p2 = p2 [unfolded n snd_conv] and p3 = p3 [unfolded n snd_conv] and over = over [unfolded n n' snd_conv]
  show ?thesis
    unfolding execute_approval_def execute_with_def Inr ai
    using r(1-5,7,8) by (cases p) (simp_all add: ALLOWED_ACTIONS_def pr p1 n n' p2 p3 over executed_def [symmetric] Let_def)
qed

lemma api_execute_now: "api_execute_late py http st k w (w, e) = api_execute py http st k (w, e)"
  by (simp add: api_execute_late_def api_execute_def execute_split)

subsection \<open>What a late request does\<close>

text \<open>How often the remediation of an incident was executed, by its timeline.\<close>

definition executions :: "db \<Rightarrow> uuid \<Rightarrow> nat" where
  "executions d m = length (filter (\<lambda>v. ev_type v = REMEDIATION_EXECUTED \<and> ev_incident v = m) (events d))"

lemma patch_frame:
  "saved (patch_approval k f w) = saved w" "events (work (patch_approval k f w)) = events (work w)"
  "incidents (work (patch_approval k f w)) = incidents (work w)" "clock (patch_approval k f w) = clock w"
  "clock_reads (patch_approval k f w) = clock_reads w" "runs (work (patch_approval k f w)) = runs (work w)"
  "saved (patch_incident k g w) = saved w" "events (work (patch_incident k g w)) = events (work w)"
  "approvals (work (patch_incident k g w)) = approvals (work w)"
  by (simp_all add: patch_approval_def patch_incident_def set_approval_def set_incident_def with_work_def split: option.split)

lemma get_patched:
  assumes "get_approval w k = Some r" "ap_id (f r) = k"
  shows "get_approval (patch_approval k f w) k = Some (f r)"
  using assms row_get_in_keys [OF assms(1)]
  by (simp add: patch_approval_def set_approval_def with_work_def row_get_row_set)

lemma close_commit:
  "work (close_session (commit w)) = work w" "saved (close_session (commit w)) = work w"
  "clock (close_session (commit w)) = clock w" "clock_reads (close_session (commit w)) = clock_reads w"
  by (simp_all add: close_session_def rollback_def commit_def)

lemma execute_late_Ok:
  assumes "execute_reads py k w0 = Inr (a, i)" "probe_demo_service py http st e = (Healthy, e1)"
  shows "\<exists>x w1. api_execute_late py http st k w0 (w, e) = (Ok x, w1, e1) \<and> work w1 = saved w1 \<and>
    executions (saved w1) (inc_id i) = Suc (executions (work w) (inc_id i)) \<and>
    clock w1 = clock w \<and> clock_reads w1 = Suc (clock_reads w) \<and>
    (\<forall>r. get_approval w k = Some r \<longrightarrow> get_approval w1 k = Some (flushed_approval a (executed a ''succeeded'' None (now_of w)) r))"
proof -
  have k: "ap_id a = k" using assms(1) by (auto simp: execute_reads_def split: option.splits if_splits dest: row_get_SomeD)
  define w2 where "w2 = w\<lparr>clock_reads := Suc (clock_reads w)\<rparr>"
  have u: "utc_now w = (now_of w, w2)" by (simp add: utc_now_def now_of_def w2_def)
  let ?w3 = "patch_incident (inc_id i) (flushed_incident i (i\<lparr>inc_status := RESOLVED, inc_resolved_at := Some (now_of w)\<rparr>))
    (patch_approval (ap_id a) (flushed_approval a (executed a ''succeeded'' None (now_of w))) w2)"
  obtain w4 where w4: "execute_with py http st a i (w, e) = (Inr (executed a ''succeeded'' None (now_of w)), w4, e1)"
    "w4 = add_event (inc_id i) REMEDIATION_EXECUTED ''Approved simulated rollback executed and recovery was verified.''
      [(''approval_id'', JStr (uuid_text py (ap_id a))), (''action_type'', JStr (ap_action_type a))] ?w3"
    by (simp add: execute_with_def assms(2) Let_def u)
  have s: "executions (work w4) (inc_id i) = Suc (executions (work w) (inc_id i))"
    by (simp add: w4(2) executions_def add_event_def new_uuid_def with_work_def patch_frame w2_def)
  have "clock ?w3 = clock w" "clock_reads ?w3 = Suc (clock_reads w)"
    by (simp_all add: patch_incident_def patch_approval_def set_incident_def set_approval_def with_work_def w2_def split: option.split)
  then have t: "clock w4 = clock w" "clock_reads w4 = Suc (clock_reads w)"
    by (simp_all add: w4(2) add_event_def new_uuid_def with_work_def)
  have g: "get_approval w4 k = Some (flushed_approval a (executed a ''succeeded'' None (now_of w)) r)"
    if r: "get_approval w k = Some r" for r
  proof -
    have "get_approval w2 k = Some r" using r by (simp add: w2_def)
    then have "get_approval (patch_approval k (flushed_approval a (executed a ''succeeded'' None (now_of w))) w2) k =
        Some (flushed_approval a (executed a ''succeeded'' None (now_of w)) r)"
      using row_get_SomeD [OF r] by (intro get_patched) simp_all
    then show ?thesis by (simp add: w4(2) add_event_def new_uuid_def with_work_def patch_frame k)
  qed
  have "api_execute_late py http st k w0 (w, e) = (Ok (executed a ''succeeded'' None (now_of w)), close_session (commit w4), e1)"
    by (simp add: api_execute_late_def assms(1) w4(1) answer2_def answer_def)
  then show ?thesis using s t g by (simp add: close_commit)
qed

lemma executable_reads:
  assumes "approvals_inv py w" "executable w k a"
  shows "\<exists>i run. execute_reads py k w = Inr (a, i) \<and> get_run w (ap_run a) = Some run \<and> inc_id i = run_incident run"
proof -
  have a: "get_approval w k = Some a" "a \<in> set (approvals (work w))" using assms(2) by (auto simp: executable_def dest: row_get_SomeD)
  obtain run i where ri: "get_run w (ap_run a) = Some run" "get_incident w (run_incident run) = Some i"
    using approval_run [OF assms(1) a(2)] by blast
  have "action_digest py (ap_action_type a) (ap_parameters a) (ap_run a) = ap_action_hash a"
    using assms(1) a(2) by (simp add: approvals_inv_def approval_good_def)
  then have "execute_reads py k w = Inr (a, i)"
    using assms(2) a(1) ri by (simp add: executable_def execute_reads_def ALLOWED_ACTIONS_def)
  then show ?thesis using ri(1) row_get_SomeD [OF ri(2)] by auto
qed

lemma decide_late_Ok:
  assumes "get_approval w0 k = Some a" "ap_status a = Appr_PENDING" "\<not> as_utc (ap_expires_at a) < now_of w"
    "ad_decision p \<in> {Appr_APPROVED, Appr_REJECTED}" "approval_good py t d a"
  shows "\<exists>w1. api_decide_late py k p w0 w = (Ok (decided a p (now_of w)), w1) \<and> work w1 = saved w1 \<and>
    clock w1 = clock w \<and> clock_reads w1 = Suc (clock_reads w) \<and>
    (\<forall>r. get_approval w k = Some r \<longrightarrow> get_approval w1 k = Some (flushed_approval a (decided a p (now_of w)) r))"
proof -
  define w1 where "w1 = w\<lparr>clock_reads := Suc (clock_reads w)\<rparr>"
  define w2 where "w2 = patch_approval k (flushed_approval a (decided a p (now_of w))) w1"
  have k: "ap_id a = k" using assms(1) by (auto dest: row_get_SomeD)
  have u: "utc_now w = (now_of w, w1)" by (simp add: utc_now_def now_of_def w1_def)
  have h: "action_digest py (ap_action_type a) (ap_parameters a) (ap_run a) = ap_action_hash a"
    using assms(5) by (simp add: approval_good_def)
  have e: "decide_with py p a w = (case get_run w2 (ap_run a) of
        None \<Rightarrow> (Inr (decided a p (now_of w)), w2)
      | Some run \<Rightarrow> (case get_incident w2 (run_incident run) of
           None \<Rightarrow> (Inr (decided a p (now_of w)), w2)
         | Some i \<Rightarrow> (Inr (decided a p (now_of w)), add_event (inc_id i) APPROVAL_DECIDED
             (''Approval '' @ approval_status_value (ad_decision p) @ '' by '' @ ad_decided_by p @ ''.'')
             [(''approval_id'', JStr (uuid_text py (ap_id a)))]
             (set_incident (i\<lparr>inc_status := (if ad_decision p = Appr_APPROVED then APPROVED else REJECTED)\<rparr>) w2))))"
    unfolding w2_def using assms(2-4) h k by (simp add: decide_with_def u Let_def split del: if_split)
  obtain w3 where w3: "decide_with py p a w = (Inr (decided a p (now_of w)), w3)"
    "w3 = w2 \<or> (\<exists>m msg md i. w3 = add_event m APPROVAL_DECIDED msg md (set_incident i w2))"
  proof (cases "get_run w2 (ap_run a)")
    case None
    then show thesis using e that by simp
  next
    case (Some run)
    show thesis
    proof (cases "get_incident w2 (run_incident run)")
      case None
      then show thesis using e Some that by simp
    next
      case (Some i)
      then show thesis using e \<open>get_run w2 (ap_run a) = Some run\<close> by (intro that) (simp, blast)
    qed
  qed
  have f: "approvals (work w3) = approvals (work w2) \<and> clock w3 = clock w \<and> clock_reads w3 = Suc (clock_reads w)"
    using w3(2) by (auto simp: add_event_def new_uuid_def with_work_def set_incident_def patch_frame w2_def w1_def)
  have "get_approval w3 k = Some (flushed_approval a (decided a p (now_of w)) r)" if r: "get_approval w k = Some r" for r
  proof -
    have "get_approval w1 k = Some r" using r by (simp add: w1_def)
    then have "get_approval w2 k = Some (flushed_approval a (decided a p (now_of w)) r)"
      using row_get_SomeD [OF r] unfolding w2_def by (intro get_patched) simp_all
    then show ?thesis using f by simp
  qed
  moreover have "api_decide_late py k p w0 w = (Ok (decided a p (now_of w)), close_session (commit w3))"
    by (simp add: api_decide_late_def assms(1) w3(1) then_commit_def answer_def)
  ultimately show ?thesis using f by (simp add: close_commit)
qed

subsection \<open>Two requests on one approval\<close>

text \<open>C39: Two executions of the same approval that overlap both go through: when a second request reads the approval before the first one commits, both answer 200, the demo service is reset twice and the timeline of the incident records two executions, while a request that starts afterwards is refused; the guard against a second execution only holds for requests that do not overlap.\<close>

theorem overlapping_executions_both_run:
  assumes "approvals_inv py w" "executable w k a" "get_run w (ap_run a) = Some run"
    and "probe_demo_service py http st e = (Healthy, e1)" "probe_demo_service py http st e1 = (Healthy, e2)"
  shows "\<exists>x w1 y w2. api_execute py http st k (w, e) = (Ok x, w1, e1) \<and>
    api_execute_late py http st k w (w1, e1) = (Ok y, w2, e2) \<and>
    executions (saved w2) (run_incident run) = executions (work w) (run_incident run) + 2 \<and>
    api_execute py http st k (w1, e1) = (Http_failure 400 ''Approval has already been executed'', w1, e1)"
proof -
  obtain i where i: "execute_reads py k w = Inr (a, i)" "inc_id i = run_incident run"
    using executable_reads [OF assms(1,2)] assms(3) by auto
  obtain x w1 where 1: "api_execute py http st k (w, e) = (Ok x, w1, e1)" "work w1 = saved w1"
    "executions (saved w1) (inc_id i) = Suc (executions (work w) (inc_id i))"
    "\<forall>r. get_approval w k = Some r \<longrightarrow> get_approval w1 k = Some (flushed_approval a (executed a ''succeeded'' None (now_of w)) r)"
    using execute_late_Ok [OF i(1) assms(4), of w] unfolding api_execute_now by blast
  obtain y w2 where 2: "api_execute_late py http st k w (w1, e1) = (Ok y, w2, e2)"
    "executions (saved w2) (inc_id i) = Suc (executions (work w1) (inc_id i))"
    using execute_late_Ok [OF i(1) assms(5), of w1] by blast
  have "get_approval w1 k = Some (executed a ''succeeded'' None (now_of w))" "ap_status a = Appr_APPROVED"
    using 1(4) assms(2) by (simp_all add: executable_def)
  then have "execute_approval py http st k (w1, e1) = (Inl (RemediationError ''Approval has already been executed''), w1, e1)"
    by (simp add: execute_approval_def executed_def)
  then have "api_execute py http st k (w1, e1) = (Http_failure 400 ''Approval has already been executed'', w1, e1)"
    using 1(2) by (simp add: commit_last_handlers commit_last_def answer2_def answer_def close_session_def rollback_def)
  then show ?thesis using 1 2 i(2) by (intro exI [of _ x] exI [of _ w1] exI [of _ y] exI [of _ w2]) simp
qed

lemma demo_probe: "\<exists>s'. probe_demo_service demo_pylib demo_client default_settings s = (Healthy, s')"
proof -
  have "demo_service_url default_settings = ''http://localhost:8001''" by (simp add: default_settings_def)
  then show ?thesis using probe_demo_healthy [of demo_pylib default_settings "''t''" s] by (auto simp: demo_client_def)
qed

theorem overlapping_executions_both_run_witness:
  "\<exists>x w1 y w2 e1 e2. api_execute demo_pylib demo_client default_settings 11 (demo_approved, demo_faulty) = (Ok x, w1, e1) \<and>
     api_execute_late demo_pylib demo_client default_settings 11 demo_approved (w1, e1) = (Ok y, w2, e2) \<and>
     executions (saved w2) 2 = executions (work demo_approved) 2 + 2"
proof -
  obtain a where a: "executable demo_approved 11 a" using demo_approved_executable ..
  obtain i run where r: "get_run demo_approved (ap_run a) = Some run"
    using executable_reads [OF demo_approvals_inv(2) a] by blast
  obtain e1 e2 where e: "probe_demo_service demo_pylib demo_client default_settings demo_faulty = (Healthy, e1)"
    "probe_demo_service demo_pylib demo_client default_settings e1 = (Healthy, e2)"
    using demo_probe by blast
  have "map run_incident (runs (work demo_approved)) = [2]" by code_simp
  moreover have "run_incident run \<in> set (map run_incident (runs (work demo_approved)))" using row_get_SomeD [OF r] by simp
  ultimately have "run_incident run = 2" by simp
  then show ?thesis using overlapping_executions_both_run [OF demo_approvals_inv(2) a r e] by metis
qed

text \<open>C40: A decision can be overwritten after it was acted on: when a rejecting operator's request reads the approval before it is approved and executed by others, its answer is 200 and says rejected, and the database ends with an approval that is rejected and was executed with success, which is a state that no requests one after the other can reach.\<close>

theorem late_rejection_overwrites_approval:
  assumes "approvals_inv py w" "work w = saved w" "get_approval w k = Some a" "ap_status a = Appr_PENDING"
    and "ap_action_type a = ''simulated_rollback''" "ad_decision p = Appr_APPROVED" "ad_decision q = Appr_REJECTED"
    and "clock w (clock_reads w + 2) \<le> as_utc (ap_expires_at a)" "probe_demo_service py http st e = (Healthy, e1)"
  shows "\<exists>b w1 x w2 c w3 d. api_decide py k p w = (Ok b, w1) \<and> api_execute py http st k (w1, e) = (Ok x, w2, e1) \<and>
    api_decide_late py k q w w2 = (Ok c, w3) \<and> ap_status c = Appr_REJECTED \<and> get_approval w3 k = Some d \<and>
    ap_status d = Appr_REJECTED \<and> ap_execution_status d = Some ''succeeded'' \<and> ap_executed_at d \<noteq> None \<and>
    \<not> approvals_inv py w3"
proof -
  have a: "a \<in> set (approvals (work w))" using assms(3) by (auto dest: row_get_SomeD)
  then have g: "approval_good py (now_of w) (work w) a" using assms(1) by (simp add: approvals_inv_def)
  have m: "mono (clock w)" using approvals_inv_parts(1) [OF assms(1)] by (simp add: world_ok_def)
  have x0: "ap_executed_at a = None" using g assms(4) by (auto simp: approval_good_def split: option.splits)
  have now: "now_of w = clock w (clock_reads w)" by (simp add: now_of_def)
  have "clock w (clock_reads w) \<le> clock w (clock_reads w + 2)" using m by (simp add: monoD)
  then have t1: "\<not> as_utc (ap_expires_at a) < now_of w" using assms(8) by (simp add: now)
  obtain w1 where 1: "api_decide py k p w = (Ok (decided a p (now_of w)), w1)" "work w1 = saved w1" "clock w1 = clock w"
    "clock_reads w1 = Suc (clock_reads w)" "get_approval w1 k = Some (decided a p (now_of w))"
    using decide_late_Ok [OF assms(3,4) t1 _ g, of p] assms(3,6) unfolding api_decide_now by auto
  have "approvals_inv py (snd (api_decide py k p w))"
  proof -
    have "approvals_inv py (snd (then_commit (decide_approval py k p w)))"
      unfolding then_commit_def
      by (rule bind_keeps) (simp_all add: decide_approval_inv [OF assms(1)] approvals_inv_commit)
    then show ?thesis by (simp add: api_decide_def snd_answer close_session_def approvals_inv_rollback)
  qed
  then have i1: "approvals_inv py w1" by (simp add: 1(1))
  have ex: "executable w1 k (decided a p (now_of w))"
    using 1(5) assms(5,6) x0 by (simp add: executable_def decided_def)
  obtain i where r: "execute_reads py k w1 = Inr (decided a p (now_of w), i)" using executable_reads [OF i1 ex] by blast
  obtain x w2 where 2: "api_execute py http st k (w1, e) = (Ok x, w2, e1)" "clock w2 = clock w" "clock_reads w2 = clock_reads w + 2"
    "get_approval w2 k = Some (executed (decided a p (now_of w)) ''succeeded'' None (now_of w1))"
    using execute_late_Ok [OF r assms(9), of w1] 1(3-5) unfolding api_execute_now by auto
  have t2: "\<not> as_utc (ap_expires_at a) < now_of w2" using assms(8) by (simp add: now_of_def 2(2,3))
  let ?d = "flushed_approval a (decided a q (now_of w2)) (executed (decided a p (now_of w)) ''succeeded'' None (now_of w1))"
  obtain w3 where 3: "api_decide_late py k q w w2 = (Ok (decided a q (now_of w2)), w3)" "get_approval w3 k = Some ?d"
    using decide_late_Ok [OF assms(3,4) t2 _ g, of q] 2(4) assms(7) by auto
  have d: "ap_status ?d = Appr_REJECTED" "ap_execution_status ?d = Some ''succeeded''" "ap_executed_at ?d = Some (now_of w1)"
    using assms(4,7) by (simp_all add: decided_def executed_def flushed_approval_def)
  have "\<not> approval_good py n db ?d" for n db using d(1,3) by (simp add: approval_good_def)
  then have "\<not> approvals_inv py w3"
    using 3(2) unfolding approvals_inv_def by (blast dest: row_get_SomeD)
  moreover have "ap_status (decided a q (now_of w2)) = Appr_REJECTED" using assms(7) by (simp add: decided_def)
  ultimately show ?thesis using 1(1) 2(1) 3 d by (metis option.distinct(1))
qed

definition demo_rejection :: approval_decision where
  "demo_rejection = \<lparr>ad_decision = Appr_REJECTED, ad_decided_by = ''bob'', ad_reason = None\<rparr>"

lemma demo_pending:
  "case get_approval demo_requested 11 of None \<Rightarrow> False | Some a \<Rightarrow> ap_status a = Appr_PENDING \<and>
     ap_action_type a = ''simulated_rollback'' \<and>
     clock demo_requested (clock_reads demo_requested + 2) \<le> as_utc (ap_expires_at a)"
  by code_simp

theorem late_rejection_overwrites_approval_witness:
  "\<exists>w2 c w3 d. api_decide_late demo_pylib 11 demo_rejection demo_requested w2 = (Ok c, w3) \<and>
     get_approval w3 11 = Some d \<and> ap_status d = Appr_REJECTED \<and> ap_executed_at d \<noteq> None"
proof -
  obtain a where a: "get_approval demo_requested 11 = Some a" "ap_status a = Appr_PENDING"
    "ap_action_type a = ''simulated_rollback''" "clock demo_requested (clock_reads demo_requested + 2) \<le> as_utc (ap_expires_at a)"
    using demo_pending by (auto split: option.splits)
  have s: "work demo_requested = saved demo_requested" by (simp add: demo_requested_def commit_def)
  obtain e1 where p: "probe_demo_service demo_pylib demo_client default_settings demo_faulty = (Healthy, e1)"
    using demo_probe by blast
  have "ad_decision demo_decision = Appr_APPROVED" "ad_decision demo_rejection = Appr_REJECTED"
    by (simp_all add: demo_decision_def demo_rejection_def)
  from late_rejection_overwrites_approval [OF demo_approvals_inv(1) s a(1-3) this a(4) p] show ?thesis by blast
qed

subsection \<open>What holds all the same\<close>

lemma patch_approval_ok:
  assumes "world_ok w" "\<And>r. ap_id (f r) = ap_id r \<and> ap_recommendation (f r) = ap_recommendation r \<and>
    ap_run (f r) = ap_run r \<and> ap_action_type (f r) = ap_action_type r"
  shows "world_ok (patch_approval k f w)"
proof (cases "get_approval w k")
  case (Some r)
  then have "ap_id r = k" by (auto dest: row_get_SomeD)
  then have "world_ok (set_approval (f r) w)"
    using Some assms(2) [of r] by (intro set_approval_ok [OF assms(1), where q = r]) simp_all
  then show ?thesis by (simp add: patch_approval_def Some)
qed (simp add: patch_approval_def assms(1))

lemma patch_incident_ok:
  assumes "world_ok w" "\<And>r. inc_service (f r) = inc_service r"
  shows "world_ok (patch_incident k f w)"
proof (cases "get_incident w k")
  case (Some i)
  then have "i \<in> set (incidents (work w))" by (auto dest: row_get_SomeD)
  then have "inc_service i \<in> keys sv_id (services (work w))"
    using world_okD [OF assms(1)] by (auto simp: db_ok_def incidents_ok_def)
  then show ?thesis using assms by (simp add: patch_incident_def Some set_incident_ok)
qed (simp add: patch_incident_def assms(1))

lemma keys_patched:
  "keys inc_id (incidents (work (patch_approval k f w))) = keys inc_id (incidents (work w))"
  "(\<And>r. inc_id (g r) = inc_id r) \<Longrightarrow> keys inc_id (incidents (work (patch_incident m g w))) = keys inc_id (incidents (work w))"
  by (simp_all add: patch_frame) (simp add: patch_incident_def set_incident_def with_work_def keys_row_set split: option.split)

lemma decide_with_ok: "world_ok w \<Longrightarrow> world_ok (snd (decide_with py p a w))"
proof -
  assume ok: "world_ok w"
  let ?w2 = "patch_approval (ap_id a) (flushed_approval a (decided a p (now_of w))) (snd (utc_now w))"
  have w2: "world_ok ?w2" by (intro patch_approval_ok utc_now_ok ok) simp
  have ev: "world_ok (add_event (inc_id i) ty msg md (set_incident (i\<lparr>inc_status := s\<rparr>) ?w2))"
    if i: "get_incident ?w2 m = Some i" for i m ty msg md s
  proof -
    have "i \<in> set (incidents (work ?w2))" using i by (auto dest: row_get_SomeD)
    then have "inc_service i \<in> keys sv_id (services (work ?w2))" "inc_id i \<in> keys inc_id (incidents (work ?w2))"
      using world_okD [OF w2] by (auto simp: db_ok_def incidents_ok_def keys_def)
    then show ?thesis
      by (intro add_event_ok set_incident_ok w2) (simp_all add: set_incident_def with_work_def keys_row_set)
  qed
  obtain w1 where u: "utc_now w = (now_of w, w1)" by (simp add: utc_now_def now_of_def)
  have w1: "world_ok w1" using utc_now_ok [OF ok] by (simp add: u)
  show ?thesis
    unfolding decide_with_def u Let_def prod.case
    using ok w1 w2 [unfolded u snd_conv] ev [unfolded u snd_conv]
    by (simp split: option.split)
qed

lemma execute_with_ok:
  assumes "world_ok w" "inc_id i \<in> keys inc_id (incidents (work w))"
  shows "world_ok (fst (snd (execute_with py http st a i (w, e))))"
proof -
  let ?w1 = "patch_incident (inc_id i) (flushed_incident i (i\<lparr>inc_status := EXECUTING\<rparr>)) w"
  have ok1: "world_ok ?w1" by (intro patch_incident_ok assms(1)) simp
  obtain now w2 where u: "utc_now w = (now, w2)" by fastforce
  have w2: "world_ok w2" "inc_id i \<in> keys inc_id (incidents (work w2))"
    using utc_now_ok [OF assms(1)] assms(2) u by (auto simp: utc_now_def)
  have p: "world_ok (patch_incident (inc_id i) (flushed_incident i q) (patch_approval (ap_id a) (flushed_approval a b) w2))" for q b
    by (intro patch_incident_ok patch_approval_ok w2(1)) simp_all
  moreover have "world_ok (add_event (inc_id i) ty msg md
      (patch_incident (inc_id i) (flushed_incident i q) (patch_approval (ap_id a) (flushed_approval a b) w2)))" for q b ty msg md
    using w2 by (intro add_event_ok p) (simp add: keys_patched)
  ultimately show ?thesis
    by (simp add: execute_with_def Let_def u ok1 split: prod.split probe.split)
qed

text \<open>The schema's constraints hold however the requests overlap, as PostgreSQL checks each of them at the flush.\<close>

lemma late_requests_keep_schema:
  "world_ok w \<Longrightarrow> world_ok (snd (api_decide_late py k p w0 w))"
  "world_ok w \<Longrightarrow> keys inc_id (incidents (work w0)) \<subseteq> keys inc_id (incidents (work w)) \<Longrightarrow>
    world_ok (fst (snd (api_execute_late py http st k w0 (w, e))))"
proof -
  assume w: "world_ok w"
  have "world_ok (snd (then_commit (case get_approval w0 k of None \<Rightarrow> (Inl (ApprovalError ''Approval not found''), w)
      | Some a \<Rightarrow> decide_with py p a w)))"
    unfolding then_commit_def
    by (rule bind_keeps) (use w in \<open>simp_all add: decide_with_ok commit_ok split: option.split\<close>)
  then show "world_ok (snd (api_decide_late py k p w0 w))"
    by (simp add: api_decide_late_def snd_answer close_session_def rollback_ok)
next
  assume w: "world_ok w" and k: "keys inc_id (incidents (work w0)) \<subseteq> keys inc_id (incidents (work w))"
  let ?r = "case execute_reads py k w0 of Inl x \<Rightarrow> (Inl x, w, e) | Inr (a, i) \<Rightarrow> execute_with py http st a i (w, e)"
  have "world_ok (fst (snd ?r))"
  proof (cases "execute_reads py k w0")
    case (Inr ai)
    obtain a i where ai: "ai = (a, i)" by fastforce
    then have "i \<in> set (incidents (work w0))"
      using Inr by (auto simp: execute_reads_def split: option.splits if_splits dest: row_get_SomeD)
    then have "inc_id i \<in> keys inc_id (incidents (work w))" using k by (auto simp: keys_def)
    then show ?thesis using execute_with_ok [OF w] by (simp add: Inr ai)
  qed (simp add: w)
  then have "world_ok (fst (snd (commit_last ?r)))"
    unfolding commit_last_def
    by (cases ?r; cases "fst ?r") (auto simp: bind_def commit_ok)
  then show "world_ok (fst (snd (api_execute_late py http st k w0 (w, e))))"
    by (simp add: api_execute_late_def commit_last_def snd_answer2 close_session_def rollback_ok)
qed

end
