(* ===== verification/Wiring.thy ===== *)
theory Wiring
  imports Demo_Run
begin

section \<open>The request counters and the scenario trigger\<close>

text \<open>
  Two small parts around the handlers. The middleware of \<open>apps/api/app/main.py\<close> counts the requests
  and observes how long they took. \<open>scripts/simulate_incident.py\<close> asks the simulator for one scenario;
  it is a client like the demo runner, with an except clause of its own.
\<close>

subsection \<open>The middleware\<close>

text \<open>
  \<open>call_next\<close> gives the status of a response, or raises what the handler raised and nothing inside turned
  into a response. The route template is in the scope of the request when a route matched.
\<close>

record http_metrics =
  hm_requests :: "(str \<times> str \<times> str) list"
  hm_durations :: "(str \<times> str \<times> time) list"

definition status_of :: "int \<Rightarrow> 'a response \<Rightarrow> exn + int" where
  "status_of ok r = (case r of Ok x \<Rightarrow> Inr ok | Http_failure code detail \<Rightarrow> Inr code | Crashed e \<Rightarrow> Inl e)"

definition record_request_metrics ::
    "str \<Rightarrow> str \<Rightarrow> str option \<Rightarrow> time \<Rightarrow> time \<Rightarrow> exn + int \<Rightarrow> http_metrics \<Rightarrow> (exn + int) \<times> http_metrics" where
  "record_request_metrics verb raw_path route started finished result m =
     (case result of
        Inl e \<Rightarrow> (Inl e, m)
      | Inr status \<Rightarrow>
          let path = (case route of Some p \<Rightarrow> p | None \<Rightarrow> raw_path)
          in (Inr status, m\<lparr>hm_requests := hm_requests m @ [(verb, path, str_int status)],
                hm_durations := hm_durations m @ [(verb, path, finished - started)]\<rparr>))"

text \<open>A history of requests: verb, raw path, route, start, end and what the handler gave.\<close>

type_synonym http_exchange = "str \<times> str \<times> str option \<times> time \<times> time \<times> (exn + int)"

fun after_exchange :: "http_exchange \<Rightarrow> http_metrics \<Rightarrow> http_metrics" where
  "after_exchange (verb, raw, route, s, t, r) m = snd (record_request_metrics verb raw route s t r m)"

fun answered_exchange :: "http_exchange \<Rightarrow> bool" where
  "answered_exchange (verb, raw, route, s, t, r) = (\<not> isl r)"

text \<open>
  The counter and the histogram agree, and both hold exactly the requests that got a response:
  a request whose handler raised is in neither, so the 500 that the server answers it is never counted.
\<close>

lemma metrics_count_answers:
  "length (hm_requests (fold after_exchange xs m)) = length (hm_requests m) + length (filter answered_exchange xs) \<and>
   length (hm_durations (fold after_exchange xs m)) = length (hm_durations m) + length (filter answered_exchange xs)"
proof (induction xs arbitrary: m)
  case (Cons x xs)
  obtain verb raw route s t r where x: "x = (verb, raw, route, s, t, r)" by (metis prod.collapse)
  show ?case
    using Cons [of "after_exchange x m"]
    by (cases r) (simp_all add: x record_request_metrics_def Let_def)
qed simp

lemma crash_not_counted:
  "snd (record_request_metrics verb raw route s t (status_of ok (Crashed e)) m) = m"
  by (simp add: record_request_metrics_def status_of_def)

text \<open>A path that matches no route is its own label, so the labels are as many as the paths that callers make up.\<close>

lemma unmatched_paths_are_labels:
  "set (hm_requests (fold after_exchange (map (\<lambda>p. (''GET'', p, None, 0, 0, Inr 404)) ps) m)) =
     set (hm_requests m) \<union> (\<lambda>p. (''GET'', p, str_int 404)) ` set ps"
proof (induction ps arbitrary: m)
  case (Cons p ps)
  show ?case
    using Cons [of "after_exchange (''GET'', p, None, 0, 0, Inr 404) m"]
    by (auto simp: record_request_metrics_def Let_def)
qed simp

subsection \<open>The scenario trigger\<close>

definition SCENARIOS :: "str list" where
  "SCENARIOS = [''high-latency'', ''error-spike'', ''database-timeout'', ''deployment-regression'', ''recover'']"

text \<open>The POST routes of \<open>api/v1/simulator.py\<close>, below \<open>/simulator/\<close>.\<close>

definition simulator_routes :: "(str \<times> fault_mode) list" where
  "simulator_routes = [(''incidents/high-latency'', HIGH_LATENCY), (''incidents/error-spike'', ERROR_SPIKE),
     (''incidents/database-timeout'', DATABASE_TIMEOUT), (''incidents/deployment-regression'', DEPLOYMENT_REGRESSION),
     (''recover'', NORMAL)]"

definition simulator_handler ::
    "'e api_env \<Rightarrow> str \<Rightarrow> world \<times> 'e \<Rightarrow> simulation_response response \<times> world \<times> 'e" where
  "simulator_handler v path s =
     (case map_of simulator_routes path of
        None \<Rightarrow> (Http_failure 404 ''Not Found'', s)
      | Some m \<Rightarrow>
          if m = NORMAL then (case api_recover (av_http v) (av_settings v) (snd s) of (r, e) \<Rightarrow> (Ok r, fst s, e))
          else api_simulate (av_http v) (av_settings v) m s)"

definition scenario_path :: "str \<Rightarrow> str" where
  "scenario_path scenario = (if scenario = ''recover'' then ''recover'' else ''incidents/'' @ scenario)"

text \<open>HTTPError is an URLError; a time-out or a reset while reading the answer is not.\<close>

definition simulate_incident :: "'e client_env \<Rightarrow> str \<Rightarrow> 'e client \<Rightarrow> ending \<times> 'e client" where
  "simulate_incident v scenario c =
     (case api_request v (simulator_handler (ce_api v) (scenario_path scenario)) c of
        (Inl Connection_lost, c1) \<Rightarrow> (Raised Connection_lost, c1)
      | (Inl x, c1) \<Rightarrow> (Exit 1, c1)
      | (Inr r, c1) \<Rightarrow> (Exit 0, print_out (Scenario (sm_scenario r) (sm_detail r)) c1))"

text \<open>Every choice of the command line is a route, and the fault mode is the one of that name.\<close>

lemma scenarios_routed:
  "list_all (\<lambda>s. case map_of simulator_routes (scenario_path s) of
     None \<Rightarrow> False
   | Some m \<Rightarrow> s = ''recover'' \<and> m = NORMAL \<or> fault_mode_value m = map (\<lambda>c. if c = CHR ''-'' then CHR ''_'' else c) s) SCENARIOS"
  by code_simp

lemma simulator_handler_served:
  assumes "system_inv (av_py v) w" "work w = saved w" "pylib_ok (av_py v)"
  shows "served (av_py v) (fst (snd (simulator_handler v path (w, e))))"
proof (cases "map_of simulator_routes path")
  case None
  then show ?thesis using assms by (simp add: simulator_handler_def served_def)
next
  case (Some m)
  then show ?thesis
    using api_effect_served [OF assms(1,3), of "C_simulate m" e] assms(1,2)
    by (simp add: simulator_handler_def served_def split: prod.split)
qed

lemma simulate_incident_good:
  assumes "good v c" "pylib_ok (av_py (ce_api v))"
  shows "good v (snd (simulate_incident v scenario c))"
proof -
  have "good v (snd (api_request v (simulator_handler (ce_api v) (scenario_path scenario)) c))"
    by (rule good_request [OF assms]) (rule simulator_handler_served [OF _ _ assms(2)])
  then show ?thesis
    by (auto simp: simulate_incident_def split: prod.splits sum.splits client_error.splits)
qed

end
